(* ===== verification/Prelude.thy ===== *)
theory Prelude
  imports Main "HOL-Library.Word" "HOL-Library.AList"
begin

text \<open>
  Shared vocabulary of the development: the machine integers the risk manager uses, the hash
  containers (\<open>absl::flat_hash_map\<close>, \<open>absl::flat_hash_set\<close>) as association lists and
  duplicate-free lists, the error values that stand for the exceptions and fatal exits of the
  program, and the generic lemmas the component theories rest on.

  A hash map is the list of its entries in iteration order. The order is unspecified in the
  program; a new entry goes to the end here, and no property depends on where it goes.
\<close>

named_theorems hash_simps "look-up laws of the hash containers"

type_synonym u8 = "8 word"
type_synonym u32 = "32 word"
type_synonym u64 = "64 word"
type_synonym instrument_id = u32

section \<open>Errors\<close>

text \<open>
  Every way the program leaves an operation early: the exception classes it throws, a failed
  library call that throws, \<open>log::fatal\<close> (which ends the process) and undefined behaviour.
\<close>

datatype error =
    RuntimeError
  | InvalidArgument
  | RangeError
  | LibraryException
  | FatalError
  | UndefinedBehaviour

definition bind_result :: "error + 'a \<Rightarrow> ('a \<Rightarrow> error + 'b) \<Rightarrow> error + 'b" where
  "bind_result r f = (case r of Inl e \<Rightarrow> Inl e | Inr x \<Rightarrow> f x)"

lemma bind_result_simps [simp]:
  "bind_result (Inl e) f = Inl e"
  "bind_result (Inr x) f = f x"
  by (simp_all add: bind_result_def)

lemma bind_result_Inr_iff:
  "bind_result r f = Inr y \<longleftrightarrow> (\<exists>x. r = Inr x \<and> f x = Inr y)"
  by (cases r) auto

lemma option_eqI: "(\<And>p. x = Some p \<longleftrightarrow> y = Some p) \<Longrightarrow> x = y"
  by (cases x; cases y) auto

section \<open>Hash maps\<close>

type_synonym ('k, 'v) hash_map = "('k \<times> 'v) list"

definition find_or :: "'v \<Rightarrow> ('k, 'v) hash_map \<Rightarrow> 'k \<Rightarrow> 'v" where
  "find_or d m k = (case map_of m k of None \<Rightarrow> d | Some v \<Rightarrow> v)"

definition try_emplace :: "'k \<Rightarrow> 'v \<Rightarrow> ('k, 'v) hash_map \<Rightarrow> ('k, 'v) hash_map" where
  "try_emplace k v m = (case map_of m k of None \<Rightarrow> AList.update k v m | Some _ \<Rightarrow> m)"

definition unique_keys :: "('k, 'v) hash_map \<Rightarrow> bool" where
  "unique_keys m \<longleftrightarrow> distinct (map fst m)"

lemma map_of_update [simp, hash_simps]: "map_of (AList.update k v m) = (map_of m)(k \<mapsto> v)"
  by (rule AList.update_conv')

lemma map_of_alist_delete [simp, hash_simps]:
  "map_of (AList.delete k m) = (map_of m)(k := None)"
  by (rule AList.delete_conv')

lemma find_or_update [simp, hash_simps]:
  "find_or d (AList.update k v m) k' = (if k' = k then v else find_or d m k')"
  by (simp add: find_or_def)

lemma find_or_Nil [simp]: "find_or d [] k = d"
  by (simp add: find_or_def)

lemma map_of_try_emplace [hash_simps]:
  "map_of (try_emplace k v m) k' =
     (if k' = k then Some (find_or v m k) else map_of m k')"
  by (auto simp: try_emplace_def find_or_def split: option.splits)

lemma unique_keys_Nil [simp, intro]: "unique_keys []"
  by (simp add: unique_keys_def)

lemma unique_keys_update [simp]: "unique_keys m \<Longrightarrow> unique_keys (AList.update k v m)"
  by (simp add: unique_keys_def AList.distinct_update)

lemma unique_keys_delete [simp]: "unique_keys m \<Longrightarrow> unique_keys (AList.delete k m)"
  by (simp add: unique_keys_def AList.distinct_delete)

lemma unique_keys_try_emplace [simp]: "unique_keys m \<Longrightarrow> unique_keys (try_emplace k v m)"
  by (simp add: try_emplace_def split: option.split)

lemma keys_update: "set (map fst (AList.update k v m)) = insert k (set (map fst m))"
  using AList.dom_update [of k v m] by auto

lemma map_of_eq_None_keys: "map_of m k = None \<longleftrightarrow> k \<notin> set (map fst m)"
  by (simp add: map_of_eq_None_iff)

lemma unique_keys_map_of: "unique_keys m \<Longrightarrow> (k, v) \<in> set m \<longleftrightarrow> map_of m k = Some v"
  by (simp add: unique_keys_def)

lemma map_fst_map_snd [simp]: "map fst (map (\<lambda>(k, v). (k, f k v)) m) = map fst m"
  by (induction m) auto

lemma map_of_map_entries: "map_of (map (\<lambda>(k, v). (k, f k v)) m) k = map_option (f k) (map_of m k)"
  by (induction m) auto

section \<open>Hash sets\<close>

definition emplace :: "'a \<Rightarrow> 'a list \<Rightarrow> 'a list \<times> bool" where
  "emplace x xs = (if x \<in> set xs then (xs, False) else (xs @ [x], True))"

lemma set_emplace [simp, hash_simps]: "set (fst (emplace x xs)) = insert x (set xs)"
  by (auto simp: emplace_def)

lemma snd_emplace [simp, hash_simps]: "snd (emplace x xs) \<longleftrightarrow> x \<notin> set xs"
  by (simp add: emplace_def)

lemma distinct_emplace [simp]: "distinct xs \<Longrightarrow> distinct (fst (emplace x xs))"
  by (simp add: emplace_def)

lemma emplace_member [simp]: "x \<in> set xs \<Longrightarrow> emplace x xs = (xs, False)"
  by (simp add: emplace_def)

fun emplace_all :: "'a list \<Rightarrow> 'a list \<Rightarrow> 'a list" where
  "emplace_all [] s = s"
| "emplace_all (x # xs) s = emplace_all xs (fst (emplace x s))"

lemma set_emplace_all [simp, hash_simps]: "set (emplace_all xs s) = set xs \<union> set s"
  by (induction xs arbitrary: s) auto

lemma distinct_emplace_all [simp]: "distinct s \<Longrightarrow> distinct (emplace_all xs s)"
  by (induction xs arbitrary: s) auto

section \<open>Runs of a step function\<close>

fun run :: "('e \<Rightarrow> 's \<Rightarrow> 's) \<Rightarrow> 'e list \<Rightarrow> 's \<Rightarrow> 's" where
  "run step [] s = s"
| "run step (e # es) s = run step es (step e s)"

lemma run_append [simp]: "run step (xs @ ys) s = run step ys (run step xs s)"
  by (induction xs arbitrary: s) auto

lemma run_invariant:
  assumes "\<And>e s. e \<in> set es \<Longrightarrow> I s \<Longrightarrow> I (step e s)" and "I s"
  shows "I (run step es s)"
  using assms by (induction es arbitrary: s) auto

end
