(* ===== verification/Doubles.thy ===== *)
theory Doubles
  imports Prelude "HOL-Library.Log_Nat"
begin

text \<open>
  The C++ type \<^verbatim>\<open>double\<close> (IEEE 754 binary64, round to nearest, ties to even). Every finite
  double is a whole multiple of the smallest subnormal $2^{-1074}$, so a finite value is kept as
  that multiple: \<open>Fin n\<close> is $n \cdot 2^{-1074}$, \<open>Fin 0\<close> is $+0.0$. Addition,
  multiplication, negation, comparison and \<open>std::max\<close> are computed on the multiples and are
  executable. The lemmas say when an addition is exact and how \<open>std::max\<close> treats NaN.
\<close>

named_theorems double_simps "evaluation of the operations on double"

datatype double = Fin int | NegZero | PosInf | NegInf | NaN

text \<open>1.0 is \<open>2 ^ one_exp\<close> units; values from \<open>2 ^ inf_exp\<close> units up are infinite.\<close>

definition one_exp :: nat where
  "one_exp = 1074"

definition inf_exp :: nat where
  "inf_exp = 2098"

definition isnan :: "double \<Rightarrow> bool" where
  "isnan x \<longleftrightarrow> x = NaN"

text \<open>
  \<open>rne n k\<close> is \<open>n\<close> divided by $2^k$, rounded to the nearest whole number, ties to even.
  \<open>rnd_shift s m\<close> rounds $m \cdot 2^{-s}$ to 53 significant bits, but never below one unit (the
  subnormal range keeps fewer bits).
\<close>

definition rne :: "int \<Rightarrow> nat \<Rightarrow> int" where
  "rne n k =
     (let q = n div 2 ^ k; r = n mod 2 ^ k
      in if 2 * r < 2 ^ k \<or> (2 * r = 2 ^ k \<and> even q) then q else q + 1)"

definition rnd_shift :: "nat \<Rightarrow> int \<Rightarrow> int" where
  "rnd_shift s m =
     (let k = max s (nat (bitlen \<bar>m\<bar> - 53)) in sgn m * rne \<bar>m\<bar> k * 2 ^ (k - s))"

definition mk_double :: "bool \<Rightarrow> int \<Rightarrow> double" where
  "mk_double neg n =
     (if n = 0 then (if neg then NegZero else Fin 0)
      else if 2 ^ inf_exp \<le> n then PosInf
      else if n \<le> - (2 ^ inf_exp) then NegInf
      else Fin n)"

fun is_finite :: "double \<Rightarrow> bool" where
  "is_finite (Fin n) = True"
| "is_finite NegZero = True"
| "is_finite _ = False"

fun units :: "double \<Rightarrow> int" where
  "units (Fin n) = n"
| "units _ = 0"

fun signbit :: "double \<Rightarrow> bool" where
  "signbit (Fin n) = (n < 0)"
| "signbit NegZero = True"
| "signbit PosInf = False"
| "signbit NegInf = True"
| "signbit NaN = False"

definition dadd :: "double \<Rightarrow> double \<Rightarrow> double" where
  "dadd x y =
     (if isnan x \<or> isnan y then NaN
      else if is_finite x \<and> is_finite y
        then mk_double (x = NegZero \<and> y = NegZero) (rnd_shift 0 (units x + units y))
      else if is_finite x then y
      else if is_finite y then x
      else if x = y then x else NaN)"

definition dmul :: "double \<Rightarrow> double \<Rightarrow> double" where
  "dmul x y =
     (if isnan x \<or> isnan y then NaN
      else let neg = (signbit x \<noteq> signbit y) in
        if is_finite x \<and> is_finite y then mk_double neg (rnd_shift one_exp (units x * units y))
        else if (is_finite x \<and> units x = 0) \<or> (is_finite y \<and> units y = 0) then NaN
        else if neg then NegInf else PosInf)"

fun dneg :: "double \<Rightarrow> double" where
  "dneg (Fin n) = (if n = 0 then NegZero else Fin (- n))"
| "dneg NegZero = Fin 0"
| "dneg PosInf = NegInf"
| "dneg NegInf = PosInf"
| "dneg NaN = NaN"

fun dless :: "double \<Rightarrow> double \<Rightarrow> bool" where
  "dless NaN _ = False"
| "dless _ NaN = False"
| "dless NegInf y = (y \<noteq> NegInf)"
| "dless x NegInf = False"
| "dless PosInf y = False"
| "dless x PosInf = True"
| "dless x y = (units x < units y)"

definition dmax :: "double \<Rightarrow> double \<Rightarrow> double" where
  "dmax a b = (if dless a b then b else a)"

definition double_of_int :: "int \<Rightarrow> double" where
  "double_of_int i = mk_double False (rnd_shift 0 (i * 2 ^ one_exp))"

abbreviation zero_double :: double where
  "zero_double \<equiv> Fin 0"

definition is_zero :: "double \<Rightarrow> bool" where
  "is_zero x \<longleftrightarrow> x = Fin 0 \<or> x = NegZero"

text \<open>Equality of values: the two zeros are the same number.\<close>

definition same_value :: "double \<Rightarrow> double \<Rightarrow> bool" where
  "same_value x y \<longleftrightarrow> x = y \<or> is_zero x \<and> is_zero y"

lemma same_value_refl [simp, intro]: "same_value x x"
  by (simp add: same_value_def)

lemma same_value_trans [trans]: "same_value x y \<Longrightarrow> same_value y z \<Longrightarrow> same_value x z"
  by (auto simp: same_value_def)

lemma same_valueD:
  assumes "same_value x y"
  shows "is_zero x = is_zero y" "dless x z = dless y z" "units x = units y"
    "is_finite x = is_finite y" "x = NaN \<longleftrightarrow> y = NaN"
  using assms by (cases z; auto simp: same_value_def is_zero_def)+

section \<open>Exactness of rounding\<close>

lemma rne_exact [simp]: "rne (c * 2 ^ k) k = c"
  by (simp add: rne_def)

lemma rne_bounds:
  assumes "0 \<le> n" "n < 2 ^ (b + k)"
  shows "0 \<le> rne n k" "rne n k \<le> 2 ^ b"
proof -
  have "n div 2 ^ k * 2 ^ k \<le> n"
    by (simp add: flip: minus_mod_eq_div_mult)
  also have "\<dots> < 2 ^ b * 2 ^ k"
    using assms by (simp add: power_add)
  finally have "n div 2 ^ k < 2 ^ b" by simp
  then show "0 \<le> rne n k" "rne n k \<le> 2 ^ b"
    using assms by (auto simp: rne_def Let_def pos_imp_zdiv_nonneg_iff)
qed

lemma rnd_shift_exact:
  assumes k: "k = max s (nat (bitlen \<bar>m\<bar> - 53))" and m: "m = c * 2 ^ k"
  shows "rnd_shift s m = c * 2 ^ (k - s)"
proof -
  have "\<bar>m\<bar> = \<bar>c\<bar> * 2 ^ k" and sg: "sgn m = sgn c"
    by (simp_all add: m abs_mult sgn_mult)
  then have "rne \<bar>m\<bar> k = \<bar>c\<bar>" by simp
  then show ?thesis
    unfolding rnd_shift_def Let_def k [symmetric] sg by (simp add: sgn_mult_abs)
qed

lemma bitlen_le_nat: "0 \<le> x \<Longrightarrow> x < 2 ^ w \<Longrightarrow> nat (bitlen x - 53) \<le> w - 53"
  using bitlen_le_iff_power [of x "int w"] by simp

lemma bitlen_exp: "bitlen (2 ^ n) = int n + 1"
  by (simp add: bitlen_alt_def)

text \<open>A multiple of $2^j$ by at most $2^{53}$ is representable: rounding leaves it alone.\<close>

lemma rnd_shift_grid:
  assumes "\<bar>n\<bar> \<le> 2 ^ 53"
  shows "rnd_shift s (n * 2 ^ (j + s)) = n * 2 ^ j"
proof -
  define m where "m = n * 2 ^ (j + s)"
  define k where "k = max s (nat (bitlen \<bar>m\<bar> - 53))"
  have abs: "\<bar>m\<bar> = \<bar>n\<bar> * 2 ^ (j + s)" by (simp add: m_def abs_mult)
  have "\<exists>c. m = c * 2 ^ k \<and> c * 2 ^ (k - s) = n * 2 ^ j"
  proof (cases "\<bar>n\<bar> = 2 ^ 53")
    case True
    then have "\<bar>m\<bar> = 2 ^ (53 + (j + s))" unfolding abs by (simp only: power_add)
    then have k: "k = j + s + 1" by (simp add: k_def bitlen_exp)
    have "n = 2 ^ 52 * 2 \<or> n = - (2 ^ 52 * 2)" using True by (auto simp: abs_if split: if_splits)
    then obtain h where n: "n = h * 2" by (metis mult_minus_left)
    show ?thesis
      unfolding k m_def n by (rule exI [of _ h]) (simp add: power_add)
  next
    case False
    with assms have "\<bar>n\<bar> < 2 ^ 53" by simp
    then have "\<bar>m\<bar> < 2 ^ (53 + (j + s))"
      unfolding abs power_add by (intro mult_strict_right_mono) simp_all
    then have "k \<le> j + s"
      using bitlen_le_nat [of "\<bar>m\<bar>" "53 + (j + s)"] by (simp add: k_def)
    then obtain d where d: "j + s = d + k" by (metis add.commute le_Suc_ex)
    moreover have "s \<le> k" by (simp add: k_def)
    ultimately have "j = d + (k - s)" by simp
    with d show ?thesis
      by (intro exI [of _ "n * 2 ^ d"]) (simp add: m_def mult.assoc flip: power_add)
  qed
  then show ?thesis using rnd_shift_exact [OF k_def] by (metis m_def)
qed

lemma rnd_shift_grid0: "\<bar>n\<bar> \<le> 2 ^ 53 \<Longrightarrow> rnd_shift 0 (n * 2 ^ j) = n * 2 ^ j"
  using rnd_shift_grid [of n 0 j] by simp

lemma abs_sgn_mult_le: "0 \<le> r \<Longrightarrow> r \<le> b \<Longrightarrow> \<bar>sgn m * r\<bar> \<le> b" for r b m :: int
  by (simp add: abs_mult sgn_if)

text \<open>Rounding is idempotent: its result has at most 53 significant bits.\<close>

lemma rnd_shift_form:
  "\<exists>n j. rnd_shift s m = n * 2 ^ j \<and> \<bar>n\<bar> \<le> 2 ^ 53"
proof -
  let ?k = "max s (nat (bitlen \<bar>m\<bar> - 53))"
  have "bitlen \<bar>m\<bar> \<le> int (53 + ?k)" by linarith
  then have "\<bar>m\<bar> < 2 ^ (53 + ?k)" by (simp only: bitlen_le_iff_power nat_int)
  then have "0 \<le> rne \<bar>m\<bar> ?k" "rne \<bar>m\<bar> ?k \<le> 2 ^ 53"
    using rne_bounds [of "\<bar>m\<bar>" 53 ?k] by simp_all
  then have "\<bar>sgn m * rne \<bar>m\<bar> ?k\<bar> \<le> 2 ^ 53" by (rule abs_sgn_mult_le)
  then show ?thesis unfolding rnd_shift_def Let_def by blast
qed

lemma rnd_shift_idem [simp]: "rnd_shift 0 (rnd_shift s m) = rnd_shift s m"
  using rnd_shift_form [of s m] rnd_shift_grid0 by metis

section \<open>The type invariant\<close>

text \<open>The values a double can hold: finite values are rounded and below the overflow threshold.\<close>

fun wf_double :: "double \<Rightarrow> bool" where
  "wf_double (Fin n) = (rnd_shift 0 n = n \<and> \<bar>n\<bar> < 2 ^ inf_exp)"
| "wf_double _ = True"

lemma rnd_shift_zero [simp]: "rnd_shift s 0 = 0"
  by (simp add: rnd_shift_def)

lemma wf_mk_double [intro, simp]: "rnd_shift 0 n = n \<Longrightarrow> wf_double (mk_double neg n)"
  by (auto simp: mk_double_def abs_if)

lemma wf_dadd [intro]: "wf_double x \<Longrightarrow> wf_double y \<Longrightarrow> wf_double (dadd x y)"
  by (simp add: dadd_def)

lemma wf_dmul [intro]: "wf_double (dmul x y)"
  by (simp add: dmul_def Let_def)

lemma wf_double_of_int [intro]: "wf_double (double_of_int i)"
  by (simp add: double_of_int_def)

lemma rnd_shift_minus [simp]: "rnd_shift s (- m) = - rnd_shift s m"
  by (simp add: rnd_shift_def Let_def)

lemma wf_dneg [intro]: "wf_double x \<Longrightarrow> wf_double (dneg x)"
  by (cases x) auto

lemma wf_dmax [intro]: "wf_double x \<Longrightarrow> wf_double y \<Longrightarrow> wf_double (dmax x y)"
  by (simp add: dmax_def)

section \<open>Comparison, maximum and NaN\<close>

lemma dadd_NaN [simp, double_simps]: "dadd NaN y = NaN" "dadd x NaN = NaN"
  by (simp_all add: dadd_def isnan_def)

lemma dmax_NaN [simp, double_simps]: "dmax NaN y = NaN"
  by (simp add: dmax_def)

lemma dmax_zero_cases:
  "dmax q zero_double = (if dless q zero_double then zero_double else q)"
  by (simp add: dmax_def)

lemma dneg_pos_iff [simp]: "dless (dneg q) zero_double \<longleftrightarrow> dless zero_double q"
  by (cases q) auto

lemma dless_asym: "dless x y \<Longrightarrow> \<not> dless y x"
  by (induction x y rule: dless.induct) auto

text \<open>A value and its negation, both cut at zero from below: at most one of the two is left.\<close>

lemma cut_one_zero:
  "q \<noteq> NaN \<Longrightarrow> is_zero (dmax q zero_double) \<or> is_zero (dmax (dneg q) zero_double)"
  by (cases q) (auto simp: dmax_def is_zero_def)

lemma cut_nonneg: "q \<noteq> NaN \<Longrightarrow> \<not> dless (dmax q zero_double) zero_double"
  by (cases q) (auto simp: dmax_def)

lemma dneg_eq_NaN_iff [simp]: "dneg q = NaN \<longleftrightarrow> q = NaN"
  by (cases q) auto

section \<open>Exact sums on a dyadic grid\<close>

text \<open>
  \<open>grid j n\<close> is the double $n \cdot 2^{j - 1074}$. With \<open>j = 1074\<close> the grid is the whole
  numbers. While the count stays within $2^{53}$ grid steps, sums and signed sums are exact.
\<close>

definition grid :: "nat \<Rightarrow> int \<Rightarrow> double" where
  "grid j n = Fin (n * 2 ^ j)"

lemma grid_bound:
  fixes n :: int
  assumes "\<bar>n\<bar> \<le> 2 ^ 53" "j \<le> 2044"
  shows "\<bar>n * 2 ^ j\<bar> < 2 ^ inf_exp"
proof -
  have "\<bar>n * 2 ^ j\<bar> = \<bar>n\<bar> * 2 ^ j" by (simp add: abs_mult)
  also have "\<dots> \<le> 2 ^ 53 * 2 ^ j" using assms(1) by (intro mult_right_mono) simp_all
  also have "\<dots> = 2 ^ (53 + j)" by (simp only: power_add)
  also have "\<dots> < (2::int) ^ inf_exp" using assms(2) by (intro power_strict_increasing) (simp_all add: inf_exp_def)
  finally show ?thesis .
qed

lemma mk_double_grid:
  assumes "\<bar>n\<bar> \<le> 2 ^ 53" "j \<le> 2044" "n = 0 \<Longrightarrow> \<not> neg"
  shows "mk_double neg (n * 2 ^ j) = grid j n"
  using grid_bound [OF assms(1,2)] assms(3)
  by (auto simp: mk_double_def grid_def abs_if split: if_splits)

lemma wf_grid: "\<bar>n\<bar> \<le> 2 ^ 53 \<Longrightarrow> j \<le> 2044 \<Longrightarrow> wf_double (grid j n)"
  using grid_bound [of n j] rnd_shift_grid0 [of n j] by (simp add: grid_def)

lemma units_grid [simp]: "units (grid j n) = n * 2 ^ j" "is_finite (grid j n)"
  "grid j n \<noteq> NegZero" "grid j n \<noteq> NaN"
  by (simp_all add: grid_def)

lemma dadd_finite:
  "is_finite x \<Longrightarrow> is_finite y \<Longrightarrow>
     dadd x y = mk_double (x = NegZero \<and> y = NegZero) (rnd_shift 0 (units x + units y))"
  by (auto simp: dadd_def isnan_def)

lemma dadd_grid:
  assumes "is_finite y" "units y = b * 2 ^ j" "\<bar>a + b\<bar> \<le> 2 ^ 53" "j \<le> 2044"
  shows "dadd (grid j a) y = grid j (a + b)"
  using assms
  by (simp add: dadd_finite rnd_shift_grid0 mk_double_grid flip: distrib_right)

text \<open>Multiplying by a side's sign: exact, and on zero only the sign of the zero changes.\<close>

lemma one_exp_le: "one_exp \<le> 2044"
  by (simp add: one_exp_def)

lemma double_of_int_unit: "\<bar>s\<bar> \<le> 2 ^ 53 \<Longrightarrow> double_of_int s = grid one_exp s"
  by (simp add: double_of_int_def rnd_shift_grid0 mk_double_grid one_exp_le)

lemma dmul_unit_grid:
  assumes "s = 1 \<or> s = - 1" "\<bar>n\<bar> \<le> 2 ^ 53" "j \<le> 2044"
  shows "is_finite (dmul (double_of_int s) (grid j n))"
    and "units (dmul (double_of_int s) (grid j n)) = (s * n) * 2 ^ j"
proof -
  have "double_of_int s = grid one_exp s" using assms(1) by (auto intro!: double_of_int_unit)
  moreover have mul: "s * 2 ^ one_exp * (n * 2 ^ j) = s * n * 2 ^ (j + one_exp)"
    by (simp add: power_add mult_ac)
  moreover have sn: "\<bar>s * n\<bar> \<le> 2 ^ 53" using assms(1,2) by auto
  ultimately have eq: "dmul (double_of_int s) (grid j n) =
      mk_double (signbit (grid one_exp s) \<noteq> signbit (grid j n)) (s * n * 2 ^ j)"
    by (simp only: dmul_def isnan_def Let_def units_grid mul rnd_shift_grid [OF sn] if_True if_False
        simp_thms)
  show "is_finite (dmul (double_of_int s) (grid j n))"
    and "units (dmul (double_of_int s) (grid j n)) = (s * n) * 2 ^ j"
    using grid_bound [OF sn assms(3)]
    by (auto simp: eq mk_double_def abs_if split: if_splits)
qed

lemma signed_sum_grid:
  assumes "s = 1 \<or> s = - 1" "\<bar>n\<bar> \<le> 2 ^ 53" "\<bar>a + s * n\<bar> \<le> 2 ^ 53" "j \<le> 2044"
  shows "dadd (grid j a) (dmul (double_of_int s) (grid j n)) = grid j (a + s * n)"
  using dadd_grid [OF dmul_unit_grid [OF assms(1,2,4)] assms(3,4)] .

lemma cut_grid: "dmax (grid j n) zero_double = grid j (max n 0)"
  by (auto simp: dmax_def grid_def max_def mult_less_0_iff)

lemma cut_grid_neg: "same_value (dmax (dneg (grid j n)) zero_double) (grid j (max (- n) 0))"
proof (cases "n = 0")
  case True
  then show ?thesis by (simp add: dmax_def grid_def same_value_def is_zero_def)
next
  case False
  then have "dneg (grid j n) = grid j (- n)" by (simp add: grid_def)
  then show ?thesis using cut_grid [of j "- n"] by simp
qed

end
