(* ===== verification/Messages.thy ===== *)
theory Messages
  imports Doubles
begin

text \<open>
  The values that travel between the components. The first group are the gateway messages of the
  roq API: records with the fields this program reads. The second group are the program's own
  database records (\<^verbatim>\<open>src/src/roq/risk_manager/database/*.hpp\<close>). Times are nanoseconds since the
  epoch. The functions of the roq API that the program calls are collected in \<open>roq_api\<close>: they
  are not part of this repository, so every definition that needs them takes them as an argument.
\<close>

section \<open>Gateway messages\<close>

datatype side = UNDEFINED | BUY | SELL

type_synonym uuid = "128 word"
type_synonym nanoseconds = int

record message_info =
  mi_source :: u8
  mi_source_session_id :: uuid
  mi_source_seqno :: u64

record fill =
  fill_external_trade_id :: string
  fill_quantity :: double
  fill_price :: double

record trade_update =
  tu_user :: string
  tu_strategy_id :: u32
  tu_account :: string
  tu_exchange :: string
  tu_symbol :: string
  tu_side :: side
  tu_create_time_utc :: nanoseconds
  tu_external_account :: string
  tu_external_order_id :: string
  tu_fills :: "fill list"

record reference_data =
  rd_exchange :: string
  rd_symbol :: string
  rd_min_trade_vol :: double

record position_update =
  pu_account :: string
  pu_exchange :: string
  pu_symbol :: string
  pu_long_quantity :: double
  pu_short_quantity :: double

record funds_update =
  fu_account :: string
  fu_currency :: string
  fu_balance :: double
  fu_hold :: double
  fu_exchange_time_utc :: nanoseconds
  fu_external_account :: string

text \<open>What the program sends back to a gateway.\<close>

record risk_limit =
  rl_exchange :: string
  rl_symbol :: string
  rl_long_position :: double
  rl_short_position :: double
  rl_long_position_limit :: double
  rl_short_position_limit :: double
  rl_long_risk_exposure_limit :: double
  rl_short_risk_exposure_limit :: double
  rl_allow_netting :: bool

record risk_limits =
  rls_user :: string
  rls_strategy_id :: u32
  rls_account :: string
  rls_limits :: "risk_limit list"
  rls_session_id :: uuid
  rls_seqno :: u64

section \<open>Functions of the roq API\<close>

text \<open>
  \<open>api_sign\<close> is \<^verbatim>\<open>utils::sign\<close>, \<open>api_increment_to_decimals\<close> is
  \<^verbatim>\<open>client::Number::increment_to_decimals\<close>, \<open>api_default_decimals\<close> the value of a default
  initialised \<^verbatim>\<open>Decimals\<close>, \<open>api_to_internal\<close> is \<^verbatim>\<open>client::Quantity::to_internal\<close> and
  \<open>api_format_side\<close> the text that formatting a \<^verbatim>\<open>Side\<close> produces.
\<close>

record roq_api =
  api_sign :: "side \<Rightarrow> int"
  api_increment_to_decimals :: "double \<Rightarrow> int"
  api_default_decimals :: int
  api_to_internal :: "double \<Rightarrow> double \<Rightarrow> int \<Rightarrow> int"
  api_format_side :: "side \<Rightarrow> string"

text \<open>The documented behaviour of \<^verbatim>\<open>utils::sign\<close>: +1 for a buy and -1 for a sell.\<close>

definition sign_law :: "roq_api \<Rightarrow> bool" where
  "sign_law api \<longleftrightarrow> api_sign api BUY = 1 \<and> api_sign api SELL = - 1"

text \<open>
  The names of the enumerators (\<^verbatim>\<open>magic_enum::enum_name\<close>) and the cast from a name back to the
  value (\<^verbatim>\<open>magic_enum::enum_cast\<close>); a \<^verbatim>\<open>Side\<close> is documented to be formatted by its name.
\<close>

fun side_name :: "side \<Rightarrow> string" where
  "side_name UNDEFINED = ''UNDEFINED''"
| "side_name BUY = ''BUY''"
| "side_name SELL = ''SELL''"

definition side_cast :: "string \<Rightarrow> side option" where
  "side_cast s =
     (if s = ''UNDEFINED'' then Some UNDEFINED
      else if s = ''BUY'' then Some BUY
      else if s = ''SELL'' then Some SELL
      else None)"

lemma side_cast_name [simp]: "side_cast (side_name s) = Some s"
  by (cases s) (simp_all add: side_cast_def)

definition format_side_law :: "roq_api \<Rightarrow> bool" where
  "format_side_law api \<longleftrightarrow> (\<forall>s. api_format_side api s = side_name s)"

section \<open>Database records\<close>

record db_account =
  dba_name :: string
  dba_exchange_time_utc_min :: nanoseconds
  dba_exchange_time_utc_max :: nanoseconds
  dba_trade_count :: u64

record db_position =
  dbp_user :: string
  dbp_strategy_id :: u32
  dbp_account :: string
  dbp_exchange :: string
  dbp_symbol :: string
  dbp_long_quantity :: double
  dbp_short_quantity :: double
  dbp_exchange_time_utc :: nanoseconds

record db_trade =
  dbt_user :: string
  dbt_strategy_id :: u32
  dbt_account :: string
  dbt_exchange :: string
  dbt_symbol :: string
  dbt_side :: side
  dbt_quantity :: double
  dbt_price :: double
  dbt_exchange_time_utc :: nanoseconds
  dbt_external_account :: string
  dbt_external_order_id :: string
  dbt_external_trade_id :: string

record db_correction =
  dbc_user :: string
  dbc_strategy_id :: u32
  dbc_account :: string
  dbc_exchange :: string
  dbc_symbol :: string
  dbc_side :: side
  dbc_quantity :: double
  dbc_price :: double
  dbc_exchange_time_utc :: nanoseconds
  dbc_reason :: string

record db_funds =
  dbf_account :: string
  dbf_currency :: string
  dbf_balance :: double
  dbf_hold :: double
  dbf_exchange_time_utc :: nanoseconds
  dbf_external_account :: string

record db_compress =
  dbx_exchange_time_utc :: nanoseconds

datatype db_type = EXCHANGE | MANUAL | POSITION

end
