(* ===== verification/Risk.thy ===== *)
theory Risk
  imports Messages
begin

text \<open>
  The risk data of one instrument in one group (\<^verbatim>\<open>risk/limit.hpp\<close>, \<^verbatim>\<open>risk/instrument.*\<close>,
  \<^verbatim>\<open>risk/position.*\<close>): the configured limits, the instrument and the position. The lemmas show
  that a fill is counted once, that the published long and short position are the two halves of one
  net quantity, that the net quantity is exact on a dyadic grid, and what NaN and a position loaded
  from the database do to it.
\<close>

section \<open>Limit\<close>

record limit =
  lim_long_position_limit :: double
  lim_short_position_limit :: double
  lim_long_risk_exposure_limit :: double
  lim_short_risk_exposure_limit :: double
  lim_allow_netting :: bool

definition default_limit :: limit where
  "default_limit =
     \<lparr>lim_long_position_limit = NaN, lim_short_position_limit = NaN,
      lim_long_risk_exposure_limit = NaN, lim_short_risk_exposure_limit = NaN,
      lim_allow_netting = False\<rparr>"

text \<open>Limits whose numbers are values of the type \<^verbatim>\<open>double\<close>.\<close>

definition typed_limit :: "limit \<Rightarrow> bool" where
  "typed_limit l \<longleftrightarrow>
     wf_double (lim_long_position_limit l) \<and> wf_double (lim_short_position_limit l) \<and>
     wf_double (lim_long_risk_exposure_limit l) \<and> wf_double (lim_short_risk_exposure_limit l)"

lemma typed_default_limit [simp]: "typed_limit default_limit"
  by (simp add: typed_limit_def default_limit_def)

section \<open>Instrument\<close>

record instrument =
  ins_id :: instrument_id
  ins_exchange :: string
  ins_symbol :: string
  ins_min_trade_vol :: double
  ins_quantity_decimals :: int

definition instrument_new :: "roq_api \<Rightarrow> instrument_id \<Rightarrow> string \<Rightarrow> string \<Rightarrow> instrument" where
  "instrument_new api instrument_id exchange symbol =
     \<lparr>ins_id = instrument_id, ins_exchange = exchange, ins_symbol = symbol,
      ins_min_trade_vol = NaN, ins_quantity_decimals = api_default_decimals api\<rparr>"

definition instrument_reference_data ::
    "roq_api \<Rightarrow> reference_data \<Rightarrow> instrument \<Rightarrow> bool \<times> instrument" where
  "instrument_reference_data api reference_data ins =
     (if isnan (rd_min_trade_vol reference_data) then (False, ins)
      else (True, ins\<lparr>ins_min_trade_vol := rd_min_trade_vol reference_data,
                      ins_quantity_decimals :=
                        api_increment_to_decimals api (rd_min_trade_vol reference_data)\<rparr>))"

definition quantity_to_internal :: "roq_api \<Rightarrow> instrument \<Rightarrow> double \<Rightarrow> u64" where
  "quantity_to_internal api ins quantity =
     word_of_int (api_to_internal api quantity (ins_min_trade_vol ins) (ins_quantity_decimals ins))"

lemma instrument_reference_data_frame [simp]:
  "ins_id (snd (instrument_reference_data api rd ins)) = ins_id ins"
  "ins_exchange (snd (instrument_reference_data api rd ins)) = ins_exchange ins"
  "ins_symbol (snd (instrument_reference_data api rd ins)) = ins_symbol ins"
  by (simp_all add: instrument_reference_data_def)

section \<open>Position\<close>

record position =
  pos_allow_netting :: bool
  pos_long_position_limit :: double
  pos_short_position_limit :: double
  pos_long_risk_exposure_limit :: double
  pos_short_risk_exposure_limit :: double
  pos_fills :: "string list"
  pos_quantity :: double
  pos_long_position :: double
  pos_short_position :: double
  pos_current :: u64

definition position_new :: "limit \<Rightarrow> position" where
  "position_new limit =
     \<lparr>pos_allow_netting = lim_allow_netting limit,
      pos_long_position_limit = lim_long_position_limit limit,
      pos_short_position_limit = lim_short_position_limit limit,
      pos_long_risk_exposure_limit = lim_long_risk_exposure_limit limit,
      pos_short_risk_exposure_limit = lim_short_risk_exposure_limit limit,
      pos_fills = [], pos_quantity = zero_double,
      pos_long_position = zero_double, pos_short_position = zero_double,
      pos_current = 0\<rparr>"

definition position_load :: "db_position \<Rightarrow> instrument \<Rightarrow> position \<Rightarrow> position" where
  "position_load row ins p =
     p\<lparr>pos_long_position := dbp_long_quantity row, pos_short_position := dbp_short_quantity row\<rparr>"

definition position_reference_data :: "reference_data \<Rightarrow> instrument \<Rightarrow> position \<Rightarrow> position" where
  "position_reference_data reference_data ins p = p"

text \<open>
  The loop over the fills of a trade update. \<open>pos_current\<close> is a signed 64-bit counter; the
  product and the sum are taken modulo $2^{64}$.
\<close>

definition position_fill :: "roq_api \<Rightarrow> int \<Rightarrow> instrument \<Rightarrow> fill \<Rightarrow> position \<Rightarrow> position" where
  "position_fill api sign ins item p =
     (let res = emplace (fill_external_trade_id item) (pos_fills p) in
      if \<not> snd res then p
      else
        let quantity = dadd (pos_quantity p) (dmul (double_of_int sign) (fill_quantity item)) in
        p\<lparr>pos_fills := fst res,
          pos_quantity := quantity,
          pos_long_position := dmax quantity zero_double,
          pos_short_position := dmax (dneg quantity) zero_double,
          pos_current :=
            pos_current p + word_of_int sign * quantity_to_internal api ins (fill_quantity item)\<rparr>)"

fun position_fills_loop ::
    "roq_api \<Rightarrow> int \<Rightarrow> instrument \<Rightarrow> fill list \<Rightarrow> position \<Rightarrow> position" where
  "position_fills_loop api sign ins [] p = p"
| "position_fills_loop api sign ins (item # items) p =
     position_fills_loop api sign ins items (position_fill api sign ins item p)"

definition position_trade_update ::
    "roq_api \<Rightarrow> trade_update \<Rightarrow> instrument \<Rightarrow> position \<Rightarrow> position" where
  "position_trade_update api trade_update ins p =
     position_fills_loop api (api_sign api (tu_side trade_update)) ins (tu_fills trade_update) p"

text \<open>The accessors that the controller publishes.\<close>

definition long_position_limit :: "position \<Rightarrow> double" where
  "long_position_limit p = pos_long_position_limit p"

definition short_position_limit :: "position \<Rightarrow> double" where
  "short_position_limit p = pos_short_position_limit p"

definition long_risk_exposure_limit :: "position \<Rightarrow> double" where
  "long_risk_exposure_limit p = pos_long_risk_exposure_limit p"

definition short_risk_exposure_limit :: "position \<Rightarrow> double" where
  "short_risk_exposure_limit p = pos_short_risk_exposure_limit p"

text \<open>The constant part of a position: its limits.\<close>

definition position_limit :: "position \<Rightarrow> limit" where
  "position_limit p =
     \<lparr>lim_long_position_limit = long_position_limit p,
      lim_short_position_limit = short_position_limit p,
      lim_long_risk_exposure_limit = long_risk_exposure_limit p,
      lim_short_risk_exposure_limit = short_risk_exposure_limit p,
      lim_allow_netting = pos_allow_netting p\<rparr>"

lemmas position_limit_defs =
  position_limit_def long_position_limit_def short_position_limit_def
  long_risk_exposure_limit_def short_risk_exposure_limit_def

lemma position_limit_new [simp]: "position_limit (position_new l) = l"
  by (simp add: position_limit_defs position_new_def)

lemma position_limit_load [simp]: "position_limit (position_load row ins p) = position_limit p"
  by (simp add: position_limit_defs position_load_def)

lemma position_limit_reference_data [simp]:
  "position_limit (position_reference_data rd ins p) = position_limit p"
  by (simp add: position_reference_data_def)

lemma position_limit_fill [simp]:
  "position_limit (position_fill api sign ins item p) = position_limit p"
  by (simp add: position_limit_defs position_fill_def Let_def)

lemma position_limit_fills_loop [simp]:
  "position_limit (position_fills_loop api sign ins items p) = position_limit p"
  by (induction items arbitrary: p) auto

lemma position_limit_trade_update [simp]:
  "position_limit (position_trade_update api tu ins p) = position_limit p"
  by (simp add: position_trade_update_def)

section \<open>Sample values for the witnesses\<close>

definition sample_api :: roq_api where
  "sample_api =
     \<lparr>api_sign = (\<lambda>s. case s of BUY \<Rightarrow> 1 | SELL \<Rightarrow> - 1 | UNDEFINED \<Rightarrow> 0),
      api_increment_to_decimals = (\<lambda>_. 0), api_default_decimals = 0,
      api_to_internal = (\<lambda>q _ _. units q div 2 ^ one_exp), api_format_side = side_name\<rparr>"

definition sample_fill :: "string \<Rightarrow> int \<Rightarrow> fill" where
  "sample_fill x n =
     \<lparr>fill_external_trade_id = x, fill_quantity = grid one_exp n, fill_price = grid one_exp 100\<rparr>"

definition sample_trade :: "side \<Rightarrow> string \<Rightarrow> int \<Rightarrow> nanoseconds \<Rightarrow> trade_update" where
  "sample_trade s x n time =
     \<lparr>tu_user = ''trader'', tu_strategy_id = 0, tu_account = ''A1'', tu_exchange = ''deribit'',
      tu_symbol = ''BTC-PERPETUAL'', tu_side = s, tu_create_time_utc = time,
      tu_external_account = [], tu_external_order_id = ''o1'', tu_fills = [sample_fill x n]\<rparr>"

definition sample_instrument :: instrument where
  "sample_instrument = instrument_new sample_api 1 ''deribit'' ''BTC-PERPETUAL''"

lemma sign_law_sample_api [simp]: "sign_law sample_api"
  by (simp add: sign_law_def sample_api_def)

lemma format_side_law_sample_api [simp]: "format_side_law sample_api"
  by (simp add: format_side_law_def sample_api_def)

lemma sample_trade_net:
  assumes "s = BUY \<or> s = SELL" "\<bar>n\<bar> \<le> 2 ^ 53"
  shows "pos_quantity (position_trade_update sample_api (sample_trade s x n time) ins (position_new l)) =
    grid one_exp (case s of BUY \<Rightarrow> n | _ \<Rightarrow> - n)"
  using assms signed_sum_grid [of 1 n 0 one_exp] signed_sum_grid [of "- 1" n 0 one_exp] one_exp_le
  by (auto simp: position_trade_update_def sample_trade_def sample_fill_def sample_api_def
      position_fill_def position_new_def grid_def Let_def)

section \<open>Every fill counts once\<close>

abbreviation fill_ids :: "fill list \<Rightarrow> string set" where
  "fill_ids items \<equiv> fill_external_trade_id ` set items"

lemma position_fill_known [simp]:
  "fill_external_trade_id item \<in> set (pos_fills p) \<Longrightarrow> position_fill api sign ins item p = p"
  by (simp add: position_fill_def)

lemma set_pos_fills_fill [simp]:
  "set (pos_fills (position_fill api sign ins item p)) =
     insert (fill_external_trade_id item) (set (pos_fills p))"
  by (auto simp: position_fill_def Let_def)

lemma set_pos_fills_loop [simp]:
  "set (pos_fills (position_fills_loop api sign ins items p)) = fill_ids items \<union> set (pos_fills p)"
  by (induction items arbitrary: p) auto

lemma position_fills_loop_known:
  "fill_ids items \<subseteq> set (pos_fills p) \<Longrightarrow> position_fills_loop api sign ins items p = p"
  by (induction items arbitrary: p) auto

text \<open>
  Applying a trade update a second time (a replayed or downloaded update) changes nothing: every
  fill is counted at most once.
\<close>

lemma position_trade_update_idempotent:
  "position_trade_update api tu ins (position_trade_update api tu ins p) =
     position_trade_update api tu ins p"
  by (simp add: position_trade_update_def position_fills_loop_known)

section \<open>Long and short are the two halves of the net quantity\<close>

definition netted :: "position \<Rightarrow> bool" where
  "netted p \<longleftrightarrow>
     same_value (pos_long_position p) (dmax (pos_quantity p) zero_double) \<and>
     same_value (pos_short_position p) (dmax (dneg (pos_quantity p)) zero_double)"

lemma netted_fill: "netted p \<Longrightarrow> netted (position_fill api sign ins item p)"
  by (simp add: netted_def position_fill_def Let_def)

lemma netted_fill_fresh:
  "fill_external_trade_id item \<notin> set (pos_fills p) \<Longrightarrow> netted (position_fill api sign ins item p)"
  by (simp add: netted_def position_fill_def Let_def)

lemma netted_fills_loop: "netted p \<Longrightarrow> netted (position_fills_loop api sign ins items p)"
  by (induction items arbitrary: p) (auto intro: netted_fill)

lemma netted_fills_loop_fresh:
  "\<not> fill_ids items \<subseteq> set (pos_fills p) \<Longrightarrow> netted (position_fills_loop api sign ins items p)"
proof (induction items arbitrary: p)
  case (Cons item items)
  show ?case
  proof (cases "fill_external_trade_id item \<in> set (pos_fills p)")
    case True
    with Cons show ?thesis by auto
  next
    case False
    then show ?thesis by (simp add: netted_fills_loop netted_fill_fresh)
  qed
qed simp

text \<open>
  C25: A trade update that brings at least one new fill leaves the position netted, whatever it was
  before: unless the net quantity is NaN, neither the long nor the short position is negative and at
  most one of them differs from zero.
\<close>

theorem position_trade_update_netted:
  assumes "\<not> fill_ids (tu_fills tu) \<subseteq> set (pos_fills p)"
    and "q = position_trade_update api tu ins p"
    and "pos_quantity q \<noteq> NaN"
  shows "(is_zero (pos_long_position q) \<or> is_zero (pos_short_position q)) \<and>
    \<not> dless (pos_long_position q) zero_double \<and> \<not> dless (pos_short_position q) zero_double"
proof -
  have "netted q"
    using netted_fills_loop_fresh [OF assms(1)] by (simp add: assms(2) position_trade_update_def)
  then show ?thesis
    using assms(3) cut_one_zero [of "pos_quantity q"]
      cut_nonneg [of "pos_quantity q"] cut_nonneg [of "dneg (pos_quantity q)"]
    by (auto simp: netted_def dest: same_valueD)
qed

theorem position_trade_update_netted_witness:
  "(is_zero (pos_long_position (position_trade_update sample_api (sample_trade SELL ''t1'' 3 10)
       sample_instrument (position_new default_limit))) \<or>
    is_zero (pos_short_position (position_trade_update sample_api (sample_trade SELL ''t1'' 3 10)
       sample_instrument (position_new default_limit)))) \<and>
   \<not> dless (pos_short_position (position_trade_update sample_api (sample_trade SELL ''t1'' 3 10)
       sample_instrument (position_new default_limit))) zero_double"
proof -
  have 1: "\<not> fill_ids (tu_fills (sample_trade SELL ''t1'' 3 10)) \<subseteq>
      set (pos_fills (position_new default_limit))"
    by (simp add: sample_trade_def position_new_def)
  have 2: "pos_quantity (position_trade_update sample_api (sample_trade SELL ''t1'' 3 10)
      sample_instrument (position_new default_limit)) \<noteq> NaN"
    by (simp add: sample_trade_net)
  show ?thesis using position_trade_update_netted [OF 1 refl 2] by blast
qed

section \<open>The net quantity is the sum of the distinct fills\<close>

text \<open>
  The abstract ledger: a list of trade ids with signed sizes in grid steps, of which the first
  occurrence of each id counts. \<open>seen\<close> are the ids counted before.
\<close>

fun count_once :: "string list \<Rightarrow> (string \<times> int) list \<Rightarrow> int" where
  "count_once seen [] = 0"
| "count_once seen ((x, n) # rest) =
     (if x \<in> set seen then count_once seen rest else n + count_once (x # seen) rest)"

fun gross :: "(string \<times> int) list \<Rightarrow> int" where
  "gross [] = 0"
| "gross ((x, n) # rest) = \<bar>n\<bar> + gross rest"

fun side_sign :: "side \<Rightarrow> int" where
  "side_sign BUY = 1"
| "side_sign SELL = - 1"
| "side_sign UNDEFINED = 0"

definition signed_lots :: "(fill \<Rightarrow> int) \<Rightarrow> int \<Rightarrow> fill list \<Rightarrow> (string \<times> int) list" where
  "signed_lots lots sign items = map (\<lambda>f. (fill_external_trade_id f, sign * lots f)) items"

definition ledger :: "(fill \<Rightarrow> int) \<Rightarrow> trade_update list \<Rightarrow> (string \<times> int) list" where
  "ledger lots tus = concat (map (\<lambda>tu. signed_lots lots (side_sign (tu_side tu)) (tu_fills tu)) tus)"

lemma count_once_cong: "set xs = set ys \<Longrightarrow> count_once xs fs = count_once ys fs"
  by (induction xs fs arbitrary: ys rule: count_once.induct) auto

lemma gross_nonneg: "0 \<le> gross fs"
  by (induction fs rule: gross.induct) auto

lemma gross_append [simp]: "gross (xs @ ys) = gross xs + gross ys"
  by (induction xs rule: gross.induct) auto

lemma count_once_bound: "\<bar>count_once seen fs\<bar> \<le> gross fs"
  by (induction seen fs rule: count_once.induct) auto

lemma count_once_append:
  "count_once seen (xs @ ys) = count_once seen xs + count_once (map fst xs @ seen) ys"
proof (induction seen xs rule: count_once.induct)
  case (2 seen x n rest)
  then show ?case
    using count_once_cong [of "map fst rest @ seen" "x # map fst rest @ seen" ys]
      count_once_cong [of "map fst rest @ x # seen" "x # map fst rest @ seen" ys]
    by auto
qed simp

text \<open>The relation between a position and the ledger's state.\<close>

definition on_ledger :: "nat \<Rightarrow> position \<Rightarrow> string list \<Rightarrow> int \<Rightarrow> bool" where
  "on_ledger j p seen net \<longleftrightarrow>
     set (pos_fills p) = set seen \<and> pos_quantity p = grid j net \<and> netted p"

lemma on_ledger_new: "on_ledger j (position_new l) [] 0"
  by (simp add: on_ledger_def position_new_def netted_def grid_def dmax_def same_value_def is_zero_def)

lemma on_ledger_fill:
  assumes "on_ledger j p seen net" "sign = 1 \<or> sign = - 1"
    and "fill_quantity item = grid j n" "\<bar>net\<bar> + \<bar>n\<bar> \<le> 2 ^ 53" "j \<le> 2044"
  shows "on_ledger j (position_fill api sign ins item p)
    (fill_external_trade_id item # seen)
    (if fill_external_trade_id item \<in> set seen then net else net + sign * n)"
proof (cases "fill_external_trade_id item \<in> set seen")
  case True
  with assms(1) show ?thesis by (auto simp: on_ledger_def)
next
  case False
  with assms(1) have fresh: "fill_external_trade_id item \<notin> set (pos_fills p)"
    by (simp add: on_ledger_def)
  have "\<bar>net + sign * n\<bar> \<le> 2 ^ 53" "\<bar>n\<bar> \<le> 2 ^ 53" using assms(2,4) by auto
  with assms(1-3,5) fresh have "pos_quantity (position_fill api sign ins item p) = grid j (net + sign * n)"
    by (simp add: position_fill_def Let_def on_ledger_def signed_sum_grid)
  with assms(1) False show ?thesis
    by (simp add: on_ledger_def netted_fill)
qed

lemma on_ledger_fills_loop:
  assumes "on_ledger j p seen net" "sign = 1 \<or> sign = - 1" "j \<le> 2044"
    and "\<forall>item \<in> set items. fill_quantity item = grid j (lots item)"
    and "\<bar>net\<bar> + gross (signed_lots lots sign items) \<le> 2 ^ 53"
  shows "on_ledger j (position_fills_loop api sign ins items p)
    (map fst (signed_lots lots sign items) @ seen)
    (net + count_once seen (signed_lots lots sign items))"
  using assms(1,4,5)
proof (induction items arbitrary: p seen net)
  case Nil
  then show ?case by (simp add: signed_lots_def)
next
  case (Cons item items)
  let ?x = "fill_external_trade_id item" and ?fs = "signed_lots lots sign items"
  let ?net = "if ?x \<in> set seen then net else net + sign * lots item"
  have gross: "\<bar>net\<bar> + \<bar>lots item\<bar> + gross ?fs \<le> 2 ^ 53"
    using Cons.prems(3) assms(2) by (auto simp: signed_lots_def)
  moreover have "\<bar>?net\<bar> \<le> \<bar>net\<bar> + \<bar>lots item\<bar>" using assms(2) by auto
  ultimately have "\<bar>?net\<bar> + gross ?fs \<le> 2 ^ 53" by linarith
  moreover have "on_ledger j (position_fill api sign ins item p) (?x # seen) ?net"
    using Cons.prems gross gross_nonneg [of ?fs] by (intro on_ledger_fill assms) auto
  ultimately have "on_ledger j (position_fills_loop api sign ins (item # items) p)
      (map fst ?fs @ ?x # seen) (?net + count_once (?x # seen) ?fs)"
    using Cons by simp
  then show ?case
    using count_once_cong [of "?x # seen" seen ?fs]
    by (auto simp: signed_lots_def on_ledger_def insert_absorb add.assoc)
qed

lemma api_sign_side_sign:
  "sign_law api \<Longrightarrow> s = BUY \<or> s = SELL \<Longrightarrow> api_sign api s = side_sign s"
  by (auto simp: sign_law_def)

definition on_grid :: "nat \<Rightarrow> (fill \<Rightarrow> int) \<Rightarrow> trade_update list \<Rightarrow> bool" where
  "on_grid j lots tus \<longleftrightarrow>
     (\<forall>tu \<in> set tus. (tu_side tu = BUY \<or> tu_side tu = SELL) \<and>
        (\<forall>item \<in> set (tu_fills tu). fill_quantity item = grid j (lots item)))"

lemma on_ledger_run:
  assumes "sign_law api" "j \<le> 2044" "on_ledger j p seen net" "on_grid j lots tus"
    and "\<bar>net\<bar> + gross (ledger lots tus) \<le> 2 ^ 53"
  shows "on_ledger j (run (\<lambda>tu. position_trade_update api tu ins) tus p)
    (map fst (rev (ledger lots tus)) @ seen) (net + count_once seen (ledger lots tus))"
  using assms(3-5)
proof (induction tus arbitrary: p seen net)
  case Nil
  then show ?case by (simp add: ledger_def)
next
  case (Cons tu tus)
  let ?s = "side_sign (tu_side tu)"
  let ?fs = "signed_lots lots ?s (tu_fills tu)"
  have side: "tu_side tu = BUY \<or> tu_side tu = SELL" using Cons.prems by (simp add: on_grid_def)
  then have unit: "?s = 1 \<or> ?s = - 1" by auto
  have sum: "ledger lots (tu # tus) = ?fs @ ledger lots tus" by (simp add: ledger_def)
  have le: "\<bar>net\<bar> + gross ?fs \<le> 2 ^ 53"
    using Cons.prems(3) gross_nonneg [of "ledger lots tus"] unfolding sum by simp
  have step: "on_ledger j (position_trade_update api tu ins p)
      (map fst ?fs @ seen) (net + count_once seen ?fs)"
    unfolding position_trade_update_def api_sign_side_sign [OF assms(1) side]
    using Cons.prems le by (intro on_ledger_fills_loop unit assms) (auto simp: on_grid_def)
  moreover have "\<bar>net + count_once seen ?fs\<bar> + gross (ledger lots tus) \<le> 2 ^ 53"
    using count_once_bound [of seen ?fs] Cons.prems(3) unfolding sum by simp
  ultimately have "on_ledger j (run (\<lambda>tu. position_trade_update api tu ins) (tu # tus) p)
      (map fst (rev (ledger lots tus)) @ map fst ?fs @ seen)
      (net + count_once seen ?fs + count_once (map fst ?fs @ seen) (ledger lots tus))"
    using Cons by (auto simp: on_grid_def)
  then show ?case
    unfolding sum by (simp add: count_once_append on_ledger_def add.assoc Un_commute Un_assoc)
qed



section \<open>A position loaded from the database\<close>

lemma pos_quantity_load [simp]:
  "pos_quantity (position_load row ins p) = pos_quantity p"
  "pos_fills (position_load row ins p) = pos_fills p"
  by (simp_all add: position_load_def)

text \<open>
  What a trade update computes depends on the fills seen and the net quantity alone: the long and
  short position from before are overwritten.
\<close>

lemma position_fills_loop_load:
  "position_fills_loop api sign ins items (position_load row ins' p) =
     (if fill_ids items \<subseteq> set (pos_fills p) then position_load row ins' p
      else position_fills_loop api sign ins items p)"
proof (induction items arbitrary: p)
  case (Cons item items)
  show ?case
  proof (cases "fill_external_trade_id item \<in> set (pos_fills p)")
    case True
    with Cons show ?thesis by simp
  next
    case False
    then have "position_fill api sign ins item (position_load row ins' p) =
        position_fill api sign ins item p"
      by (simp add: position_fill_def position_load_def Let_def)
    with False show ?thesis by simp
  qed
qed simp

text \<open>A trade update with a new fill gives the same position whether or not a row was loaded before.\<close>

lemma position_load_forgotten:
  assumes "\<not> fill_ids (tu_fills tu) \<subseteq> set (pos_fills p)"
  shows "position_trade_update api tu ins (position_load row ins' p) =
    position_trade_update api tu ins p"
  using assms by (simp add: position_trade_update_def position_fills_loop_load)

section \<open>NaN\<close>

lemma position_fill_NaN:
  "pos_quantity p = NaN \<Longrightarrow> pos_quantity (position_fill api sign ins item p) = NaN"
  by (simp add: position_fill_def Let_def)

lemma position_fills_loop_NaN:
  "pos_quantity p = NaN \<Longrightarrow> pos_quantity (position_fills_loop api sign ins items p) = NaN"
  by (induction items arbitrary: p) (auto simp: position_fill_NaN)

lemma dmul_NaN [simp]: "dmul x NaN = NaN"
  by (simp add: dmul_def isnan_def)

lemma position_fills_loop_fresh_NaN:
  assumes "item \<in> set items" "fill_quantity item = NaN"
    and "fill_external_trade_id item \<notin> set (pos_fills p)"
    and "distinct (map fill_external_trade_id items)"
  shows "pos_quantity (position_fills_loop api sign ins items p) = NaN"
  using assms
proof (induction items arbitrary: p)
  case (Cons x xs)
  show ?case
  proof (cases "item = x")
    case True
    with Cons.prems show ?thesis
      by (simp add: position_fills_loop_NaN position_fill_def Let_def)
  next
    case False
    with Cons.prems have "item \<in> set xs" by simp
    then have "fill_external_trade_id item \<in> fill_ids xs" by (rule imageI)
    with Cons.prems(4) have "fill_external_trade_id item \<noteq> fill_external_trade_id x" by auto
    with False Cons.prems show ?thesis by (auto intro!: Cons.IH)
  qed
qed simp

text \<open>
  A single fill without a quantity (NaN) poisons the position for good: after it, whatever trade
  updates follow, the net quantity is NaN and so are the published long and short positions.
\<close>

lemma position_NaN_is_permanent:
  assumes "item \<in> set (tu_fills tu)" "fill_quantity item = NaN"
    and "fill_external_trade_id item \<notin> set (pos_fills p)"
    and "distinct (map fill_external_trade_id (tu_fills tu))"
    and "q = run (\<lambda>tu. position_trade_update api tu ins) tus (position_trade_update api tu ins p)"
  shows "pos_long_position q = NaN \<and> pos_short_position q = NaN"
proof -
  let ?I = "\<lambda>p. netted p \<and> pos_quantity p = NaN"
  have "?I (position_trade_update api tu ins p)"
    unfolding position_trade_update_def
    using assms(1-4) by (auto intro!: netted_fills_loop_fresh position_fills_loop_fresh_NaN)
  then have "?I q"
    unfolding assms(5) by (rule run_invariant [rotated])
      (simp add: position_trade_update_def netted_fills_loop position_fills_loop_NaN)
  then show ?thesis by (auto simp: netted_def dest: same_valueD(5))
qed

end
