(* ===== verification/Risk_Groups.thy ===== *)
theory Risk_Groups
  imports Risk
begin

text \<open>
  The three groups that carry positions (\<^verbatim>\<open>risk/account.*\<close>, \<^verbatim>\<open>risk/user.*\<close>,
  \<^verbatim>\<open>risk/strategy.*\<close>). The three C++ classes have the same text up to the type of their name
  (a string, a string, a strategy id) and the names of the handler functions, so they share one
  record and one generic dispatch, and each class has its own operations on top. The nested class
  \<^verbatim>\<open>Handler\<close>, through which a group reaches the shared state, is a record of functions over that
  state; its contract is the locale \<open>risk_handler\<close>.
\<close>

section \<open>Handler and group\<close>

record ('k, 's) handler =
  hd_publish :: "'k \<Rightarrow> instrument_id \<Rightarrow> 's \<Rightarrow> 's"
  hd_get_instrument :: "string \<Rightarrow> string \<Rightarrow> 's \<Rightarrow> instrument \<times> 's"
  hd_get_limit :: "'s \<Rightarrow> 'k \<Rightarrow> string \<Rightarrow> string \<Rightarrow> limit"

type_synonym 's account_handler = "(string, 's) handler"
type_synonym 's user_handler = "(string, 's) handler"
type_synonym 's strategy_handler = "(u32, 's) handler"

record 'k group =
  grp_name :: 'k
  grp_positions :: "(instrument_id, position) hash_map"

type_synonym account = "string group"
type_synonym user = "string group"
type_synonym strategy = "u32 group"

definition group_new :: "'k \<Rightarrow> 'k group" where
  "group_new name = \<lparr>grp_name = name, grp_positions = []\<rparr>"

definition group_get_position :: "instrument_id \<Rightarrow> 'k group \<Rightarrow> position option" where
  "group_get_position instrument_id g = map_of (grp_positions g) instrument_id"

text \<open>
  The template \<^verbatim>\<open>dispatch\<close>: \<open>upd\<close> is the call \<^verbatim>\<open>position(value, instrument)\<close> for the type
  of the value at hand, \<open>callback\<close> the function passed along.
\<close>

definition group_dispatch ::
    "('k, 's) handler \<Rightarrow> string \<Rightarrow> string \<Rightarrow> (instrument \<Rightarrow> position \<Rightarrow> position) \<Rightarrow>
     (instrument_id \<Rightarrow> 's \<Rightarrow> 's) \<Rightarrow> 'k group \<Rightarrow> 's \<Rightarrow> 'k group \<times> 's" where
  "group_dispatch h exchange symbol upd callback g s =
     (let (instrument, s1) = hd_get_instrument h exchange symbol s;
          instrument_id = ins_id instrument;
          position =
            (case map_of (grp_positions g) instrument_id of
               None \<Rightarrow> position_new (hd_get_limit h s1 (grp_name g) exchange symbol)
             | Some position \<Rightarrow> position)
      in (g\<lparr>grp_positions :=
             AList.update instrument_id (upd instrument position) (grp_positions g)\<rparr>,
          callback instrument_id s1))"

section \<open>Account\<close>

definition account_new :: "string \<Rightarrow> account" where
  "account_new name = group_new name"

definition account_get_position :: "instrument_id \<Rightarrow> account \<Rightarrow> position option" where
  "account_get_position instrument_id a = group_get_position instrument_id a"

definition account_load :: "'s account_handler \<Rightarrow> db_position \<Rightarrow> account \<Rightarrow> 's \<Rightarrow> account \<times> 's" where
  "account_load h row =
     group_dispatch h (dbp_exchange row) (dbp_symbol row) (position_load row) (\<lambda>_ s. s)"

definition account_reference_data ::
    "'s account_handler \<Rightarrow> reference_data \<Rightarrow> account \<Rightarrow> 's \<Rightarrow> account \<times> 's" where
  "account_reference_data h rd =
     group_dispatch h (rd_exchange rd) (rd_symbol rd) (position_reference_data rd) (\<lambda>_ s. s)"

definition account_trade_update ::
    "roq_api \<Rightarrow> 's account_handler \<Rightarrow> trade_update \<Rightarrow> account \<Rightarrow> 's \<Rightarrow> account \<times> 's" where
  "account_trade_update api h tu a =
     group_dispatch h (tu_exchange tu) (tu_symbol tu) (position_trade_update api tu)
       (\<lambda>instrument_id. hd_publish h (grp_name a) instrument_id) a"

section \<open>User\<close>

definition user_new :: "string \<Rightarrow> user" where
  "user_new name = group_new name"

definition user_get_position :: "instrument_id \<Rightarrow> user \<Rightarrow> position option" where
  "user_get_position instrument_id u = group_get_position instrument_id u"

definition user_load :: "'s user_handler \<Rightarrow> db_position \<Rightarrow> user \<Rightarrow> 's \<Rightarrow> user \<times> 's" where
  "user_load h row =
     group_dispatch h (dbp_exchange row) (dbp_symbol row) (position_load row) (\<lambda>_ s. s)"

definition user_reference_data ::
    "'s user_handler \<Rightarrow> reference_data \<Rightarrow> user \<Rightarrow> 's \<Rightarrow> user \<times> 's" where
  "user_reference_data h rd =
     group_dispatch h (rd_exchange rd) (rd_symbol rd) (position_reference_data rd) (\<lambda>_ s. s)"

definition user_trade_update ::
    "roq_api \<Rightarrow> 's user_handler \<Rightarrow> trade_update \<Rightarrow> user \<Rightarrow> 's \<Rightarrow> user \<times> 's" where
  "user_trade_update api h tu u =
     group_dispatch h (tu_exchange tu) (tu_symbol tu) (position_trade_update api tu)
       (\<lambda>instrument_id. hd_publish h (grp_name u) instrument_id) u"

section \<open>Strategy\<close>

definition strategy_new :: "u32 \<Rightarrow> strategy" where
  "strategy_new strategy_id = group_new strategy_id"

definition strategy_get_position :: "instrument_id \<Rightarrow> strategy \<Rightarrow> position option" where
  "strategy_get_position instrument_id g = group_get_position instrument_id g"

definition strategy_load ::
    "'s strategy_handler \<Rightarrow> db_position \<Rightarrow> strategy \<Rightarrow> 's \<Rightarrow> strategy \<times> 's" where
  "strategy_load h row =
     group_dispatch h (dbp_exchange row) (dbp_symbol row) (position_load row) (\<lambda>_ s. s)"

definition strategy_reference_data ::
    "'s strategy_handler \<Rightarrow> reference_data \<Rightarrow> strategy \<Rightarrow> 's \<Rightarrow> strategy \<times> 's" where
  "strategy_reference_data h rd =
     group_dispatch h (rd_exchange rd) (rd_symbol rd) (position_reference_data rd) (\<lambda>_ s. s)"

definition strategy_trade_update ::
    "roq_api \<Rightarrow> 's strategy_handler \<Rightarrow> trade_update \<Rightarrow> strategy \<Rightarrow> 's \<Rightarrow> strategy \<times> 's" where
  "strategy_trade_update api h tu g =
     group_dispatch h (tu_exchange tu) (tu_symbol tu) (position_trade_update api tu)
       (\<lambda>instrument_id. hd_publish h (grp_name g) instrument_id) g"

lemmas group_operation_defs =
  account_load_def account_reference_data_def account_trade_update_def
  user_load_def user_reference_data_def user_trade_update_def
  strategy_load_def strategy_reference_data_def strategy_trade_update_def

section \<open>Dispatch, independently of the handler\<close>

lemma group_dispatch_eq:
  assumes "hd_get_instrument h exchange symbol s = (ins, s1)"
  shows "group_dispatch h exchange symbol upd callback g s =
    (g\<lparr>grp_positions := AList.update (ins_id ins)
        (upd ins (find_or (position_new (hd_get_limit h s1 (grp_name g) exchange symbol))
           (grp_positions g) (ins_id ins))) (grp_positions g)\<rparr>,
     callback (ins_id ins) s1)"
  by (simp add: group_dispatch_def assms Let_def find_or_def)

lemma grp_name_dispatch [simp]:
  "grp_name (fst (group_dispatch h exchange symbol upd callback g s)) = grp_name g"
  by (simp add: group_dispatch_def Let_def split_beta)

lemma snd_group_dispatch:
  "snd (group_dispatch h exchange symbol upd callback g s) =
     (case hd_get_instrument h exchange symbol s of (ins, s1) \<Rightarrow> callback (ins_id ins) s1)"
  by (simp add: group_dispatch_def Let_def split_beta)

section \<open>The invariant of a group\<close>

text \<open>
  Every position of a group belongs to a known instrument and carries exactly the limits configured
  for the group's name and the exchange and symbol of that instrument.
\<close>

definition positions_inv ::
    "(instrument_id \<Rightarrow> (string \<times> string) option) \<Rightarrow> ('k \<Rightarrow> string \<Rightarrow> string \<Rightarrow> limit) \<Rightarrow>
     'k group \<Rightarrow> bool" where
  "positions_inv known get_limit g \<longleftrightarrow>
     unique_keys (grp_positions g) \<and>
     (\<forall>i p. map_of (grp_positions g) i = Some p \<longrightarrow>
        (\<exists>e y. known i = Some (e, y) \<and> position_limit p = get_limit (grp_name g) e y))"

lemma positions_inv_mono:
  assumes "positions_inv known get_limit g" "\<And>i ey. known i = Some ey \<Longrightarrow> known' i = Some ey"
  shows "positions_inv known' get_limit g"
  using assms unfolding positions_inv_def by metis

lemma positions_inv_new [simp]: "positions_inv known get_limit (group_new k)"
  by (simp add: positions_inv_def group_new_def)

section \<open>The contract of a handler\<close>

text \<open>
  \<open>known s i\<close> is the exchange and symbol of instrument \<open>i\<close>. The handler finds an instrument
  with the requested names, or creates one while there is \<open>room\<close>; it never changes the names
  behind an id, and neither call changes the limits.
\<close>

locale risk_handler =
  fixes h :: "('k, 's) handler"
    and known :: "'s \<Rightarrow> instrument_id \<Rightarrow> (string \<times> string) option"
    and inv :: "'s \<Rightarrow> bool"
    and room :: "'s \<Rightarrow> string \<Rightarrow> string \<Rightarrow> bool"
  assumes get_inv: "inv s \<Longrightarrow> room s e y \<Longrightarrow> hd_get_instrument h e y s = (ins, s') \<Longrightarrow> inv s'"
    and get_room: "inv s \<Longrightarrow> room s e y \<Longrightarrow> hd_get_instrument h e y s = (ins, s') \<Longrightarrow> room s' e y"
    and get_known:
      "inv s \<Longrightarrow> room s e y \<Longrightarrow> hd_get_instrument h e y s = (ins, s') \<Longrightarrow>
         known s' (ins_id ins) = Some (e, y)"
    and get_stable:
      "inv s \<Longrightarrow> room s e y \<Longrightarrow> hd_get_instrument h e y s = (ins, s') \<Longrightarrow>
         known s i = Some ey \<Longrightarrow> known s' i = Some ey"
    and get_limit_frame: "hd_get_instrument h e y s = (ins, s') \<Longrightarrow> hd_get_limit h s' = hd_get_limit h s"
    and known_inj: "inv s \<Longrightarrow> known s i = Some ey \<Longrightarrow> known s j = Some ey \<Longrightarrow> i = j"
    and publish_inv: "inv s \<Longrightarrow> known s i \<noteq> None \<Longrightarrow> inv (hd_publish h k i s)"
    and publish_room: "room (hd_publish h k i s) = room s"
    and publish_known: "known (hd_publish h k i s) = known s"
    and publish_limit_frame: "hd_get_limit h (hd_publish h k i s) = hd_get_limit h s"
begin

text \<open>The two callbacks the groups pass to \<open>group_dispatch\<close>: nothing, and publishing.\<close>

definition proper_callback :: "(instrument_id \<Rightarrow> 's \<Rightarrow> 's) \<Rightarrow> bool" where
  "proper_callback callback \<longleftrightarrow>
     callback = (\<lambda>_ s. s) \<or> (\<exists>k. callback = hd_publish h k)"

lemma proper_callbackI [intro]:
  "proper_callback (\<lambda>_ s. s)" "proper_callback (hd_publish h k)" "proper_callback (\<lambda>i. hd_publish h k i)"
  by (auto simp: proper_callback_def)

lemma proper_callbackD:
  assumes "proper_callback callback"
  shows "known (callback i s) = known s" "room (callback i s) = room s"
    "hd_get_limit h (callback i s) = hd_get_limit h s"
    "inv s \<Longrightarrow> known s i \<noteq> None \<Longrightarrow> inv (callback i s)"
  using assms
  by (auto simp: proper_callback_def publish_known publish_room publish_limit_frame intro: publish_inv)

text \<open>
  A dispatch keeps the invariant of the state and of the group, provided that the update of the
  position keeps its limits.
\<close>

lemma dispatch_state:
  assumes "inv s" "room s e y" "proper_callback callback"
    and "group_dispatch h e y upd callback g s = (g', s')"
  shows "inv s'" "room s' e y" "hd_get_limit h s' = hd_get_limit h s"
    "known s i = Some ey \<Longrightarrow> known s' i = Some ey"
proof -
  obtain ins s1 where get: "hd_get_instrument h e y s = (ins, s1)" by fastforce
  have s': "s' = callback (ins_id ins) s1" using assms(4) by (simp add: group_dispatch_eq [OF get])
  have "known s1 (ins_id ins) \<noteq> None" by (simp add: get_known [OF assms(1,2) get])
  then show "inv s'"
    unfolding s' by (rule proper_callbackD(4) [OF assms(3) get_inv [OF assms(1,2) get]])
  show "room s' e y" "hd_get_limit h s' = hd_get_limit h s"
    "known s i = Some ey \<Longrightarrow> known s' i = Some ey"
    unfolding s' proper_callbackD(1-3) [OF assms(3)]
    by (fact get_room [OF assms(1,2) get] get_limit_frame [OF get] get_stable [OF assms(1,2) get])+
qed

lemma dispatch_group:
  assumes "inv s" "room s e y" "proper_callback callback"
    and "group_dispatch h e y upd callback g s = (g', s')"
  obtains i ins where "known s' i = Some (e, y)"
    "g' = g\<lparr>grp_positions := AList.update i
       (upd ins (find_or (position_new (hd_get_limit h s (grp_name g) e y)) (grp_positions g) i))
       (grp_positions g)\<rparr>"
proof -
  obtain ins s1 where get: "hd_get_instrument h e y s = (ins, s1)" by fastforce
  show thesis
    using assms(4) get_known [OF assms(1,2) get] get_limit_frame [OF get]
    by (intro that [of "ins_id ins" ins])
      (auto simp: group_dispatch_eq [OF get] proper_callbackD(1) [OF assms(3)])
qed

lemma dispatch_positions_inv:
  assumes "inv s" "room s e y" "proper_callback callback"
    and "positions_inv (known s) (hd_get_limit h s) g"
    and keep: "\<And>ins p. position_limit (upd ins p) = position_limit p"
    and eq: "group_dispatch h e y upd callback g s = (g', s')"
  shows "positions_inv (known s') (hd_get_limit h s') g'"
proof -
  obtain i ins where k: "known s' i = Some (e, y)" and g': "g' = g\<lparr>grp_positions := AList.update i
      (upd ins (find_or (position_new (hd_get_limit h s (grp_name g) e y)) (grp_positions g) i))
      (grp_positions g)\<rparr>"
    using dispatch_group [OF assms(1-3) eq] .
  note st = dispatch_state [OF assms(1-3) eq]
  have inv': "positions_inv (known s') (hd_get_limit h s) g"
    using assms(4) by (rule positions_inv_mono) (rule st(4))
  then have "position_limit (find_or (position_new (hd_get_limit h s (grp_name g) e y))
      (grp_positions g) i) = hd_get_limit h s (grp_name g) e y"
    using k by (fastforce simp: find_or_def positions_inv_def split: option.split)
  with inv' k show ?thesis
    unfolding st(3) g' by (auto simp: positions_inv_def keep split: if_splits)
qed

end

section \<open>The tables of groups\<close>

definition groups_ok ::
    "(instrument_id \<Rightarrow> (string \<times> string) option) \<Rightarrow> ('k \<Rightarrow> string \<Rightarrow> string \<Rightarrow> limit) \<Rightarrow>
     ('k, 'k group) hash_map \<Rightarrow> bool" where
  "groups_ok knw lmt m \<longleftrightarrow>
     unique_keys m \<and>
     (\<forall>k g. map_of m k = Some g \<longrightarrow> grp_name g = k \<and> positions_inv knw lmt g)"

lemma groups_ok_mono:
  "groups_ok knw lmt m \<Longrightarrow> (\<And>i ey. knw i = Some ey \<Longrightarrow> knw' i = Some ey) \<Longrightarrow> groups_ok knw' lmt m"
  unfolding groups_ok_def using positions_inv_mono by metis

lemma groups_ok_update:
  assumes "groups_ok knw lmt m" "grp_name g = k" "positions_inv knw lmt g"
  shows "groups_ok knw lmt (AList.update k g m)"
  using assms by (auto simp: groups_ok_def)

text \<open>
  A state with a table of groups: \<open>visit\<close> runs a callback on one group and writes it back,
  \<open>visit_all\<close> does so for every group of the table.
\<close>

locale group_table = risk_handler h known inv room
  for h :: "('k, 's) handler"
    and known :: "'s \<Rightarrow> instrument_id \<Rightarrow> (string \<times> string) option"
    and inv :: "'s \<Rightarrow> bool"
    and room :: "'s \<Rightarrow> string \<Rightarrow> string \<Rightarrow> bool" +
  fixes groups :: "'s \<Rightarrow> ('k, 'k group) hash_map"
    and put :: "('k, 'k group) hash_map \<Rightarrow> 's \<Rightarrow> 's"
    and visit :: "'k \<Rightarrow> ('k group \<Rightarrow> 's \<Rightarrow> 'k group \<times> 's) \<Rightarrow> 's \<Rightarrow> bool \<times> 's"
    and visit_all :: "('k group \<Rightarrow> 's \<Rightarrow> 'k group \<times> 's) \<Rightarrow> 's \<Rightarrow> 's"
  assumes groups_inv: "inv s \<Longrightarrow> groups_ok (known s) (hd_get_limit h s) (groups s)"
    and put_inv: "inv s \<Longrightarrow> groups_ok (known s) (hd_get_limit h s) m \<Longrightarrow> inv (put m s)"
    and put_known: "known (put m s) = known s"
    and put_room: "room (put m s) = room s"
    and put_limit: "hd_get_limit h (put m s) = hd_get_limit h s"
    and groups_put: "groups (put m s) = m"
    and get_groups: "hd_get_instrument h e y s = (ins, s') \<Longrightarrow> groups s' = groups s"
    and publish_groups: "groups (hd_publish h k i s) = groups s"
    and visit_eq: "visit k callback s =
      (case map_of (groups s) k of
         None \<Rightarrow> (False, s)
       | Some g \<Rightarrow> (let (g', s') = callback g s in (True, put (AList.update k g' (groups s')) s')))"
    and visit_all_eq:
      "visit_all callback s = fold (\<lambda>k s. snd (visit k callback s)) (map fst (groups s)) s"
begin

lemma dispatch_groups:
  assumes "proper_callback callback" "group_dispatch h e y upd callback g s = (g', s')"
  shows "groups s' = groups s"
proof -
  obtain ins s1 where get: "hd_get_instrument h e y s = (ins, s1)" by fastforce
  show ?thesis
    using assms get_groups [OF get]
    by (auto simp: group_dispatch_eq [OF get] proper_callback_def publish_groups)
qed

lemma visit_dispatch:
  assumes "inv s" "room s e y" "\<And>g. proper_callback (callback g)"
    and keep: "\<And>ins p. position_limit (upd ins p) = position_limit p"
    and s': "s' = snd (visit k (\<lambda>g. group_dispatch h e y upd (callback g) g) s)"
  shows "inv s'" "room s' e y" "hd_get_limit h s' = hd_get_limit h s"
    "known s i = Some ey \<Longrightarrow> known s' i = Some ey"
    "map fst (groups s') = map fst (groups s)"
    "k' \<noteq> k \<Longrightarrow> map_of (groups s') k' = map_of (groups s) k'"
proof -
  have "inv s' \<and> room s' e y \<and> hd_get_limit h s' = hd_get_limit h s \<and>
    (known s i = Some ey \<longrightarrow> known s' i = Some ey) \<and> map fst (groups s') = map fst (groups s) \<and>
    (k' \<noteq> k \<longrightarrow> map_of (groups s') k' = map_of (groups s) k')"
  proof (cases "map_of (groups s) k")
    case None
    then show ?thesis using assms(1,2) by (simp add: s' visit_eq)
  next
    case (Some g)
    obtain g' s1 where d: "group_dispatch h e y upd (callback g) g s = (g', s1)" by fastforce
    note st = dispatch_state [OF assms(1-3) d] and grp = dispatch_groups [OF assms(3) d]
    have eq: "s' = put (AList.update k g' (groups s)) s1" by (simp add: s' visit_eq Some d grp)
    have ok: "grp_name g = k" "positions_inv (known s) (hd_get_limit h s) g"
      using groups_inv [OF assms(1)] Some by (auto simp: groups_ok_def)
    have "positions_inv (known s1) (hd_get_limit h s1) g'"
      by (rule dispatch_positions_inv [OF assms(1-3) ok(2) keep d])
    moreover have "grp_name g' = k"
      using ok(1) grp_name_dispatch [of h e y upd "callback g" g s] by (simp add: d)
    ultimately have "inv s'"
      unfolding eq using groups_inv [OF st(1)] by (auto intro!: put_inv groups_ok_update st simp: grp)
    moreover have "k \<in> set (map fst (groups s))" using Some by (force dest: map_of_SomeD)
    then have "map fst (AList.update k g' (groups s)) = map fst (groups s)"
      by (simp add: AList.update_keys)
    ultimately show ?thesis
      using st by (simp add: eq groups_put put_known put_room put_limit)
  qed
  then show "inv s'" "room s' e y" "hd_get_limit h s' = hd_get_limit h s"
    "known s i = Some ey \<Longrightarrow> known s' i = Some ey"
    "map fst (groups s') = map fst (groups s)"
    "k' \<noteq> k \<Longrightarrow> map_of (groups s') k' = map_of (groups s) k'"
    by blast+
qed

text \<open>What a visit does to the group it visits: the position of the named instrument, and only that.\<close>

lemma visit_dispatch_position:
  assumes "inv s" "room s e y" "\<And>g. proper_callback (callback g)" "map_of (groups s) k = Some g"
    and s': "s' = snd (visit k (\<lambda>g. group_dispatch h e y upd (callback g) g) s)"
  obtains i ins g' where "known s' i = Some (e, y)" "map_of (groups s') k = Some g'"
    "grp_name g' = grp_name g"
    "group_get_position i g' = Some (upd ins
       (find_or (position_new (hd_get_limit h s (grp_name g) e y)) (grp_positions g) i))"
    "\<forall>i'. i' \<noteq> i \<longrightarrow> group_get_position i' g' = group_get_position i' g"
proof -
  obtain g' s1 where d: "group_dispatch h e y upd (callback g) g s = (g', s1)" by fastforce
  from dispatch_group [OF assms(1-3) d] obtain i ins where k: "known s1 i = Some (e, y)"
    and g': "g' = g\<lparr>grp_positions := AList.update i
       (upd ins (find_or (position_new (hd_get_limit h s (grp_name g) e y)) (grp_positions g) i))
       (grp_positions g)\<rparr>" .
  have eq: "s' = put (AList.update k g' (groups s1)) s1" by (simp add: s' visit_eq assms(4) d)
  show thesis
    using k by (intro that [of i g' ins]) (auto simp: eq put_known groups_put g' group_get_position_def)
qed

lemma visit_all_dispatch:
  assumes "inv s" "room s e y" "\<And>g. proper_callback (callback g)"
    and keep: "\<And>ins p. position_limit (upd ins p) = position_limit p"
  shows "inv (visit_all (\<lambda>g. group_dispatch h e y upd (callback g) g) s)"
    and "room (visit_all (\<lambda>g. group_dispatch h e y upd (callback g) g) s) e y"
    and "known s i = Some ey \<Longrightarrow>
      known (visit_all (\<lambda>g. group_dispatch h e y upd (callback g) g) s) i = Some ey"
    and "hd_get_limit h (visit_all (\<lambda>g. group_dispatch h e y upd (callback g) g) s) =
      hd_get_limit h s"
proof -
  let ?step = "\<lambda>k s. snd (visit k (\<lambda>g. group_dispatch h e y upd (callback g) g) s)"
  have "inv (fold ?step ks s) \<and> room (fold ?step ks s) e y \<and>
    (\<forall>i ey. known s i = Some ey \<longrightarrow> known (fold ?step ks s) i = Some ey) \<and>
    hd_get_limit h (fold ?step ks s) = hd_get_limit h s" for ks
    using assms(1,2)
  proof (induction ks arbitrary: s)
    case (Cons k ks)
    note v = visit_dispatch [OF Cons.prems assms(3) keep refl]
    show ?case using Cons.IH [OF v(1) v(2)] v(3,4) by simp
  qed simp
  then show "inv (visit_all (\<lambda>g. group_dispatch h e y upd (callback g) g) s)"
    and "room (visit_all (\<lambda>g. group_dispatch h e y upd (callback g) g) s) e y"
    and "known s i = Some ey \<Longrightarrow>
      known (visit_all (\<lambda>g. group_dispatch h e y upd (callback g) g) s) i = Some ey"
    and "hd_get_limit h (visit_all (\<lambda>g. group_dispatch h e y upd (callback g) g) s) =
      hd_get_limit h s"
    unfolding visit_all_eq by blast+
qed

end

section \<open>The position of a group in a named instrument\<close>

definition position_at ::
    "('s \<Rightarrow> ('k, 'k group) hash_map) \<Rightarrow> ('s \<Rightarrow> string \<Rightarrow> string \<Rightarrow> instrument_id option) \<Rightarrow>
     's \<Rightarrow> 'k \<Rightarrow> string \<Rightarrow> string \<Rightarrow> position option" where
  "position_at groups lookup s k e y =
     (case map_of (groups s) k of
        None \<Rightarrow> None
      | Some g \<Rightarrow>
          (case lookup s e y of
             None \<Rightarrow> None
           | Some i \<Rightarrow> group_get_position i g))"

text \<open>
  With a look-up of instruments by name the positions of a table are a function of group, exchange
  and symbol, and a visit updates that function at one point.
\<close>

locale position_table = group_table h known inv room groups put visit visit_all
  for h :: "('k, 's) handler"
    and known :: "'s \<Rightarrow> instrument_id \<Rightarrow> (string \<times> string) option"
    and inv :: "'s \<Rightarrow> bool"
    and room :: "'s \<Rightarrow> string \<Rightarrow> string \<Rightarrow> bool"
    and groups :: "'s \<Rightarrow> ('k, 'k group) hash_map"
    and put :: "('k, 'k group) hash_map \<Rightarrow> 's \<Rightarrow> 's"
    and visit :: "'k \<Rightarrow> ('k group \<Rightarrow> 's \<Rightarrow> 'k group \<times> 's) \<Rightarrow> 's \<Rightarrow> bool \<times> 's"
    and visit_all :: "('k group \<Rightarrow> 's \<Rightarrow> 'k group \<times> 's) \<Rightarrow> 's \<Rightarrow> 's" +
  fixes lookup :: "'s \<Rightarrow> string \<Rightarrow> string \<Rightarrow> instrument_id option"
  assumes lookup_known: "inv s \<Longrightarrow> lookup s e y = Some i \<longleftrightarrow> known s i = Some (e, y)"
begin

lemma position_at_iff:
  assumes "inv s"
  shows "position_at groups lookup s k e y = Some p \<longleftrightarrow>
    (\<exists>g i. map_of (groups s) k = Some g \<and> known s i = Some (e, y) \<and> group_get_position i g = Some p)"
proof -
  have "known s i = Some (e, y) \<longleftrightarrow> lookup s e y = Some i" for i
    by (simp add: lookup_known [OF assms])
  then show ?thesis by (auto simp: position_at_def split: option.splits)
qed

lemma position_known:
  assumes "inv s" "map_of (groups s) k = Some g" "group_get_position i g = Some p"
  obtains e y where "known s i = Some (e, y)"
  using groups_inv [OF assms(1)] assms(2,3)
  unfolding groups_ok_def positions_inv_def group_get_position_def by blast

text \<open>A table that did not change shows the same positions after the registry has grown.\<close>

lemma position_at_mono:
  assumes "inv s" "inv s'" "map_of (groups s') k = map_of (groups s) k"
    and mono: "\<And>i ey. known s i = Some ey \<Longrightarrow> known s' i = Some ey"
  shows "position_at groups lookup s' k e y = position_at groups lookup s k e y"
proof (rule option_eqI)
  fix p
  have "known s i = Some (e, y) \<longleftrightarrow> known s' i = Some (e, y)"
    if "map_of (groups s) k = Some g" "group_get_position i g = Some p" for g i
    using position_known [OF assms(1) that] mono by (metis option.inject)
  then show "position_at groups lookup s' k e y = Some p \<longleftrightarrow> position_at groups lookup s k e y = Some p"
    unfolding position_at_iff [OF assms(1)] position_at_iff [OF assms(2)] assms(3) by blast
qed

definition effective :: "'s \<Rightarrow> 'k \<Rightarrow> string \<Rightarrow> string \<Rightarrow> position" where
  "effective s k e y =
     (case position_at groups lookup s k e y of
        None \<Rightarrow> position_new (hd_get_limit h s k e y)
      | Some p \<Rightarrow> p)"

lemma effective_mono:
  assumes "inv s" "inv s'" "map_of (groups s') k = map_of (groups s) k"
    and "\<And>i ey. known s i = Some ey \<Longrightarrow> known s' i = Some ey"
    and "hd_get_limit h s' = hd_get_limit h s"
  shows "effective s' k e y = effective s k e y"
  using position_at_mono [OF assms(1-4), of e y] assms(5) by (simp add: effective_def split: option.split)

text \<open>A visit changes one position: that of the visited group in the named instrument.\<close>

lemma visit_effective:
  assumes "inv s" "room s e y" "\<And>g. proper_callback (callback g)"
    and keep: "\<And>ins p. position_limit (upd ins p) = position_limit p"
    and g: "map_of (groups s) k = Some g"
    and s': "s' = snd (visit k (\<lambda>g. group_dispatch h e y upd (callback g) g) s)"
  obtains ins where "position_at groups lookup s' k e y = Some (upd ins (effective s k e y))"
    and "\<forall>k' e' y'. (k', e', y') \<noteq> (k, e, y) \<longrightarrow> effective s' k' e' y' = effective s k' e' y'"
proof -
  note v = visit_dispatch [OF assms(1-3) keep s']
  have name: "grp_name g = k" using groups_inv [OF assms(1)] g by (simp add: groups_ok_def)
  obtain i ins g' where i: "known s' i = Some (e, y)"
    and g': "map_of (groups s') k = Some g'"
    and p: "group_get_position i g' = Some (upd ins
       (find_or (position_new (hd_get_limit h s (grp_name g) e y)) (grp_positions g) i))"
    and other: "\<forall>i'. i' \<noteq> i \<longrightarrow> group_get_position i' g' = group_get_position i' g"
    by (rule visit_dispatch_position [OF assms(1-3) g s'])
  have same: "known s j = Some (e, y) \<longleftrightarrow> j = i" if "group_get_position j g \<noteq> None" for j
    using that position_known [OF assms(1) g] v(4) i known_inj [OF v(1)] by (metis not_None_eq option.inject)
  have "position_at groups lookup s k e y = group_get_position i g"
    using same by (intro option_eqI) (auto simp: position_at_iff [OF assms(1)] g)
  then have "effective s k e y =
      find_or (position_new (hd_get_limit h s (grp_name g) e y)) (grp_positions g) i"
    by (simp add: effective_def name find_or_def group_get_position_def)
  with p have pos: "position_at groups lookup s' k e y = Some (upd ins (effective s k e y))"
    using i g' by (auto simp: position_at_iff [OF v(1)])
  have "effective s' k' e' y' = effective s k' e' y'" if ne: "(k', e', y') \<noteq> (k, e, y)" for k' e' y'
  proof (cases "k' = k")
    case False
    then show ?thesis using v(6) by (intro effective_mono assms(1) v(1) v(4) v(3)) auto
  next
    case True
    with ne i have "known s' j = Some (e', y') \<Longrightarrow> j \<noteq> i" for j by auto
    then have "known s' j = Some (e', y') \<and> group_get_position j g' = Some p \<longleftrightarrow>
        known s j = Some (e', y') \<and> group_get_position j g = Some p" for j p
      using other v(4) position_known [OF assms(1) g] by (metis option.inject)
    then have "position_at groups lookup s' k e' y' = position_at groups lookup s k e' y'"
      by (intro option_eqI) (simp add: position_at_iff [OF v(1)] position_at_iff [OF assms(1)] g g')
    then show ?thesis by (simp add: effective_def True v(3) split: option.split)
  qed
  then show thesis by (intro that [OF pos]) blast
qed

lemma visit_all_effective:
  assumes "inv s" "room s e y" "\<And>g. proper_callback (callback g)"
    and id: "\<And>ins p. upd ins p = p"
  shows "effective (visit_all (\<lambda>g. group_dispatch h e y upd (callback g) g) s) k' e' y' =
    effective s k' e' y'"
proof -
  let ?step = "\<lambda>k s. snd (visit k (\<lambda>g. group_dispatch h e y upd (callback g) g) s)"
  have keep: "position_limit (upd ins p) = position_limit p" for ins p by (simp add: id)
  have step: "effective (?step k s) k' e' y' = effective s k' e' y'" if s: "inv s" "room s e y" for k s
  proof (cases "map_of (groups s) k")
    case None
    then show ?thesis by (simp add: visit_eq)
  next
    case (Some g)
    obtain ins where
      "position_at groups lookup (?step k s) k e y = Some (upd ins (effective s k e y))"
      "\<forall>k' e' y'. (k', e', y') \<noteq> (k, e, y) \<longrightarrow> effective (?step k s) k' e' y' = effective s k' e' y'"
      by (rule visit_effective [where callback = callback and upd = upd, OF s assms(3) keep Some refl])
    then show ?thesis by (cases "(k', e', y') = (k, e, y)") (auto simp: effective_def id)
  qed
  have "effective (fold ?step ks s) k' e' y' = effective s k' e' y'" for ks
    using assms(1,2)
  proof (induction ks arbitrary: s)
    case (Cons k ks)
    note v = visit_dispatch [OF Cons.prems assms(3) keep refl]
    show ?case using Cons.IH [OF v(1) v(2)] step [OF Cons.prems] by simp
  qed simp
  then show ?thesis by (simp add: visit_all_eq)
qed

end

end
