(* ===== verification/Shared.thy ===== *)
theory Shared
  imports Risk_Groups
begin

text \<open>
  The shared state of the risk manager (\<^verbatim>\<open>shared.hpp\<close>, \<^verbatim>\<open>shared.cpp\<close>): the instrument registry,
  the accounts, users and strategies, the configured limits, and per group the set of instruments
  whose limits are to be published. \<^verbatim>\<open>Shared\<close> implements the handler of all three groups; the
  interpretations \<open>account_table\<close>, \<open>user_table\<close> and \<open>strategy_table\<close> discharge the
  contracts \<open>risk_handler\<close> and \<open>group_table\<close> for it. The cached gateway positions and funds
  (\<^verbatim>\<open>accounts_by_source\<close>) hold values of two types of the roq library, here \<open>'cp\<close> and \<open>'cf\<close>.
\<close>

type_synonym limits_of = "(string, (string, limit) hash_map) hash_map"

record ('cp, 'cf) cached_account =
  ca_positions :: "(string, (string, 'cp) hash_map) hash_map"
  ca_funds :: "(string, 'cf) hash_map"

record ('cp, 'cf) shared =
  next_instrument_id :: u32
  instrument_lookup :: "(string, (string, u32) hash_map) hash_map"
  instruments :: "(u32, instrument) hash_map"
  accounts :: "(string, account) hash_map"
  users :: "(string, user) hash_map"
  strategies :: "(u32, strategy) hash_map"
  limits_by_account :: "(string, limits_of) hash_map"
  limits_by_user :: "(string, limits_of) hash_map"
  limits_by_strategy :: "(u32, limits_of) hash_map"
  publish_by_account :: "(string, instrument_id list) hash_map"
  publish_by_user :: "(string, instrument_id list) hash_map"
  publish_by_strategy :: "(u32, instrument_id list) hash_map"
  accounts_by_source :: "(u8, (string, ('cp, 'cf) cached_account) hash_map) hash_map"

section \<open>Construction\<close>

text \<open>\<^verbatim>\<open>create_config\<close>: one group for every name of the configuration.\<close>

definition create_config :: "('k, 'v) hash_map \<Rightarrow> ('k, 'k group) hash_map" where
  "create_config config =
     fold (\<lambda>(name, _) result. try_emplace name (group_new name) result) config []"

text \<open>\<^verbatim>\<open>create_limits\<close>: a deep copy of the configured limits.\<close>

definition create_limits_symbols ::
    "(string, limit) hash_map \<Rightarrow> (string, limit) hash_map \<Rightarrow> (string, limit) hash_map" where
  "create_limits_symbols value_2 tmp_2 =
     fold (\<lambda>(symbol, limit) tmp_2. try_emplace symbol limit tmp_2) value_2 tmp_2"

definition create_limits_exchanges :: "limits_of \<Rightarrow> limits_of \<Rightarrow> limits_of" where
  "create_limits_exchanges value_1 tmp_1 =
     fold (\<lambda>(exchange, value_2) tmp_1.
       AList.update exchange (create_limits_symbols value_2 (find_or [] tmp_1 exchange)) tmp_1)
     value_1 tmp_1"

definition create_limits :: "('k, limits_of) hash_map \<Rightarrow> ('k, limits_of) hash_map" where
  "create_limits limits =
     fold (\<lambda>(name, value_1) result.
       AList.update name (create_limits_exchanges value_1 (find_or [] result name)) result)
     limits []"

definition shared_new ::
    "(string, limits_of) hash_map \<Rightarrow> (string, limits_of) hash_map \<Rightarrow> (u32, limits_of) hash_map \<Rightarrow>
     ('cp, 'cf) shared" where
  "shared_new config_accounts config_users config_strategies =
     \<lparr>next_instrument_id = 0, instrument_lookup = [], instruments = [],
      accounts = create_config config_accounts,
      users = create_config config_users,
      strategies = create_config config_strategies,
      limits_by_account = create_limits config_accounts,
      limits_by_user = create_limits config_users,
      limits_by_strategy = create_limits config_strategies,
      publish_by_account = [], publish_by_user = [], publish_by_strategy = [],
      accounts_by_source = []\<rparr>"

section \<open>Instruments\<close>

text \<open>
  \<^verbatim>\<open>instrument_lookup_\<close> stores \<^verbatim>\<open>int32_t\<close>, the id is a \<^verbatim>\<open>uint32_t\<close>; the conversions between the two
  keep the 32 bits.
\<close>

definition get_instrument_id ::
    "string \<Rightarrow> string \<Rightarrow> ('cp, 'cf) shared \<Rightarrow> u32 \<times> ('cp, 'cf) shared" where
  "get_instrument_id exchange symbol s =
     (let symbols = find_or [] (instrument_lookup s) exchange;
          result = find_or 0 symbols symbol;
          next = (if result = 0 then next_instrument_id s + 1 else next_instrument_id s);
          result = (if result = 0 then next else result)
      in (result,
          s\<lparr>next_instrument_id := next,
            instrument_lookup :=
              AList.update exchange (AList.update symbol result symbols) (instrument_lookup s)\<rparr>))"

definition get_instrument ::
    "roq_api \<Rightarrow> string \<Rightarrow> string \<Rightarrow> ('cp, 'cf) shared \<Rightarrow> instrument \<times> ('cp, 'cf) shared" where
  "get_instrument api exchange symbol s =
     (let (instrument_id, s1) = get_instrument_id exchange symbol s in
      case map_of (instruments s1) instrument_id of
        None \<Rightarrow>
          let ins = instrument_new api instrument_id exchange symbol
          in (ins, s1\<lparr>instruments := AList.update instrument_id ins (instruments s1)\<rparr>)
      | Some ins \<Rightarrow> (ins, s1))"

section \<open>Limits\<close>

definition get_limit ::
    "('k, limits_of) hash_map \<Rightarrow> 'k \<Rightarrow> string \<Rightarrow> string \<Rightarrow> limit" where
  "get_limit limits name exchange symbol =
     (case map_of limits name of
        None \<Rightarrow> default_limit
      | Some tmp_1 \<Rightarrow>
          (case map_of tmp_1 exchange of
             None \<Rightarrow> default_limit
           | Some tmp_2 \<Rightarrow>
               (case map_of tmp_2 symbol of
                  None \<Rightarrow> default_limit
                | Some limit \<Rightarrow> limit)))"

definition get_limit_by_account :: "('cp, 'cf) shared \<Rightarrow> string \<Rightarrow> string \<Rightarrow> string \<Rightarrow> limit" where
  "get_limit_by_account s = get_limit (limits_by_account s)"

definition get_limit_by_user :: "('cp, 'cf) shared \<Rightarrow> string \<Rightarrow> string \<Rightarrow> string \<Rightarrow> limit" where
  "get_limit_by_user s = get_limit (limits_by_user s)"

definition get_limit_by_strategy :: "('cp, 'cf) shared \<Rightarrow> u32 \<Rightarrow> string \<Rightarrow> string \<Rightarrow> limit" where
  "get_limit_by_strategy s = get_limit (limits_by_strategy s)"

section \<open>The publish sets\<close>

text \<open>\<^verbatim>\<open>publish_...(name, instrument_id)\<close> marks one instrument, \<^verbatim>\<open>publish_...(name)\<close> all of them.\<close>

definition publish_account_instrument ::
    "string \<Rightarrow> instrument_id \<Rightarrow> ('cp, 'cf) shared \<Rightarrow> ('cp, 'cf) shared" where
  "publish_account_instrument account instrument_id s =
     s\<lparr>publish_by_account :=
         AList.update account (fst (emplace instrument_id (find_or [] (publish_by_account s) account)))
           (publish_by_account s)\<rparr>"

definition publish_user_instrument ::
    "string \<Rightarrow> instrument_id \<Rightarrow> ('cp, 'cf) shared \<Rightarrow> ('cp, 'cf) shared" where
  "publish_user_instrument user instrument_id s =
     s\<lparr>publish_by_user :=
         AList.update user (fst (emplace instrument_id (find_or [] (publish_by_user s) user)))
           (publish_by_user s)\<rparr>"

definition publish_strategy_instrument ::
    "u32 \<Rightarrow> instrument_id \<Rightarrow> ('cp, 'cf) shared \<Rightarrow> ('cp, 'cf) shared" where
  "publish_strategy_instrument strategy_id instrument_id s =
     s\<lparr>publish_by_strategy :=
         AList.update strategy_id
           (fst (emplace instrument_id (find_or [] (publish_by_strategy s) strategy_id)))
           (publish_by_strategy s)\<rparr>"

definition publish_account :: "string \<Rightarrow> ('cp, 'cf) shared \<Rightarrow> ('cp, 'cf) shared" where
  "publish_account account s =
     s\<lparr>publish_by_account :=
         AList.update account
           (emplace_all (map fst (instruments s)) (find_or [] (publish_by_account s) account))
           (publish_by_account s)\<rparr>"

definition publish_user :: "string \<Rightarrow> ('cp, 'cf) shared \<Rightarrow> ('cp, 'cf) shared" where
  "publish_user user s =
     s\<lparr>publish_by_user :=
         AList.update user
           (emplace_all (map fst (instruments s)) (find_or [] (publish_by_user s) user))
           (publish_by_user s)\<rparr>"

definition publish_strategy :: "u32 \<Rightarrow> ('cp, 'cf) shared \<Rightarrow> ('cp, 'cf) shared" where
  "publish_strategy strategy_id s =
     s\<lparr>publish_by_strategy :=
         AList.update strategy_id
           (emplace_all (map fst (instruments s)) (find_or [] (publish_by_strategy s) strategy_id))
           (publish_by_strategy s)\<rparr>"

text \<open>
  \<^verbatim>\<open>get_publish_by_...\<close> visits the marked instruments and empties the set. The calls of the callback,
  in order, are returned as the list of their arguments.
\<close>

definition pending_positions ::
    "('k, 'k group) hash_map \<Rightarrow> (u32, instrument) hash_map \<Rightarrow> 'k \<Rightarrow> instrument_id list \<Rightarrow>
     (position \<times> instrument) list" where
  "pending_positions groups inss name pending =
     concat (map (\<lambda>instrument_id.
       (case map_of inss instrument_id of
          None \<Rightarrow> []
        | Some instrument \<Rightarrow>
            (case map_of groups name of
               None \<Rightarrow> []
             | Some g \<Rightarrow>
                 (case group_get_position instrument_id g of
                    None \<Rightarrow> []
                  | Some position \<Rightarrow> [(position, instrument)])))) pending)"

definition get_publish_by_account ::
    "string \<Rightarrow> ('cp, 'cf) shared \<Rightarrow> bool \<times> (position \<times> instrument) list \<times> ('cp, 'cf) shared" where
  "get_publish_by_account account s =
     (case map_of (publish_by_account s) account of
        None \<Rightarrow> (False, [], s)
      | Some pending \<Rightarrow>
          (True, pending_positions (accounts s) (instruments s) account pending,
           s\<lparr>publish_by_account := AList.update account [] (publish_by_account s)\<rparr>))"

definition get_publish_by_user ::
    "string \<Rightarrow> ('cp, 'cf) shared \<Rightarrow> bool \<times> (position \<times> instrument) list \<times> ('cp, 'cf) shared" where
  "get_publish_by_user user s =
     (case map_of (publish_by_user s) user of
        None \<Rightarrow> (False, [], s)
      | Some pending \<Rightarrow>
          (True, pending_positions (users s) (instruments s) user pending,
           s\<lparr>publish_by_user := AList.update user [] (publish_by_user s)\<rparr>))"

definition get_publish_by_strategy ::
    "u32 \<Rightarrow> ('cp, 'cf) shared \<Rightarrow> bool \<times> (position \<times> instrument) list \<times> ('cp, 'cf) shared" where
  "get_publish_by_strategy strategy_id s =
     (case map_of (publish_by_strategy s) strategy_id of
        None \<Rightarrow> (False, [], s)
      | Some pending \<Rightarrow>
          (True, pending_positions (strategies s) (instruments s) strategy_id pending,
           s\<lparr>publish_by_strategy := AList.update strategy_id [] (publish_by_strategy s)\<rparr>))"

section \<open>The handlers\<close>

definition account_handler :: "roq_api \<Rightarrow> ('cp, 'cf) shared account_handler" where
  "account_handler api =
     \<lparr>hd_publish = publish_account_instrument, hd_get_instrument = get_instrument api,
      hd_get_limit = get_limit_by_account\<rparr>"

definition user_handler :: "roq_api \<Rightarrow> ('cp, 'cf) shared user_handler" where
  "user_handler api =
     \<lparr>hd_publish = publish_user_instrument, hd_get_instrument = get_instrument api,
      hd_get_limit = get_limit_by_user\<rparr>"

definition strategy_handler :: "roq_api \<Rightarrow> ('cp, 'cf) shared strategy_handler" where
  "strategy_handler api =
     \<lparr>hd_publish = publish_strategy_instrument, hd_get_instrument = get_instrument api,
      hd_get_limit = get_limit_by_strategy\<rparr>"

section \<open>Visiting groups\<close>

text \<open>
  \<^verbatim>\<open>get_account\<close> runs a callback on one account, \<^verbatim>\<open>get_all_accounts\<close> on every one of them in iteration
  order. A callback changes the group it is given and, through the handler, the rest of the state;
  it does not add or remove groups.
\<close>

definition get_account ::
    "string \<Rightarrow> (account \<Rightarrow> ('cp, 'cf) shared \<Rightarrow> account \<times> ('cp, 'cf) shared) \<Rightarrow>
     ('cp, 'cf) shared \<Rightarrow> bool \<times> ('cp, 'cf) shared" where
  "get_account account callback s =
     (case map_of (accounts s) account of
        None \<Rightarrow> (False, s)
      | Some a \<Rightarrow>
          let (a', s') = callback a s
          in (True, s'\<lparr>accounts := AList.update account a' (accounts s')\<rparr>))"

definition get_user ::
    "string \<Rightarrow> (user \<Rightarrow> ('cp, 'cf) shared \<Rightarrow> user \<times> ('cp, 'cf) shared) \<Rightarrow>
     ('cp, 'cf) shared \<Rightarrow> bool \<times> ('cp, 'cf) shared" where
  "get_user user callback s =
     (case map_of (users s) user of
        None \<Rightarrow> (False, s)
      | Some u \<Rightarrow>
          let (u', s') = callback u s
          in (True, s'\<lparr>users := AList.update user u' (users s')\<rparr>))"

definition get_strategy ::
    "u32 \<Rightarrow> (strategy \<Rightarrow> ('cp, 'cf) shared \<Rightarrow> strategy \<times> ('cp, 'cf) shared) \<Rightarrow>
     ('cp, 'cf) shared \<Rightarrow> bool \<times> ('cp, 'cf) shared" where
  "get_strategy strategy_id callback s =
     (case map_of (strategies s) strategy_id of
        None \<Rightarrow> (False, s)
      | Some g \<Rightarrow>
          let (g', s') = callback g s
          in (True, s'\<lparr>strategies := AList.update strategy_id g' (strategies s')\<rparr>))"

definition get_all_accounts ::
    "(account \<Rightarrow> ('cp, 'cf) shared \<Rightarrow> account \<times> ('cp, 'cf) shared) \<Rightarrow>
     ('cp, 'cf) shared \<Rightarrow> ('cp, 'cf) shared" where
  "get_all_accounts callback s =
     fold (\<lambda>name s. snd (get_account name callback s)) (map fst (accounts s)) s"

definition get_all_users ::
    "(user \<Rightarrow> ('cp, 'cf) shared \<Rightarrow> user \<times> ('cp, 'cf) shared) \<Rightarrow>
     ('cp, 'cf) shared \<Rightarrow> ('cp, 'cf) shared" where
  "get_all_users callback s =
     fold (\<lambda>name s. snd (get_user name callback s)) (map fst (users s)) s"

definition get_all_strategys ::
    "(strategy \<Rightarrow> ('cp, 'cf) shared \<Rightarrow> strategy \<times> ('cp, 'cf) shared) \<Rightarrow>
     ('cp, 'cf) shared \<Rightarrow> ('cp, 'cf) shared" where
  "get_all_strategys callback s =
     fold (\<lambda>strategy_id s. snd (get_strategy strategy_id callback s)) (map fst (strategies s)) s"

section \<open>The registry\<close>

definition lookup_id :: "('cp, 'cf) shared \<Rightarrow> string \<Rightarrow> string \<Rightarrow> u32" where
  "lookup_id s exchange symbol = find_or 0 (find_or [] (instrument_lookup s) exchange) symbol"

definition known :: "('cp, 'cf) shared \<Rightarrow> instrument_id \<Rightarrow> (string \<times> string) option" where
  "known s i = map_option (\<lambda>ins. (ins_exchange ins, ins_symbol ins)) (map_of (instruments s) i)"

definition room :: "('cp, 'cf) shared \<Rightarrow> string \<Rightarrow> string \<Rightarrow> bool" where
  "room s e y \<longleftrightarrow> lookup_id s e y \<noteq> 0 \<or> next_instrument_id s \<noteq> - 1"

definition registry_inv :: "('cp, 'cf) shared \<Rightarrow> bool" where
  "registry_inv s \<longleftrightarrow>
     unique_keys (instruments s) \<and>
     (\<forall>e y. lookup_id s e y \<le> next_instrument_id s) \<and>
     (\<forall>e y. lookup_id s e y \<noteq> 0 \<longrightarrow> known s (lookup_id s e y) = Some (e, y)) \<and>
     (\<forall>i ins. map_of (instruments s) i = Some ins \<longrightarrow>
        i \<noteq> 0 \<and> ins_id ins = i \<and> lookup_id s (ins_exchange ins) (ins_symbol ins) = i)"

lemma registry_frame [simp]:
  "known (s\<lparr>publish_by_account := m_publish_by_account\<rparr>) = known s"
  "known (s\<lparr>publish_by_user := m_publish_by_user\<rparr>) = known s"
  "known (s\<lparr>publish_by_strategy := m_publish_by_strategy\<rparr>) = known s"
  "known (s\<lparr>accounts := m_accounts\<rparr>) = known s"
  "known (s\<lparr>users := m_users\<rparr>) = known s"
  "known (s\<lparr>strategies := m_strategies\<rparr>) = known s"
  "known (s\<lparr>accounts_by_source := m_accounts_by_source\<rparr>) = known s"
  by (simp_all add: fun_eq_iff known_def)

lemma registry_inv_frame [simp]:
  "registry_inv (s\<lparr>publish_by_account := m_publish_by_account\<rparr>) = registry_inv s"
  "registry_inv (s\<lparr>publish_by_user := m_publish_by_user\<rparr>) = registry_inv s"
  "registry_inv (s\<lparr>publish_by_strategy := m_publish_by_strategy\<rparr>) = registry_inv s"
  "registry_inv (s\<lparr>accounts := m_accounts\<rparr>) = registry_inv s"
  "registry_inv (s\<lparr>users := m_users\<rparr>) = registry_inv s"
  "registry_inv (s\<lparr>strategies := m_strategies\<rparr>) = registry_inv s"
  "registry_inv (s\<lparr>accounts_by_source := m_accounts_by_source\<rparr>) = registry_inv s"
  by (simp_all add: registry_inv_def lookup_id_def)

lemma room_frame [simp]:
  "room (s\<lparr>publish_by_account := m_publish_by_account\<rparr>) = room s"
  "room (s\<lparr>publish_by_user := m_publish_by_user\<rparr>) = room s"
  "room (s\<lparr>publish_by_strategy := m_publish_by_strategy\<rparr>) = room s"
  "room (s\<lparr>accounts := m_accounts\<rparr>) = room s"
  "room (s\<lparr>users := m_users\<rparr>) = room s"
  "room (s\<lparr>strategies := m_strategies\<rparr>) = room s"
  "room (s\<lparr>accounts_by_source := m_accounts_by_source\<rparr>) = room s"
  by (simp_all add: fun_eq_iff room_def lookup_id_def)

lemma limits_frame [simp]:
  "get_limit_by_account (s\<lparr>publish_by_account := m_publish_by_account\<rparr>) = get_limit_by_account s"
  "get_limit_by_user (s\<lparr>publish_by_account := m_publish_by_account\<rparr>) = get_limit_by_user s"
  "get_limit_by_strategy (s\<lparr>publish_by_account := m_publish_by_account\<rparr>) = get_limit_by_strategy s"
  "get_limit_by_account (s\<lparr>publish_by_user := m_publish_by_user\<rparr>) = get_limit_by_account s"
  "get_limit_by_user (s\<lparr>publish_by_user := m_publish_by_user\<rparr>) = get_limit_by_user s"
  "get_limit_by_strategy (s\<lparr>publish_by_user := m_publish_by_user\<rparr>) = get_limit_by_strategy s"
  "get_limit_by_account (s\<lparr>publish_by_strategy := m_publish_by_strategy\<rparr>) = get_limit_by_account s"
  "get_limit_by_user (s\<lparr>publish_by_strategy := m_publish_by_strategy\<rparr>) = get_limit_by_user s"
  "get_limit_by_strategy (s\<lparr>publish_by_strategy := m_publish_by_strategy\<rparr>) = get_limit_by_strategy s"
  "get_limit_by_account (s\<lparr>accounts := m_accounts\<rparr>) = get_limit_by_account s"
  "get_limit_by_user (s\<lparr>accounts := m_accounts\<rparr>) = get_limit_by_user s"
  "get_limit_by_strategy (s\<lparr>accounts := m_accounts\<rparr>) = get_limit_by_strategy s"
  "get_limit_by_account (s\<lparr>users := m_users\<rparr>) = get_limit_by_account s"
  "get_limit_by_user (s\<lparr>users := m_users\<rparr>) = get_limit_by_user s"
  "get_limit_by_strategy (s\<lparr>users := m_users\<rparr>) = get_limit_by_strategy s"
  "get_limit_by_account (s\<lparr>strategies := m_strategies\<rparr>) = get_limit_by_account s"
  "get_limit_by_user (s\<lparr>strategies := m_strategies\<rparr>) = get_limit_by_user s"
  "get_limit_by_strategy (s\<lparr>strategies := m_strategies\<rparr>) = get_limit_by_strategy s"
  "get_limit_by_account (s\<lparr>accounts_by_source := m_accounts_by_source\<rparr>) = get_limit_by_account s"
  "get_limit_by_user (s\<lparr>accounts_by_source := m_accounts_by_source\<rparr>) = get_limit_by_user s"
  "get_limit_by_strategy (s\<lparr>accounts_by_source := m_accounts_by_source\<rparr>) = get_limit_by_strategy s"
  by (simp_all add: fun_eq_iff get_limit_by_account_def get_limit_by_user_def
      get_limit_by_strategy_def)

lemma find_or_nonzero_update: "find_or 0 m k \<noteq> 0 \<Longrightarrow> AList.update k (find_or 0 m k) m = m"
  by (rule AList.update_triv) (simp add: find_or_def split: option.splits)

lemma registry_instrument:
  assumes "registry_inv s" "map_of (instruments s) i = Some ins"
  shows "i \<noteq> 0" "ins_id ins = i" "lookup_id s (ins_exchange ins) (ins_symbol ins) = i"
  using assms unfolding registry_inv_def by blast+

lemma get_instrument_id_known:
  assumes "lookup_id s e y \<noteq> 0"
  shows "get_instrument_id e y s = (lookup_id s e y, s)"
proof -
  let ?symbols = "find_or [] (instrument_lookup s) e"
  have "map_of (instrument_lookup s) e = Some ?symbols"
    using assms by (auto simp: lookup_id_def find_or_def split: option.splits)
  then have "AList.update e ?symbols (instrument_lookup s) = instrument_lookup s"
    by (rule AList.update_triv)
  then show ?thesis
    using assms by (simp add: get_instrument_id_def lookup_id_def Let_def find_or_nonzero_update)
qed

lemma get_instrument_known:
  assumes "registry_inv s" "lookup_id s e y \<noteq> 0"
  obtains ins where "get_instrument api e y s = (ins, s)" "ins_id ins = lookup_id s e y"
    "ins_exchange ins = e" "ins_symbol ins = y" "map_of (instruments s) (ins_id ins) = Some ins"
proof -
  have "known s (lookup_id s e y) = Some (e, y)" using assms by (simp add: registry_inv_def)
  then obtain ins where ins: "map_of (instruments s) (lookup_id s e y) = Some ins"
    "ins_exchange ins = e" "ins_symbol ins = y"
    by (auto simp: known_def)
  moreover from ins have "ins_id ins = lookup_id s e y" using assms(1) by (simp add: registry_inv_def)
  moreover from ins have "get_instrument api e y s = (ins, s)"
    by (simp add: get_instrument_def get_instrument_id_known [OF assms(2)])
  ultimately show thesis by (intro that [of ins]) simp_all
qed

definition register :: "roq_api \<Rightarrow> string \<Rightarrow> string \<Rightarrow> ('cp, 'cf) shared \<Rightarrow> ('cp, 'cf) shared" where
  "register api e y s =
     (let n = next_instrument_id s + 1 in
      s\<lparr>next_instrument_id := n,
        instrument_lookup :=
          AList.update e (AList.update y n (find_or [] (instrument_lookup s) e)) (instrument_lookup s),
        instruments := AList.update n (instrument_new api n e y) (instruments s)\<rparr>)"

lemma room_less:
  assumes "next_instrument_id s \<noteq> - 1"
  shows "next_instrument_id s < next_instrument_id s + 1"
proof -
  have "1 + next_instrument_id s \<noteq> 0"
    using assms max_word_wrap [of "next_instrument_id s"] by (auto simp: add.commute)
  from unatSuc [OF this] show ?thesis by (simp add: word_less_nat_alt add.commute)
qed

lemma fresh_id:
  assumes "registry_inv s" "next_instrument_id s \<noteq> - 1" "map_of (instruments s) i = Some ins"
  shows "i \<noteq> next_instrument_id s + 1"
proof
  assume eq: "i = next_instrument_id s + 1"
  have "lookup_id s (ins_exchange ins) (ins_symbol ins) = i"
    using assms(1,3) by (simp add: registry_inv_def)
  then have "next_instrument_id s + 1 \<le> next_instrument_id s"
    using assms(1) eq unfolding registry_inv_def by metis
  then show False using room_less [OF assms(2)] by simp
qed

lemma fresh_id_None:
  "registry_inv s \<Longrightarrow> next_instrument_id s \<noteq> - 1 \<Longrightarrow>
     map_of (instruments s) (next_instrument_id s + 1) = None"
  using fresh_id [of s "next_instrument_id s + 1"]
  by (cases "map_of (instruments s) (next_instrument_id s + 1)") auto

lemma get_instrument_fresh:
  assumes "registry_inv s" "next_instrument_id s \<noteq> - 1" "lookup_id s e y = 0"
  shows "get_instrument api e y s =
    (instrument_new api (next_instrument_id s + 1) e y, register api e y s)"
  using assms fresh_id_None [OF assms(1,2)]
  by (simp add: get_instrument_def get_instrument_id_def register_def lookup_id_def Let_def)

lemma lookup_id_register:
  "lookup_id (register api e y s) e' y' =
     (if e' = e \<and> y' = y then next_instrument_id s + 1 else lookup_id s e' y')"
  by (simp add: lookup_id_def register_def Let_def)

lemma known_register:
  "known (register api e y s) i =
     (if i = next_instrument_id s + 1 then Some (e, y) else known s i)"
  by (simp add: known_def register_def Let_def instrument_new_def)

lemma registry_inv_register:
  assumes "registry_inv s" "next_instrument_id s \<noteq> - 1" "lookup_id s e y = 0"
  shows "registry_inv (register api e y s)"
proof -
  let ?n = "next_instrument_id s + 1"
  note less = room_less [OF assms(2)] and fresh = fresh_id [OF assms(1,2)]
  have nz: "?n \<noteq> 0" using less by (metis word_not_simps(1))
  have not_n: "lookup_id s e' y' \<noteq> ?n" for e' y'
    using assms(1) less unfolding registry_inv_def by (metis leD)
  have "map_of (instruments (register api e y s)) i =
      (if i = ?n then Some (instrument_new api ?n e y) else map_of (instruments s) i)" for i
    by (simp add: register_def Let_def)
  moreover have "lookup_id s e' y' \<le> ?n" for e' y'
    using assms(1) less unfolding registry_inv_def by (meson less_imp_le order_trans)
  moreover have "next_instrument_id (register api e y s) = ?n"
    "unique_keys (instruments (register api e y s))"
    using assms(1) by (simp_all add: register_def Let_def registry_inv_def)
  ultimately show ?thesis
    using assms(1,3) nz not_n unfolding registry_inv_def
    by (auto simp: lookup_id_register known_register instrument_new_def split: if_splits)
qed

lemma get_instrument_frame [simp]:
  fixes s :: "('cp, 'cf) shared"
  defines "s' \<equiv> \<lambda>api e y. snd (get_instrument api e y s)"
  shows "accounts (s' api e y) = accounts s" "users (s' api e y) = users s"
    "strategies (s' api e y) = strategies s"
    "limits_by_account (s' api e y) = limits_by_account s"
    "limits_by_user (s' api e y) = limits_by_user s"
    "limits_by_strategy (s' api e y) = limits_by_strategy s"
    "publish_by_account (s' api e y) = publish_by_account s"
    "publish_by_user (s' api e y) = publish_by_user s"
    "publish_by_strategy (s' api e y) = publish_by_strategy s"
    "accounts_by_source (s' api e y) = accounts_by_source s"
  by (simp_all add: s'_def get_instrument_def get_instrument_id_def Let_def split: option.split)

lemma get_instrument_registry:
  assumes "registry_inv s" "room s e y" "get_instrument api e y s = (ins, s')"
  shows "registry_inv s'" "known s' (ins_id ins) = Some (e, y)"
    "known s i = Some ey \<Longrightarrow> known s' i = Some ey"
    "ins_id ins = lookup_id s' e y" "map_of (instruments s') (ins_id ins) = Some ins"
    "ins_exchange ins = e" "ins_symbol ins = y"
proof -
  have "registry_inv s' \<and> known s' (ins_id ins) = Some (e, y) \<and>
    (known s i = Some ey \<longrightarrow> known s' i = Some ey) \<and>
    ins_id ins = lookup_id s' e y \<and> map_of (instruments s') (ins_id ins) = Some ins \<and>
    ins_exchange ins = e \<and> ins_symbol ins = y"
  proof (cases "lookup_id s e y = 0")
    case True
    with assms(2) have more: "next_instrument_id s \<noteq> - 1" by (simp add: room_def)
    with True assms have eq: "ins = instrument_new api (next_instrument_id s + 1) e y"
      "s' = register api e y s"
      by (simp_all add: get_instrument_fresh)
    have new: "map_of (instruments (register api e y s)) (next_instrument_id s + 1) =
        Some (instrument_new api (next_instrument_id s + 1) e y)"
      by (simp add: register_def Let_def)
    have names: "ins_id ins = next_instrument_id s + 1" "ins_exchange ins = e" "ins_symbol ins = y"
      by (simp_all add: eq(1) instrument_new_def)
    have "known s (next_instrument_id s + 1) = None"
      by (simp add: known_def fresh_id_None [OF assms(1) more])
    then have "known s i = Some ey \<Longrightarrow> i \<noteq> next_instrument_id s + 1" by auto
    then show ?thesis
      using registry_inv_register [OF assms(1) more True, of api] new
      unfolding eq(2) names known_register lookup_id_register by (simp add: eq(1))
  next
    case False
    from get_instrument_known [OF assms(1) this, of api] obtain ins'
      where "get_instrument api e y s = (ins', s)" "ins_id ins' = lookup_id s e y"
        "ins_exchange ins' = e" "ins_symbol ins' = y"
        "map_of (instruments s) (ins_id ins') = Some ins'" .
    with assms(1,3) show ?thesis by (simp add: known_def)
  qed
  then show "registry_inv s'" "known s' (ins_id ins) = Some (e, y)"
    "known s i = Some ey \<Longrightarrow> known s' i = Some ey"
    "ins_id ins = lookup_id s' e y" "map_of (instruments s') (ins_id ins) = Some ins"
    "ins_exchange ins = e" "ins_symbol ins = y"
    by blast+
qed

section \<open>The invariant of the shared state\<close>

definition pending_ok ::
    "(instrument_id \<Rightarrow> (string \<times> string) option) \<Rightarrow> ('k, instrument_id list) hash_map \<Rightarrow> bool" where
  "pending_ok knw m \<longleftrightarrow>
     unique_keys m \<and>
     (\<forall>k pending. map_of m k = Some pending \<longrightarrow> distinct pending \<and> (\<forall>i \<in> set pending. knw i \<noteq> None))"

definition shared_inv :: "('cp, 'cf) shared \<Rightarrow> bool" where
  "shared_inv s \<longleftrightarrow>
     registry_inv s \<and>
     pending_ok (known s) (publish_by_account s) \<and>
     pending_ok (known s) (publish_by_user s) \<and>
     pending_ok (known s) (publish_by_strategy s) \<and>
     groups_ok (known s) (get_limit_by_account s) (accounts s) \<and>
     groups_ok (known s) (get_limit_by_user s) (users s) \<and>
     groups_ok (known s) (get_limit_by_strategy s) (strategies s)"

lemma pending_ok_Nil [simp]: "pending_ok knw []"
  by (simp add: pending_ok_def)

lemma pending_ok_mono:
  "pending_ok knw m \<Longrightarrow> (\<And>i ey. knw i = Some ey \<Longrightarrow> knw' i = Some ey) \<Longrightarrow> pending_ok knw' m"
  unfolding pending_ok_def by fastforce

lemma pending_ok_update:
  assumes "pending_ok knw m" "distinct pending" "\<And>i. i \<in> set pending \<Longrightarrow> knw i \<noteq> None"
  shows "pending_ok knw (AList.update k pending m)"
  using assms by (auto simp: pending_ok_def)

lemma pending_ok_find_or:
  assumes "pending_ok knw m"
  shows "distinct (find_or [] m k)" "i \<in> set (find_or [] m k) \<Longrightarrow> knw i \<noteq> None"
  using assms by (cases "map_of m k"; fastforce simp: pending_ok_def find_or_def)+

text \<open>
  Growing the registry, keeping everything else, keeps the invariant.
\<close>

lemma shared_inv_get_instrument:
  assumes "shared_inv s" "room s e y" "get_instrument api e y s = (ins, s')"
  shows "shared_inv s'"
proof -
  have reg: "registry_inv s" using assms(1) by (simp add: shared_inv_def)
  note mono = get_instrument_registry(3) [OF reg assms(2,3)]
  have s': "s' = snd (get_instrument api e y s)" by (simp add: assms(3))
  have limits: "get_limit_by_account s' = get_limit_by_account s"
    "get_limit_by_user s' = get_limit_by_user s" "get_limit_by_strategy s' = get_limit_by_strategy s"
    by (simp_all add: s' fun_eq_iff get_limit_by_account_def get_limit_by_user_def
        get_limit_by_strategy_def)
  have rest: "publish_by_account s' = publish_by_account s" "publish_by_user s' = publish_by_user s"
    "publish_by_strategy s' = publish_by_strategy s" "accounts s' = accounts s" "users s' = users s"
    "strategies s' = strategies s"
    by (simp_all add: s')
  show ?thesis
    using assms(1) get_instrument_registry(1) [OF reg assms(2,3)] unfolding shared_inv_def limits rest
    by (blast intro: pending_ok_mono groups_ok_mono mono)
qed

lemma shared_inv_registry: "shared_inv s \<Longrightarrow> registry_inv s"
  by (simp add: shared_inv_def)

lemma publish_instrument_frame [simp]:
  "known (publish_account_instrument k i s) = known s"
  "known (publish_user_instrument k i s) = known s"
  "known (publish_strategy_instrument n i s) = known s"
  "room (publish_account_instrument k i s) = room s"
  "room (publish_user_instrument k i s) = room s"
  "room (publish_strategy_instrument n i s) = room s"
  "accounts (publish_account_instrument k i s) = accounts s"
  "users (publish_user_instrument k i s) = users s"
  "strategies (publish_strategy_instrument n i s) = strategies s"
  "get_limit_by_account (publish_account_instrument k i s) = get_limit_by_account s"
  "get_limit_by_user (publish_user_instrument k i s) = get_limit_by_user s"
  "get_limit_by_strategy (publish_strategy_instrument n i s) = get_limit_by_strategy s"
  by (simp_all add: publish_account_instrument_def publish_user_instrument_def
      publish_strategy_instrument_def)

lemma shared_inv_update:
  assumes "shared_inv s"
  shows "pending_ok (known s) pending \<Longrightarrow> shared_inv (s\<lparr>publish_by_account := pending\<rparr>)"
    "pending_ok (known s) pending \<Longrightarrow> shared_inv (s\<lparr>publish_by_user := pending\<rparr>)"
    "pending_ok (known s) pending' \<Longrightarrow> shared_inv (s\<lparr>publish_by_strategy := pending'\<rparr>)"
    "groups_ok (known s) (get_limit_by_account s) g \<Longrightarrow> shared_inv (s\<lparr>accounts := g\<rparr>)"
    "groups_ok (known s) (get_limit_by_user s) g \<Longrightarrow> shared_inv (s\<lparr>users := g\<rparr>)"
    "groups_ok (known s) (get_limit_by_strategy s) g' \<Longrightarrow> shared_inv (s\<lparr>strategies := g'\<rparr>)"
    "shared_inv (s\<lparr>accounts_by_source := c\<rparr>)"
  using assms by (simp_all add: shared_inv_def)

lemma shared_invD:
  assumes "shared_inv s"
  shows "registry_inv s"
    "pending_ok (known s) (publish_by_account s)" "pending_ok (known s) (publish_by_user s)"
    "pending_ok (known s) (publish_by_strategy s)"
    "groups_ok (known s) (get_limit_by_account s) (accounts s)"
    "groups_ok (known s) (get_limit_by_user s) (users s)"
    "groups_ok (known s) (get_limit_by_strategy s) (strategies s)"
  using assms by (simp_all add: shared_inv_def)

lemma pending_ok_emplace:
  assumes "pending_ok knw m" "knw i \<noteq> None"
  shows "pending_ok knw (AList.update k (fst (emplace i (find_or [] m k))) m)"
  using assms pending_ok_find_or [OF assms(1)] by (intro pending_ok_update) auto

lemma shared_inv_publish_instrument:
  assumes "shared_inv s" "known s i \<noteq> None"
  shows "shared_inv (publish_account_instrument k i s)"
    "shared_inv (publish_user_instrument k i s)"
    "shared_inv (publish_strategy_instrument n i s)"
  unfolding publish_account_instrument_def publish_user_instrument_def publish_strategy_instrument_def
  by (rule shared_inv_update [OF assms(1)], rule pending_ok_emplace, rule shared_invD [OF assms(1)],
      rule assms(2))+

text \<open>\<^verbatim>\<open>Shared\<close> provides the handler of all three groups.\<close>

lemma get_limit_frame:
  assumes "get_instrument api e y s = (ins, s')"
  shows "get_limit_by_account s' = get_limit_by_account s"
    "get_limit_by_user s' = get_limit_by_user s" "get_limit_by_strategy s' = get_limit_by_strategy s"
proof -
  have "s' = snd (get_instrument api e y s)" by (simp add: assms)
  then show "get_limit_by_account s' = get_limit_by_account s"
    "get_limit_by_user s' = get_limit_by_user s" "get_limit_by_strategy s' = get_limit_by_strategy s"
    by (simp_all add: fun_eq_iff get_limit_by_account_def get_limit_by_user_def
        get_limit_by_strategy_def)
qed

lemma get_instrument_room:
  assumes "registry_inv s" "room s e y" "get_instrument api e y s = (ins, s')"
  shows "room s' e y"
proof -
  note reg = get_instrument_registry [OF assms]
  have "ins_id ins \<noteq> 0" by (rule registry_instrument(1) [OF reg(1,5)])
  then show ?thesis using reg(4) by (simp add: room_def)
qed

lemma known_injective:
  assumes "registry_inv s" "known s i = Some ey" "known s j = Some ey"
  shows "i = j"
proof -
  have "lookup_id s (fst ey) (snd ey) = k" if "known s k = Some ey" for k
    using that registry_instrument(3) [OF assms(1)] by (auto simp: known_def)
  with assms(2,3) show ?thesis by metis
qed

interpretation account_table: group_table "account_handler api" known shared_inv room
  accounts "\<lambda>m. accounts_update (\<lambda>_. m)" get_account get_all_accounts for api
proof (unfold_locales, unfold account_handler_def handler.select_convs, goal_cases)
  case 1 then show ?case by (rule shared_inv_get_instrument)
next
  case 2 then show ?case by (rule get_instrument_room [OF shared_inv_registry])
next
  case 3 then show ?case by (rule get_instrument_registry(2) [OF shared_inv_registry])
next
  case 4 then show ?case by (rule get_instrument_registry(3) [OF shared_inv_registry])
next
  case 5 then show ?case by (rule get_limit_frame(1))
next
  case 6 then show ?case by (rule known_injective [OF shared_inv_registry])
next
  case 7 then show ?case by (rule shared_inv_publish_instrument(1))
next
  case 11 then show ?case by (rule shared_invD(5))
next
  case 12 then show ?case by (rule shared_inv_update(4))
next
  case 17 then show ?case using get_instrument_frame(1) by (metis snd_conv)
next
  case 19 show ?case by (simp add: get_account_def Let_def split_beta split: option.split)
next
  case 20 show ?case by (simp add: get_all_accounts_def)
qed simp_all

interpretation user_table: group_table "user_handler api" known shared_inv room
  users "\<lambda>m. users_update (\<lambda>_. m)" get_user get_all_users for api
proof (unfold_locales, unfold user_handler_def handler.select_convs, goal_cases)
  case 1 then show ?case by (rule shared_inv_get_instrument)
next
  case 2 then show ?case by (rule get_instrument_room [OF shared_inv_registry])
next
  case 3 then show ?case by (rule get_instrument_registry(2) [OF shared_inv_registry])
next
  case 4 then show ?case by (rule get_instrument_registry(3) [OF shared_inv_registry])
next
  case 5 then show ?case by (rule get_limit_frame(2))
next
  case 6 then show ?case by (rule known_injective [OF shared_inv_registry])
next
  case 7 then show ?case by (rule shared_inv_publish_instrument(2))
next
  case 11 then show ?case by (rule shared_invD(6))
next
  case 12 then show ?case by (rule shared_inv_update(5))
next
  case 17 then show ?case using get_instrument_frame(2) by (metis snd_conv)
next
  case 19 show ?case by (simp add: get_user_def Let_def split_beta split: option.split)
next
  case 20 show ?case by (simp add: get_all_users_def)
qed simp_all

interpretation strategy_table: group_table "strategy_handler api" known shared_inv room
  strategies "\<lambda>m. strategies_update (\<lambda>_. m)" get_strategy get_all_strategys for api
proof (unfold_locales, unfold strategy_handler_def handler.select_convs, goal_cases)
  case 1 then show ?case by (rule shared_inv_get_instrument)
next
  case 2 then show ?case by (rule get_instrument_room [OF shared_inv_registry])
next
  case 3 then show ?case by (rule get_instrument_registry(2) [OF shared_inv_registry])
next
  case 4 then show ?case by (rule get_instrument_registry(3) [OF shared_inv_registry])
next
  case 5 then show ?case by (rule get_limit_frame(3))
next
  case 6 then show ?case by (rule known_injective [OF shared_inv_registry])
next
  case 7 then show ?case by (rule shared_inv_publish_instrument(3))
next
  case 11 then show ?case by (rule shared_invD(7))
next
  case 12 then show ?case by (rule shared_inv_update(6))
next
  case 17 then show ?case using get_instrument_frame(3) by (metis snd_conv)
next
  case 19 show ?case by (simp add: get_strategy_def Let_def split_beta split: option.split)
next
  case 20 show ?case by (simp add: get_all_strategys_def)
qed simp_all

section \<open>Properties of the registry\<close>


text \<open>
  C16: Two instruments share an id only if they have the same exchange and the same symbol, however
  many other instruments are created in between.
\<close>

theorem instrument_ids_injective:
  assumes "shared_inv s" "room s e y" "get_instrument api e y s = (ins, s1)"
    and "shared_inv s2" "\<And>i ey. known s1 i = Some ey \<Longrightarrow> known s2 i = Some ey"
    and "room s2 e' y'" "get_instrument api e' y' s2 = (ins', s3)"
  shows "ins_id ins = ins_id ins' \<longleftrightarrow> e = e' \<and> y = y'"
proof -
  note r1 = get_instrument_registry [OF shared_inv_registry [OF assms(1)] assms(2,3)]
    and r3 = get_instrument_registry [OF shared_inv_registry [OF assms(4)] assms(6,7)]
  have k: "known s3 (ins_id ins) = Some (e, y)" using r1(2) assms(5) r3(3) by blast
  show ?thesis
  proof
    assume "ins_id ins = ins_id ins'"
    with k r3(2) show "e = e' \<and> y = y'" by simp
  next
    assume "e = e' \<and> y = y'"
    with k r3(2) show "ins_id ins = ins_id ins'" using known_injective [OF r3(1)] by blast
  qed
qed

section \<open>The start\<close>

lemma fold_update_map_of:
  assumes "unique_keys xs" "set (map fst xs) \<inter> set (map fst acc) = {}"
  shows "map_of (fold (\<lambda>(k, v) r. AList.update k (f v (find_or d r k)) r) xs acc) k =
    (case map_of xs k of None \<Rightarrow> map_of acc k | Some v \<Rightarrow> Some (f v d))"
  using assms
proof (induction xs arbitrary: acc)
  case (Cons x xs)
  obtain k0 v0 where x: "x = (k0, v0)" by fastforce
  from Cons.prems have k0: "map_of acc k0 = None" "map_of xs k0 = None"
    by (auto simp: x map_of_eq_None_iff unique_keys_def)
  have "map_of (fold (\<lambda>(k, v) r. AList.update k (f v (find_or d r k)) r) xs
      (AList.update k0 (f v0 d) acc)) k =
    (case map_of xs k of None \<Rightarrow> map_of (AList.update k0 (f v0 d) acc) k | Some v \<Rightarrow> Some (f v d))"
    using Cons.prems by (intro Cons.IH) (auto simp: x unique_keys_def AList.dom_update)
  with k0 show ?case by (auto simp: x find_or_def split: option.split)
qed simp

lemma fold_try_emplace_map_of:
  "map_of (fold (\<lambda>(k, v) r. try_emplace k (f k v) r) xs acc) k =
    (case map_of acc k of Some v \<Rightarrow> Some v | None \<Rightarrow> map_option (f k) (map_of xs k))"
  by (induction xs arbitrary: acc)
    (auto simp: map_of_try_emplace find_or_def split: option.split)

lemma unique_keys_fold_try_emplace:
  "unique_keys acc \<Longrightarrow> unique_keys (fold (\<lambda>(k, v) r. try_emplace k (f k v) r) xs acc)"
  by (induction xs arbitrary: acc) auto

lemma map_of_create_config:
  "map_of (create_config config) k = map_option (\<lambda>_. group_new k) (map_of config k)"
  using fold_try_emplace_map_of [of "\<lambda>k _. group_new k" config "[]" k] by (simp add: create_config_def)

lemma unique_create_config: "unique_keys (create_config config)"
  using unique_keys_fold_try_emplace [of "[]" "\<lambda>k _. group_new k" config]
  by (simp add: create_config_def)

definition unique_limits :: "('k, limits_of) hash_map \<Rightarrow> bool" where
  "unique_limits c \<longleftrightarrow>
     unique_keys c \<and> (\<forall>(k, v) \<in> set c. unique_keys v \<and> (\<forall>(e, w) \<in> set v. unique_keys w))"

lemma map_of_create_limits_symbols: "map_of (create_limits_symbols w []) y = map_of w y"
  using fold_try_emplace_map_of [of "\<lambda>_ l. l" w "[]" y] by (simp add: create_limits_symbols_def option.map_ident)

lemma map_of_create_limits_exchanges:
  "unique_keys v \<Longrightarrow> map_of (create_limits_exchanges v []) e =
     map_option (\<lambda>w. create_limits_symbols w []) (map_of v e)"
  using fold_update_map_of [of v "[]" create_limits_symbols "[]" e]
  by (simp add: create_limits_exchanges_def split: option.split)

lemma map_of_create_limits:
  "unique_keys c \<Longrightarrow> map_of (create_limits c) k =
     map_option (\<lambda>v. create_limits_exchanges v []) (map_of c k)"
  using fold_update_map_of [of c "[]" create_limits_exchanges "[]" k]
  by (simp add: create_limits_def split: option.split)

lemma get_limit_create_limits:
  assumes "unique_limits c"
  shows "get_limit (create_limits c) k e y = get_limit c k e y"
proof (cases "map_of c k")
  case (Some v)
  then have "unique_keys v" using assms by (auto simp: unique_limits_def dest!: map_of_SomeD)
  with assms Some show ?thesis
    by (simp add: get_limit_def unique_limits_def map_of_create_limits map_of_create_limits_exchanges
        map_of_create_limits_symbols split: option.split)
qed (use assms in \<open>simp add: get_limit_def unique_limits_def map_of_create_limits\<close>)

definition sample_config :: "(string, limits_of) hash_map" where
  "sample_config =
     [(''A1'', [(''deribit'', [(''BTC-PERPETUAL'',
         default_limit\<lparr>lim_long_position_limit := grid one_exp 10,
                       lim_short_position_limit := grid one_exp 5, lim_allow_netting := True\<rparr>),
        (''ETH-PERPETUAL'', default_limit\<lparr>lim_long_position_limit := grid one_exp 2\<rparr>)])])]"

lemma groups_ok_create_config: "groups_ok knw lmt (create_config config)"
  by (auto simp: groups_ok_def unique_create_config map_of_create_config group_new_def positions_inv_def)

lemma shared_inv_new: "shared_inv (shared_new a u t)"
  by (simp add: shared_inv_def shared_new_def registry_inv_def lookup_id_def known_def
      groups_ok_create_config)

lemma room_new: "room (shared_new a u t) e y"
  by (simp add: room_def shared_new_def)


theorem instrument_ids_injective_witness:
  "ins_id (fst (get_instrument sample_api ''deribit'' ''BTC-PERPETUAL''
       (shared_new [] [] [] :: (unit, unit) shared))) \<noteq>
   ins_id (fst (get_instrument sample_api ''deribit'' ''ETH-PERPETUAL''
     (snd (get_instrument sample_api ''deribit'' ''BTC-PERPETUAL''
       (shared_new [] [] [] :: (unit, unit) shared)))))"
proof -
  let ?get = "get_instrument sample_api ''deribit'' :: _ \<Rightarrow> (unit, unit) shared \<Rightarrow> _"
  let ?s = "shared_new [] [] [] :: (unit, unit) shared"
  let ?s1 = "snd (?get ''BTC-PERPETUAL'' ?s)"
  have 1: "?get ''BTC-PERPETUAL'' ?s = (fst (?get ''BTC-PERPETUAL'' ?s), ?s1)" by simp
  have 2: "?get ''ETH-PERPETUAL'' ?s1 =
    (fst (?get ''ETH-PERPETUAL'' ?s1), snd (?get ''ETH-PERPETUAL'' ?s1))" by simp
  have inv: "shared_inv ?s1" by (rule shared_inv_get_instrument [OF shared_inv_new room_new 1])
  have "next_instrument_id ?s1 = 1"
    by (simp add: get_instrument_def get_instrument_id_def shared_new_def Let_def)
  then have "room ?s1 ''deribit'' ''ETH-PERPETUAL''" by (simp add: room_def)
  from instrument_ids_injective [OF shared_inv_new room_new 1 inv _ this 2] show ?thesis by simp
qed

section \<open>Publishing\<close>

lemma pending_ok_emplace_all:
  assumes "pending_ok knw m" "\<And>i. i \<in> set is \<Longrightarrow> knw i \<noteq> None"
  shows "pending_ok knw (AList.update j (emplace_all is (find_or [] m j)) m)"
  using assms pending_ok_find_or [OF assms(1), where k = j] by (intro pending_ok_update) auto

lemma shared_inv_publish:
  assumes "shared_inv s"
  shows "shared_inv (publish_account k s)" "shared_inv (publish_user k s)"
    "shared_inv (publish_strategy n s)"
proof -
  have known: "known s i \<noteq> None" if "i \<in> set (map fst (instruments s))" for i
    using that by (auto simp: known_def map_of_eq_None_iff)
  show "shared_inv (publish_account k s)" "shared_inv (publish_user k s)"
    "shared_inv (publish_strategy n s)"
    unfolding publish_account_def publish_user_def publish_strategy_def
    by (rule shared_inv_update [OF assms], rule pending_ok_emplace_all,
        rule shared_invD [OF assms], rule known, assumption)+
qed

lemma get_publish_eq:
  "get_publish_by_account k s =
     (map_of (publish_by_account s) k \<noteq> None,
      pending_positions (accounts s) (instruments s) k (find_or [] (publish_by_account s) k),
      if map_of (publish_by_account s) k = None then s
      else s\<lparr>publish_by_account := AList.update k [] (publish_by_account s)\<rparr>)"
  "get_publish_by_user k s =
     (map_of (publish_by_user s) k \<noteq> None,
      pending_positions (users s) (instruments s) k (find_or [] (publish_by_user s) k),
      if map_of (publish_by_user s) k = None then s
      else s\<lparr>publish_by_user := AList.update k [] (publish_by_user s)\<rparr>)"
  by (simp_all add: get_publish_by_account_def get_publish_by_user_def find_or_def
      pending_positions_def split: option.split)

lemma shared_inv_get_publish:
  assumes "shared_inv s"
  shows "shared_inv (snd (snd (get_publish_by_account k s)))"
    "shared_inv (snd (snd (get_publish_by_user k s)))"
  using assms by (auto simp: get_publish_eq intro!: shared_inv_update pending_ok_update dest: shared_invD)

lemma pending_positions_Nil [simp]: "pending_positions gs inss k [] = []"
  by (simp add: pending_positions_def)

lemma set_pending_positions:
  assumes "map_of gs k = Some g"
  shows "set (pending_positions gs inss k pending) =
    {(p, ins). \<exists>i \<in> set pending. group_get_position i g = Some p \<and> map_of inss i = Some ins}"
  by (auto simp: pending_positions_def assms split: option.splits)

lemma pending_positions_subset:
  assumes "registry_inv s" "(p, ins) \<in> set (pending_positions gs (instruments s) k pending)"
  shows "ins_id ins \<in> set pending"
  using assms(2) registry_instrument(2) [OF assms(1)]
  by (auto simp: pending_positions_def split: option.splits)

lemma pending_positions_distinct:
  assumes "registry_inv s" "distinct pending"
  shows "distinct (map (ins_id \<circ> snd) (pending_positions gs (instruments s) k pending))"
  using assms(2)
proof (induction pending)
  case (Cons i pending)
  let ?rest = "pending_positions gs (instruments s) k pending"
  have "pending_positions gs (instruments s) k (i # pending) =
      pending_positions gs (instruments s) k [i] @ ?rest"
    by (simp add: pending_positions_def)
  moreover have "pending_positions gs (instruments s) k [i] = [] \<or>
      (\<exists>p ins. pending_positions gs (instruments s) k [i] = [(p, ins)] \<and> ins_id ins = i)"
    using registry_instrument(2) [OF assms(1)] by (auto simp: pending_positions_def split: option.splits)
  moreover have "i \<notin> (ins_id \<circ> snd) ` set ?rest"
    using Cons.prems pending_positions_subset [OF assms(1)] by fastforce
  ultimately show ?case using Cons by (force simp: image_iff)
qed simp

end
