(* ===== verification/Visits.thy ===== *)
theory Visits
  imports Shared
begin

text \<open>
  What one visit of an account or a user, as the controller makes them, does to the shared state:
  the invariant is kept, the registry grows by at most the one instrument of the event, the other
  table and the limits stay as they are, and exactly one position changes.
\<close>

lemma handler_simps:
  "hd_publish (account_handler api) = publish_account_instrument"
  "hd_publish (user_handler api) = publish_user_instrument"
  "hd_get_instrument (account_handler api) = get_instrument api"
  "hd_get_instrument (user_handler api) = get_instrument api"
  "hd_get_limit (account_handler api) = get_limit_by_account"
  "hd_get_limit (user_handler api) = get_limit_by_user"
  by (simp_all add: account_handler_def user_handler_def)

section \<open>Invariant\<close>

text \<open>
  The operations of the groups, run through the tables of the shared state, keep its invariant.
\<close>

lemma account_visits:
  "account_trade_update api (account_handler api) tu = (\<lambda>g. group_dispatch (account_handler api) (tu_exchange tu)
     (tu_symbol tu) (position_trade_update api tu) (\<lambda>i. hd_publish (account_handler api) (grp_name g) i) g)"
  "account_load (account_handler api) row = (\<lambda>g. group_dispatch (account_handler api) (dbp_exchange row)
     (dbp_symbol row) (position_load row) (\<lambda>_ s. s) g)"
  "account_reference_data (account_handler api) rd = (\<lambda>g. group_dispatch (account_handler api) (rd_exchange rd)
     (rd_symbol rd) (position_reference_data rd) (\<lambda>_ s. s) g)"
  by (simp_all add: group_operation_defs fun_eq_iff)

lemma account_trade_update_shared:
  assumes "shared_inv s" "room s (tu_exchange tu) (tu_symbol tu)"
    and s': "s' = snd (get_account k (account_trade_update api (account_handler api) tu) s)"
  shows "shared_inv s'" "room s' (tu_exchange tu) (tu_symbol tu)"
    "known s i = Some ey \<Longrightarrow> known s' i = Some ey"
  by (rule account_table.visit_dispatch [OF assms(1,2) account_table.proper_callbackI(2)
        position_limit_trade_update s' [unfolded account_visits]], assumption?)+

lemma account_load_shared:
  assumes "shared_inv s" "room s (dbp_exchange row) (dbp_symbol row)"
    and s': "s' = snd (get_account k (account_load (account_handler api) row) s)"
  shows "shared_inv s'" "room s' (dbp_exchange row) (dbp_symbol row)"
    "known s i = Some ey \<Longrightarrow> known s' i = Some ey"
  by (rule account_table.visit_dispatch [OF assms(1,2) account_table.proper_callbackI(1)
        position_limit_load s' [unfolded account_visits]], assumption?)+

lemma account_reference_data_shared:
  assumes "shared_inv s" "room s (rd_exchange rd) (rd_symbol rd)"
    and s': "s' = get_all_accounts (account_reference_data (account_handler api) rd) s"
  shows "shared_inv s'" "room s' (rd_exchange rd) (rd_symbol rd)"
    "known s i = Some ey \<Longrightarrow> known s' i = Some ey"
  unfolding s' account_visits
  by (rule account_table.visit_all_dispatch [OF assms(1,2) account_table.proper_callbackI(1)
        position_limit_reference_data], assumption?)+

lemma user_visits:
  "user_trade_update api (user_handler api) tu = (\<lambda>g. group_dispatch (user_handler api) (tu_exchange tu)
     (tu_symbol tu) (position_trade_update api tu) (\<lambda>i. hd_publish (user_handler api) (grp_name g) i) g)"
  "user_load (user_handler api) row = (\<lambda>g. group_dispatch (user_handler api) (dbp_exchange row)
     (dbp_symbol row) (position_load row) (\<lambda>_ s. s) g)"
  "user_reference_data (user_handler api) rd = (\<lambda>g. group_dispatch (user_handler api) (rd_exchange rd)
     (rd_symbol rd) (position_reference_data rd) (\<lambda>_ s. s) g)"
  by (simp_all add: group_operation_defs fun_eq_iff)

lemma user_trade_update_shared:
  assumes "shared_inv s" "room s (tu_exchange tu) (tu_symbol tu)"
    and s': "s' = snd (get_user k (user_trade_update api (user_handler api) tu) s)"
  shows "shared_inv s'" "room s' (tu_exchange tu) (tu_symbol tu)"
    "known s i = Some ey \<Longrightarrow> known s' i = Some ey"
  by (rule user_table.visit_dispatch [OF assms(1,2) user_table.proper_callbackI(2)
        position_limit_trade_update s' [unfolded user_visits]], assumption?)+

lemma user_load_shared:
  assumes "shared_inv s" "room s (dbp_exchange row) (dbp_symbol row)"
    and s': "s' = snd (get_user k (user_load (user_handler api) row) s)"
  shows "shared_inv s'" "room s' (dbp_exchange row) (dbp_symbol row)"
    "known s i = Some ey \<Longrightarrow> known s' i = Some ey"
  by (rule user_table.visit_dispatch [OF assms(1,2) user_table.proper_callbackI(1)
        position_limit_load s' [unfolded user_visits]], assumption?)+

lemma user_reference_data_shared:
  assumes "shared_inv s" "room s (rd_exchange rd) (rd_symbol rd)"
    and s': "s' = get_all_users (user_reference_data (user_handler api) rd) s"
  shows "shared_inv s'" "room s' (rd_exchange rd) (rd_symbol rd)"
    "known s i = Some ey \<Longrightarrow> known s' i = Some ey"
  unfolding s' user_visits
  by (rule user_table.visit_all_dispatch [OF assms(1,2) user_table.proper_callbackI(1)
        position_limit_reference_data], assumption?)+

text \<open>
  How a visit changes the registry: not at all, or by the one instrument it asks for.
\<close>

definition registry_of ::
    "('cp, 'cf) shared \<Rightarrow>
     u32 \<times> (string, (string, u32) hash_map) hash_map \<times> (u32, instrument) hash_map" where
  "registry_of s = (next_instrument_id s, instrument_lookup s, instruments s)"

definition grows :: "roq_api \<Rightarrow> string \<Rightarrow> string \<Rightarrow> ('cp, 'cf) shared \<Rightarrow> ('cp, 'cf) shared \<Rightarrow> bool" where
  "grows api e y s s' \<longleftrightarrow>
     registry_of s' = registry_of s \<or> registry_of s' = registry_of (snd (get_instrument api e y s))"

lemma registry_of_frame [simp]:
  "registry_of (s\<lparr>accounts := g\<rparr>) = registry_of s"
  "registry_of (s\<lparr>users := g\<rparr>) = registry_of s"
  "registry_of (s\<lparr>publish_by_account := m\<rparr>) = registry_of s"
  "registry_of (s\<lparr>publish_by_user := m\<rparr>) = registry_of s"
  "registry_of (publish_account_instrument k i s) = registry_of s"
  "registry_of (publish_user_instrument k i s) = registry_of s"
  by (simp_all add: registry_of_def publish_account_instrument_def publish_user_instrument_def)

lemma registry_of_cong:
  assumes "registry_of s = registry_of t"
  shows "fst (get_instrument api e y s) = fst (get_instrument api e y t)"
    "registry_of (snd (get_instrument api e y s)) = registry_of (snd (get_instrument api e y t))"
    "lookup_id s = lookup_id t" "next_instrument_id s = next_instrument_id t"
    "room s = room t" "registry_inv s = registry_inv t" "known s = known t"
  using assms
  by (simp_all add: registry_of_def get_instrument_def get_instrument_id_def lookup_id_def room_def
      registry_inv_def known_def fun_eq_iff Let_def split: option.split)

lemma grows_refl [simp]: "grows api e y s s"
  by (simp add: grows_def)

lemma grows_trans:
  assumes "registry_inv s" "room s e y" "grows api e y s t" "grows api e y t u"
  shows "grows api e y s u"
proof -
  obtain ins s1 where get: "get_instrument api e y s = (ins, s1)" by fastforce
  note reg = get_instrument_registry [OF assms(1,2) get]
  have "lookup_id s1 e y \<noteq> 0" using registry_instrument(1) [OF reg(1,5)] reg(4) by simp
  from get_instrument_known [OF reg(1) this, of api] have "snd (get_instrument api e y s1) = s1"
    by (metis snd_conv)
  with assms(3,4) show ?thesis
    using registry_of_cong(2) [of t s api e y] registry_of_cong(2) [of t s1 api e y]
    unfolding grows_def get by auto
qed

lemma unat_inc_le: "unat (n + 1 :: u32) \<le> unat n + 1"
  using mod_less_eq_dividend [of "unat n + 1" "2 ^ 32"] by (simp add: unat_word_ariths)

lemma grows_next:
  assumes "registry_inv s" "room s e y" "grows api e y s s'"
  shows "unat (next_instrument_id s') \<le> unat (next_instrument_id s) + 1"
    "(e', y') \<noteq> (e, y) \<Longrightarrow> lookup_id s' e' y' = lookup_id s e' y'"
proof -
  have "unat (next_instrument_id s') \<le> unat (next_instrument_id s) + 1 \<and>
    ((e', y') \<noteq> (e, y) \<longrightarrow> lookup_id s' e' y' = lookup_id s e' y')"
  proof (cases "registry_of s' = registry_of s")
    case True
    then show ?thesis using registry_of_cong(3,4) [OF True] by simp
  next
    case False
    then have eq: "registry_of s' = registry_of (snd (get_instrument api e y s))"
      using assms(3) by (simp add: grows_def)
    show ?thesis
    proof (cases "lookup_id s e y = 0")
      case True
      with assms(2) have "next_instrument_id s \<noteq> - 1" by (simp add: room_def)
      with True assms(1) eq have r: "registry_of s' = registry_of (register api e y s)"
        by (simp add: get_instrument_fresh)
      show ?thesis
        using registry_of_cong(3,4) [OF r] unat_inc_le [of "next_instrument_id s"]
        by (simp add: lookup_id_register) (simp add: register_def Let_def)
    next
      case False
      from get_instrument_known [OF assms(1) this, of api] eq have "registry_of s' = registry_of s"
        by (metis snd_conv)
      then show ?thesis using registry_of_cong(3,4) [of s' s] by simp
    qed
  qed
  then show "unat (next_instrument_id s') \<le> unat (next_instrument_id s) + 1"
    "(e', y') \<noteq> (e, y) \<Longrightarrow> lookup_id s' e' y' = lookup_id s e' y'"
    by blast+
qed

section \<open>Growth of the registry\<close>

lemma dispatch_registry_of:
  assumes "callback = (\<lambda>_ s. s) \<or> (\<exists>k. callback = publish_account_instrument k) \<or>
    (\<exists>k. callback = publish_user_instrument k)"
  shows "registry_of (snd (group_dispatch (account_handler api) e y upd callback g s)) =
      registry_of (snd (get_instrument api e y s))"
    "registry_of (snd (group_dispatch (user_handler api) e y upd callback g s)) =
      registry_of (snd (get_instrument api e y s))"
  using assms
  by (auto simp: snd_group_dispatch account_handler_def user_handler_def split_beta)

lemma account_visit_grows:
  assumes "\<And>g. callback g = (\<lambda>_ s. s) \<or> callback g = publish_account_instrument (grp_name g)"
  shows "grows api e y s
    (snd (get_account k (\<lambda>g. group_dispatch (account_handler api) e y upd (callback g) g) s))"
proof (cases "map_of (accounts s) k")
  case (Some g)
  then show ?thesis
    using dispatch_registry_of(1) [of "callback g" api e y upd g s] assms [of g]
    by (auto simp: grows_def get_account_def Let_def split_beta)
qed (simp add: get_account_def)

lemma user_visit_grows:
  assumes "\<And>g. callback g = (\<lambda>_ s. s) \<or> callback g = publish_user_instrument (grp_name g)"
  shows "grows api e y s
    (snd (get_user k (\<lambda>g. group_dispatch (user_handler api) e y upd (callback g) g) s))"
proof (cases "map_of (users s) k")
  case (Some g)
  then show ?thesis
    using dispatch_registry_of(2) [of "callback g" api e y upd g s] assms [of g]
    by (auto simp: grows_def get_user_def Let_def split_beta)
qed (simp add: get_user_def)

lemma trade_update_grows:
  "grows api (tu_exchange tu) (tu_symbol tu) s
     (snd (get_account k (account_trade_update api (account_handler api) tu) s))"
  "grows api (tu_exchange tu) (tu_symbol tu) s
     (snd (get_user k (user_trade_update api (user_handler api) tu) s))"
  unfolding account_visits user_visits
  by (rule account_visit_grows user_visit_grows, simp add: account_handler_def user_handler_def)+

lemma load_grows:
  "grows api (dbp_exchange row) (dbp_symbol row) s
     (snd (get_account k (account_load (account_handler api) row) s))"
  "grows api (dbp_exchange row) (dbp_symbol row) s
     (snd (get_user k (user_load (user_handler api) row) s))"
  unfolding account_visits user_visits by (rule account_visit_grows user_visit_grows, simp)+

lemma reference_data_visit_grows:
  "grows api (rd_exchange rd) (rd_symbol rd) s
     (snd (get_account k (account_reference_data (account_handler api) rd) s))"
  "grows api (rd_exchange rd) (rd_symbol rd) s
     (snd (get_user k (user_reference_data (user_handler api) rd) s))"
  unfolding account_visits user_visits by (rule account_visit_grows user_visit_grows, simp)+

lemma fold_grows:
  assumes "shared_inv s" "room s e y"
    and "\<And>k s. shared_inv s \<Longrightarrow> room s e y \<Longrightarrow>
      shared_inv (step k s) \<and> room (step k s) e y \<and> grows api e y s (step k s)"
  shows "grows api e y s (fold step ks s)"
  using assms(1,2)
proof (induction ks arbitrary: s)
  case (Cons k ks)
  note step = assms(3) [OF Cons.prems, of k]
  have "grows api e y (step k s) (fold step ks (step k s))" using step by (intro Cons.IH) simp_all
  then have "grows api e y s (fold step ks (step k s))"
    by (rule grows_trans [OF shared_inv_registry [OF Cons.prems(1)] Cons.prems(2), rotated]) (simp add: step)
  then show ?case by simp
qed simp

lemma reference_data_step:
  assumes "shared_inv s" "room s (rd_exchange rd) (rd_symbol rd)"
  shows "shared_inv (snd (get_account k (account_reference_data (account_handler api) rd) s))"
    "room (snd (get_account k (account_reference_data (account_handler api) rd) s))
       (rd_exchange rd) (rd_symbol rd)"
    "shared_inv (snd (get_user k (user_reference_data (user_handler api) rd) s))"
    "room (snd (get_user k (user_reference_data (user_handler api) rd) s))
       (rd_exchange rd) (rd_symbol rd)"
  unfolding account_visits user_visits
  by (rule account_table.visit_dispatch [OF assms account_table.proper_callbackI(1)
        position_limit_reference_data refl]
      user_table.visit_dispatch [OF assms user_table.proper_callbackI(1)
        position_limit_reference_data refl])+

lemma reference_data_grows:
  assumes "shared_inv s" "room s (rd_exchange rd) (rd_symbol rd)"
  shows "grows api (rd_exchange rd) (rd_symbol rd) s
      (get_all_accounts (account_reference_data (account_handler api) rd) s)"
    "grows api (rd_exchange rd) (rd_symbol rd) s
      (get_all_users (user_reference_data (user_handler api) rd) s)"
  unfolding get_all_accounts_def get_all_users_def
  by (rule fold_grows [OF assms], intro conjI reference_data_step reference_data_visit_grows; assumption)+

section \<open>Positions by name\<close>

definition lookup_instrument :: "('cp, 'cf) shared \<Rightarrow> string \<Rightarrow> string \<Rightarrow> instrument_id option" where
  "lookup_instrument s e y = (if lookup_id s e y = 0 then None else Some (lookup_id s e y))"

lemma lookup_instrument_known:
  assumes "shared_inv s"
  shows "lookup_instrument s e y = Some i \<longleftrightarrow> known s i = Some (e, y)"
proof
  note reg = shared_inv_registry [OF assms]
  show "known s i = Some (e, y)" if "lookup_instrument s e y = Some i"
    using that reg by (auto simp: lookup_instrument_def registry_inv_def split: if_splits)
  show "lookup_instrument s e y = Some i" if known: "known s i = Some (e, y)"
  proof -
    from known obtain ins where ins: "map_of (instruments s) i = Some ins" "ins_exchange ins = e"
      "ins_symbol ins = y"
      by (auto simp: known_def)
    from registry_instrument [OF reg ins(1)] ins(2,3) show ?thesis
      by (simp add: lookup_instrument_def)
  qed
qed

interpretation account_positions: position_table "account_handler api" known shared_inv room
  accounts "\<lambda>m. accounts_update (\<lambda>_. m)" get_account get_all_accounts lookup_instrument for api
  by unfold_locales (rule lookup_instrument_known)

interpretation user_positions: position_table "user_handler api" known shared_inv room
  users "\<lambda>m. users_update (\<lambda>_. m)" get_user get_all_users lookup_instrument for api
  by unfold_locales (rule lookup_instrument_known)

text \<open>
  The position of an account or a user in a named instrument; where there is none yet, the one a
  first event would start from.
\<close>

definition account_position :: "('cp, 'cf) shared \<Rightarrow> string \<Rightarrow> string \<Rightarrow> string \<Rightarrow> position" where
  "account_position s k e y =
     (case position_at accounts lookup_instrument s k e y of
        None \<Rightarrow> position_new (get_limit_by_account s k e y)
      | Some p \<Rightarrow> p)"

definition user_position :: "('cp, 'cf) shared \<Rightarrow> string \<Rightarrow> string \<Rightarrow> string \<Rightarrow> position" where
  "user_position s k e y =
     (case position_at users lookup_instrument s k e y of
        None \<Rightarrow> position_new (get_limit_by_user s k e y)
      | Some p \<Rightarrow> p)"

lemma effective_account_position: "account_positions.effective api = account_position"
  by (intro ext, unfold account_positions.effective_def account_position_def) (simp add: handler_simps split: option.split)

lemma effective_user_position: "user_positions.effective api = user_position"
  by (intro ext, unfold user_positions.effective_def user_position_def) (simp add: handler_simps split: option.split)

text \<open>Events of accounts leave the users alone, and the other way round.\<close>

lemma dispatch_frame:
  assumes "callback = (\<lambda>_ s. s) \<or> callback = publish_account_instrument k"
  shows "users (snd (group_dispatch (account_handler api) e y upd callback g s)) = users s"
    "limits_by_user (snd (group_dispatch (account_handler api) e y upd callback g s)) = limits_by_user s"
    "limits_by_account (snd (group_dispatch (account_handler api) e y upd callback g s)) =
       limits_by_account s"
  using assms
  by (auto simp: snd_group_dispatch account_handler_def split_beta publish_account_instrument_def)

lemma dispatch_frame_user:
  assumes "callback = (\<lambda>_ s. s) \<or> callback = publish_user_instrument k"
  shows "accounts (snd (group_dispatch (user_handler api) e y upd callback g s)) = accounts s"
    "limits_by_account (snd (group_dispatch (user_handler api) e y upd callback g s)) =
       limits_by_account s"
    "limits_by_user (snd (group_dispatch (user_handler api) e y upd callback g s)) = limits_by_user s"
  using assms
  by (auto simp: snd_group_dispatch user_handler_def split_beta publish_user_instrument_def)

lemma account_visit_frame:
  assumes "\<And>g. callback g = (\<lambda>_ s. s) \<or> callback g = publish_account_instrument (grp_name g)"
    and "s' = snd (get_account k (\<lambda>g. group_dispatch (account_handler api) e y upd (callback g) g) s)"
  shows "users s' = users s" "get_limit_by_account s' = get_limit_by_account s"
    "get_limit_by_user s' = get_limit_by_user s"
proof -
  have "users s' = users s \<and> get_limit_by_account s' = get_limit_by_account s \<and>
    get_limit_by_user s' = get_limit_by_user s"
  proof (cases "map_of (accounts s) k")
    case (Some g)
    then show ?thesis
      using dispatch_frame [of "callback g" "grp_name g" api e y upd g s] assms(1) [of g]
      by (auto simp: assms(2) get_account_def get_limit_by_account_def get_limit_by_user_def Let_def split_beta)
  qed (simp add: assms(2) get_account_def)
  then show "users s' = users s" "get_limit_by_account s' = get_limit_by_account s"
    "get_limit_by_user s' = get_limit_by_user s"
    by blast+
qed

lemma account_visit_user_position:
  assumes "shared_inv s" "room s e y" "\<And>ins p. position_limit (upd ins p) = position_limit p"
    and cb: "\<And>g. callback g = (\<lambda>_ s. s) \<or> callback g = publish_account_instrument (grp_name g)"
    and s': "s' = snd (get_account k (\<lambda>g. group_dispatch (account_handler api) e y upd (callback g) g) s)"
  shows "user_position s' = user_position s"
proof (intro ext)
  fix k' e' y'
  have "account_table.proper_callback api (callback g)" for g
    unfolding account_table.proper_callback_def handler_simps using cb [of g] by auto
  note v = account_table.visit_dispatch [OF assms(1,2) this assms(3) s']
  note fr = account_visit_frame [OF cb s']
  have "user_positions.effective api s' k' e' y' = user_positions.effective api s k' e' y'"
    using fr by (intro user_positions.effective_mono assms(1) v(1) v(4)) (simp_all add: handler_simps)
  then show "user_position s' k' e' y' = user_position s k' e' y'" by (simp only: effective_user_position)
qed

lemma account_trade_update_effect:
  assumes "shared_inv s" "room s (tu_exchange tu) (tu_symbol tu)"
    and s': "s' = snd (get_account k (account_trade_update api (account_handler api) tu) s)"
  shows "user_position s' = user_position s" "users s' = users s"
    "get_limit_by_account s' = get_limit_by_account s" "get_limit_by_user s' = get_limit_by_user s"
    "map fst (accounts s') = map fst (accounts s)"
proof -
  note s2 = s' [unfolded account_visits]
  show "user_position s' = user_position s"
    by (rule account_visit_user_position [OF assms(1,2) position_limit_trade_update _ s2]) (simp add: handler_simps)
  show "users s' = users s"
    "get_limit_by_account s' = get_limit_by_account s" "get_limit_by_user s' = get_limit_by_user s"
    by (rule account_visit_frame [OF _ s2], simp add: handler_simps)+
  show "map fst (accounts s') = map fst (accounts s)"
    by (rule account_table.visit_dispatch [OF assms(1,2) account_table.proper_callbackI(2) position_limit_trade_update s2])
qed

lemma account_trade_update_position:
  assumes "shared_inv s" "room s (tu_exchange tu) (tu_symbol tu)" "map_of (accounts s) k = Some g"
    and s': "s' = snd (get_account k (account_trade_update api (account_handler api) tu) s)"
  obtains ins where "position_at accounts lookup_instrument s' k (tu_exchange tu) (tu_symbol tu) =
      Some (position_trade_update api tu ins (account_position s k (tu_exchange tu) (tu_symbol tu)))"
    and "\<forall>k' e' y'. (k', e', y') \<noteq> (k, tu_exchange tu, tu_symbol tu) \<longrightarrow>
      account_position s' k' e' y' = account_position s k' e' y'"
  by (rule account_positions.visit_effective [OF assms(1,2) account_table.proper_callbackI(2)
        position_limit_trade_update assms(3) s' [unfolded account_visits], unfolded effective_account_position])

lemma account_load_effect:
  assumes "shared_inv s" "room s (dbp_exchange row) (dbp_symbol row)"
    and s': "s' = snd (get_account k (account_load (account_handler api) row) s)"
  shows "user_position s' = user_position s" "users s' = users s"
    "get_limit_by_account s' = get_limit_by_account s" "get_limit_by_user s' = get_limit_by_user s"
    "map fst (accounts s') = map fst (accounts s)"
proof -
  note s2 = s' [unfolded account_visits]
  show "user_position s' = user_position s"
    by (rule account_visit_user_position [OF assms(1,2) position_limit_load _ s2]) (simp add: handler_simps)
  show "users s' = users s"
    "get_limit_by_account s' = get_limit_by_account s" "get_limit_by_user s' = get_limit_by_user s"
    by (rule account_visit_frame [OF _ s2], simp add: handler_simps)+
  show "map fst (accounts s') = map fst (accounts s)"
    by (rule account_table.visit_dispatch [OF assms(1,2) account_table.proper_callbackI(1) position_limit_load s2])
qed

lemma account_load_position:
  assumes "shared_inv s" "room s (dbp_exchange row) (dbp_symbol row)" "map_of (accounts s) k = Some g"
    and s': "s' = snd (get_account k (account_load (account_handler api) row) s)"
  obtains ins where "position_at accounts lookup_instrument s' k (dbp_exchange row) (dbp_symbol row) =
      Some (position_load row ins (account_position s k (dbp_exchange row) (dbp_symbol row)))"
    and "\<forall>k' e' y'. (k', e', y') \<noteq> (k, dbp_exchange row, dbp_symbol row) \<longrightarrow>
      account_position s' k' e' y' = account_position s k' e' y'"
  by (rule account_positions.visit_effective [OF assms(1,2) account_table.proper_callbackI(1)
        position_limit_load assms(3) s' [unfolded account_visits], unfolded effective_account_position])

lemma user_visit_frame:
  assumes "\<And>g. callback g = (\<lambda>_ s. s) \<or> callback g = publish_user_instrument (grp_name g)"
    and "s' = snd (get_user k (\<lambda>g. group_dispatch (user_handler api) e y upd (callback g) g) s)"
  shows "accounts s' = accounts s" "get_limit_by_account s' = get_limit_by_account s"
    "get_limit_by_user s' = get_limit_by_user s"
proof -
  have "accounts s' = accounts s \<and> get_limit_by_account s' = get_limit_by_account s \<and>
    get_limit_by_user s' = get_limit_by_user s"
  proof (cases "map_of (users s) k")
    case (Some g)
    then show ?thesis
      using dispatch_frame_user [of "callback g" "grp_name g" api e y upd g s] assms(1) [of g]
      by (auto simp: assms(2) get_user_def get_limit_by_account_def get_limit_by_user_def Let_def split_beta)
  qed (simp add: assms(2) get_user_def)
  then show "accounts s' = accounts s" "get_limit_by_account s' = get_limit_by_account s"
    "get_limit_by_user s' = get_limit_by_user s"
    by blast+
qed

lemma user_visit_account_position:
  assumes "shared_inv s" "room s e y" "\<And>ins p. position_limit (upd ins p) = position_limit p"
    and cb: "\<And>g. callback g = (\<lambda>_ s. s) \<or> callback g = publish_user_instrument (grp_name g)"
    and s': "s' = snd (get_user k (\<lambda>g. group_dispatch (user_handler api) e y upd (callback g) g) s)"
  shows "account_position s' = account_position s"
proof (intro ext)
  fix k' e' y'
  have "user_table.proper_callback api (callback g)" for g
    unfolding user_table.proper_callback_def handler_simps using cb [of g] by auto
  note v = user_table.visit_dispatch [OF assms(1,2) this assms(3) s']
  note fr = user_visit_frame [OF cb s']
  have "account_positions.effective api s' k' e' y' = account_positions.effective api s k' e' y'"
    using fr by (intro account_positions.effective_mono assms(1) v(1) v(4)) (simp_all add: handler_simps)
  then show "account_position s' k' e' y' = account_position s k' e' y'" by (simp only: effective_account_position)
qed

lemma user_trade_update_effect:
  assumes "shared_inv s" "room s (tu_exchange tu) (tu_symbol tu)"
    and s': "s' = snd (get_user k (user_trade_update api (user_handler api) tu) s)"
  shows "account_position s' = account_position s" "accounts s' = accounts s"
    "get_limit_by_account s' = get_limit_by_account s" "get_limit_by_user s' = get_limit_by_user s"
    "map fst (users s') = map fst (users s)"
proof -
  note s2 = s' [unfolded user_visits]
  show "account_position s' = account_position s"
    by (rule user_visit_account_position [OF assms(1,2) position_limit_trade_update _ s2]) (simp add: handler_simps)
  show "accounts s' = accounts s"
    "get_limit_by_account s' = get_limit_by_account s" "get_limit_by_user s' = get_limit_by_user s"
    by (rule user_visit_frame [OF _ s2], simp add: handler_simps)+
  show "map fst (users s') = map fst (users s)"
    by (rule user_table.visit_dispatch [OF assms(1,2) user_table.proper_callbackI(2) position_limit_trade_update s2])
qed

lemma user_trade_update_position:
  assumes "shared_inv s" "room s (tu_exchange tu) (tu_symbol tu)" "map_of (users s) k = Some g"
    and s': "s' = snd (get_user k (user_trade_update api (user_handler api) tu) s)"
  obtains ins where "position_at users lookup_instrument s' k (tu_exchange tu) (tu_symbol tu) =
      Some (position_trade_update api tu ins (user_position s k (tu_exchange tu) (tu_symbol tu)))"
    and "\<forall>k' e' y'. (k', e', y') \<noteq> (k, tu_exchange tu, tu_symbol tu) \<longrightarrow>
      user_position s' k' e' y' = user_position s k' e' y'"
  by (rule user_positions.visit_effective [OF assms(1,2) user_table.proper_callbackI(2)
        position_limit_trade_update assms(3) s' [unfolded user_visits], unfolded effective_user_position])

lemma user_load_effect:
  assumes "shared_inv s" "room s (dbp_exchange row) (dbp_symbol row)"
    and s': "s' = snd (get_user k (user_load (user_handler api) row) s)"
  shows "account_position s' = account_position s" "accounts s' = accounts s"
    "get_limit_by_account s' = get_limit_by_account s" "get_limit_by_user s' = get_limit_by_user s"
    "map fst (users s') = map fst (users s)"
proof -
  note s2 = s' [unfolded user_visits]
  show "account_position s' = account_position s"
    by (rule user_visit_account_position [OF assms(1,2) position_limit_load _ s2]) (simp add: handler_simps)
  show "accounts s' = accounts s"
    "get_limit_by_account s' = get_limit_by_account s" "get_limit_by_user s' = get_limit_by_user s"
    by (rule user_visit_frame [OF _ s2], simp add: handler_simps)+
  show "map fst (users s') = map fst (users s)"
    by (rule user_table.visit_dispatch [OF assms(1,2) user_table.proper_callbackI(1) position_limit_load s2])
qed

lemma user_load_position:
  assumes "shared_inv s" "room s (dbp_exchange row) (dbp_symbol row)" "map_of (users s) k = Some g"
    and s': "s' = snd (get_user k (user_load (user_handler api) row) s)"
  obtains ins where "position_at users lookup_instrument s' k (dbp_exchange row) (dbp_symbol row) =
      Some (position_load row ins (user_position s k (dbp_exchange row) (dbp_symbol row)))"
    and "\<forall>k' e' y'. (k', e', y') \<noteq> (k, dbp_exchange row, dbp_symbol row) \<longrightarrow>
      user_position s' k' e' y' = user_position s k' e' y'"
  by (rule user_positions.visit_effective [OF assms(1,2) user_table.proper_callbackI(1)
        position_limit_load assms(3) s' [unfolded user_visits], unfolded effective_user_position])

section \<open>Draining the publish set\<close>

text \<open>
  C15: Draining the publish set of an account reports every marked instrument in which the account
  has a position, each of them once and with the limits configured for the account on that exchange
  and symbol, and no other; afterwards the set is empty. The two branches of the source marked as
  impossible (an unknown instrument, an unknown account) are not taken.
\<close>

theorem get_publish_by_account_complete:
  assumes "shared_inv s" "map_of (accounts s) k = Some a"
    and "get_publish_by_account k s = (found, calls, s')"
    and "pending = find_or [] (publish_by_account s) k"
  shows "set calls = {(p, ins). \<exists>i \<in> set pending.
      group_get_position i a = Some p \<and> map_of (instruments s) i = Some ins} \<and>
    (\<forall>i \<in> set pending. map_of (instruments s) i \<noteq> None) \<and>
    distinct (map (ins_id \<circ> snd) calls) \<and>
    (\<forall>(p, ins) \<in> set calls.
      position_limit p = get_limit_by_account s k (ins_exchange ins) (ins_symbol ins)) \<and>
    find_or [] (publish_by_account s') k = []"
proof -
  have calls: "calls = pending_positions (accounts s) (instruments s) k pending"
    and s': "s' = (if map_of (publish_by_account s) k = None then s
      else s\<lparr>publish_by_account := AList.update k [] (publish_by_account s)\<rparr>)"
    using assms(3,4) by (auto simp: get_publish_eq)
  note inv = shared_invD [OF assms(1)]
  note pend = pending_ok_find_or [OF inv(2), where k = k, folded assms(4)]
  have "position_limit p = get_limit_by_account s k (ins_exchange ins) (ins_symbol ins)"
    if "group_get_position i a = Some p" "map_of (instruments s) i = Some ins" for i p ins
    using that inv(5) assms(2) unfolding groups_ok_def positions_inv_def
    by (fastforce simp: group_get_position_def known_def)
  moreover have "\<forall>i \<in> set pending. map_of (instruments s) i \<noteq> None"
    using pend(2) by (auto simp: known_def)
  moreover have "find_or [] (publish_by_account s') k = []" by (simp add: s' find_or_def)
  ultimately show ?thesis
    using pending_positions_distinct [OF inv(1) pend(1)]
    unfolding calls set_pending_positions [OF assms(2)] by auto
qed

definition sample_shared :: "(unit, unit) shared" where
  "sample_shared =
     snd (get_account ''A1'' (account_trade_update sample_api (account_handler sample_api)
       (sample_trade BUY ''t1'' 5 10)) (shared_new sample_config sample_config []))"

lemma sample_shared_inv: "shared_inv sample_shared"
  unfolding sample_shared_def by (rule account_trade_update_shared [OF shared_inv_new room_new refl])

lemma sample_shared_account: "map_of (accounts sample_shared) ''A1'' \<noteq> None"
proof -
  have "map fst (accounts sample_shared) = map fst (create_config sample_config)"
    unfolding sample_shared_def
    by (subst account_trade_update_effect(5) [OF shared_inv_new room_new refl]) (simp add: shared_new_def)
  then have "''A1'' \<in> set (map fst (accounts sample_shared))"
    by (simp add: create_config_def sample_config_def try_emplace_def)
  then show ?thesis by (simp add: map_of_eq_None_iff)
qed

theorem get_publish_by_account_complete_witness:
  "distinct (map (ins_id \<circ> snd) (fst (snd (get_publish_by_account ''A1'' sample_shared)))) \<and>
   find_or [] (publish_by_account (snd (snd (get_publish_by_account ''A1'' sample_shared)))) ''A1'' = []"
proof -
  obtain a where a: "map_of (accounts sample_shared) ''A1'' = Some a"
    using sample_shared_account by blast
  have "get_publish_by_account ''A1'' sample_shared =
      (fst (get_publish_by_account ''A1'' sample_shared),
       fst (snd (get_publish_by_account ''A1'' sample_shared)),
       snd (snd (get_publish_by_account ''A1'' sample_shared)))"
    by simp
  from get_publish_by_account_complete [OF sample_shared_inv a this refl] show ?thesis by blast
qed

end
