(* ===== verification/Config.thy ===== *)
theory Config
  imports Shared
begin

text \<open>
  The configuration file (\<^verbatim>\<open>config.cpp\<close>): from a parsed TOML document to the symbols to subscribe to
  and the limits of accounts and users. The TOML library is a parameter: its values have the type
  \<open>'v\<close>, and the record \<open>toml_api\<close> holds the conversions \<^verbatim>\<open>value<std::string>\<close>, \<^verbatim>\<open>value<double>\<close> and
  \<^verbatim>\<open>value<bool>\<close>, which return nothing if a value has another type. A fatal log message ends the
  process (\<open>FatalError\<close>); the code dereferences the result of a conversion without a check, which
  is undefined if there is none. Parsing removes the keys it has used from the document, and what
  is left over is an error.
\<close>

section \<open>TOML\<close>

datatype 'v toml = Value 'v | Array "'v toml list" | Table "(string \<times> 'v toml) list"

record 'v toml_api =
  toml_string :: "'v \<Rightarrow> string option"
  toml_double :: "'v \<Rightarrow> double option"
  toml_bool :: "'v \<Rightarrow> bool option"

definition node_value :: "('v \<Rightarrow> 'a option) \<Rightarrow> 'v toml \<Rightarrow> 'a option" where
  "node_value get node = (case node of Value v \<Rightarrow> get v | _ \<Rightarrow> None)"

definition deref :: "'a option \<Rightarrow> error + 'a" where
  "deref x = (case x of None \<Rightarrow> Inl UndefinedBehaviour | Some v \<Rightarrow> Inr v)"

section \<open>Helpers\<close>

definition EXCHANGE :: string where
  "EXCHANGE = ''deribit''"

definition check_empty :: "'v toml \<Rightarrow> error + unit" where
  "check_empty node =
     (case node of
        Table table \<Rightarrow> if table \<noteq> [] then Inl FatalError else Inr ()
      | _ \<Rightarrow> Inr ())"

text \<open>The callback updates the variables it captures, here \<open>result\<close>.\<close>

definition find_and_remove ::
    "'v toml \<Rightarrow> string \<Rightarrow> ('v toml \<Rightarrow> 'r \<Rightarrow> error + 'r) \<Rightarrow> 'r \<Rightarrow> error + bool \<times> 'v toml \<times> 'r" where
  "find_and_remove node key callback result =
     (case node of
        Table table \<Rightarrow>
          (case map_of table key of
             None \<Rightarrow> Inr (False, node, result)
           | Some value \<Rightarrow>
               bind_result (callback value result) (\<lambda>result.
               Inr (True, Table (AList.delete key table), result)))
      | _ \<Rightarrow> Inr (False, node, result))"

section \<open>Symbols\<close>

type_synonym symbols = "(string, string list) hash_map"

definition emplace_symbol :: "'v toml_api \<Rightarrow> 'v toml \<Rightarrow> symbols \<Rightarrow> error + symbols" where
  "emplace_symbol api node result =
     bind_result (deref (node_value (toml_string api) node)) (\<lambda>symbol.
     Inr (AList.update EXCHANGE (fst (emplace symbol (find_or [] result EXCHANGE))) result))"

fun emplace_symbols :: "'v toml_api \<Rightarrow> 'v toml list \<Rightarrow> symbols \<Rightarrow> error + symbols" where
  "emplace_symbols api [] result = Inr result"
| "emplace_symbols api (node # nodes) result =
     bind_result (emplace_symbol api node result) (\<lambda>result. emplace_symbols api nodes result)"

definition parse_symbols :: "'v toml_api \<Rightarrow> 'v toml \<Rightarrow> error + symbols \<times> 'v toml" where
  "parse_symbols api node =
     (let parse_helper = (\<lambda>node result.
        case node of
          Value _ \<Rightarrow> emplace_symbol api node result
        | Array arr \<Rightarrow> emplace_symbols api arr result
        | Table _ \<Rightarrow> Inl FatalError)
      in bind_result (find_and_remove node ''symbols'' parse_helper []) (\<lambda>(found, node, result).
           if found then Inr (result, node) else Inl FatalError))"

section \<open>Limits\<close>

text \<open>The callbacks that set one field of a limit.\<close>

definition read_number ::
    "'v toml_api \<Rightarrow> ((double \<Rightarrow> double) \<Rightarrow> limit \<Rightarrow> limit) \<Rightarrow> 'v toml \<Rightarrow> limit \<Rightarrow> error + limit" where
  "read_number api field_update value limit =
     bind_result (deref (node_value (toml_double api) value)) (\<lambda>x. Inr (field_update (\<lambda>_. x) limit))"

definition read_flag :: "'v toml_api \<Rightarrow> 'v toml \<Rightarrow> limit \<Rightarrow> error + limit" where
  "read_flag api value limit =
     bind_result (deref (node_value (toml_bool api) value)) (\<lambda>x. Inr (limit\<lparr>lim_allow_netting := x\<rparr>))"

definition parse_limit :: "'v toml_api \<Rightarrow> 'v toml \<Rightarrow> error + limit \<times> 'v toml" where
  "parse_limit api table_3 =
     bind_result (find_and_remove table_3 ''long_position_limit''
       (read_number api lim_long_position_limit_update) default_limit) (\<lambda>(_, table_3, limit).
     bind_result (find_and_remove table_3 ''short_position_limit''
       (read_number api lim_short_position_limit_update) limit) (\<lambda>(_, table_3, limit).
     bind_result (find_and_remove table_3 ''long_risk_exposure_limit''
       (read_number api lim_long_risk_exposure_limit_update) limit) (\<lambda>(_, table_3, limit).
     bind_result (find_and_remove table_3 ''short_risk_exposure_limit''
       (read_number api lim_short_risk_exposure_limit_update) limit) (\<lambda>(_, table_3, limit).
     bind_result (find_and_remove table_3 ''allow_netting'' (read_flag api) limit) (\<lambda>(_, table_3, limit).
     Inr (limit, table_3))))))"

text \<open>The three nested loops of \<^verbatim>\<open>parse_limits\<close>, from the inside out.\<close>

fun parse_limits_symbols ::
    "'v toml_api \<Rightarrow> (string \<times> 'v toml) list \<Rightarrow> (string, limit) hash_map \<Rightarrow>
     error + (string, limit) hash_map" where
  "parse_limits_symbols api [] tmp_2 = Inr tmp_2"
| "parse_limits_symbols api ((symbol, value_3) # rest) tmp_2 =
     (case value_3 of
        Table _ \<Rightarrow>
          bind_result (parse_limit api value_3) (\<lambda>(limit, value_3).
          let tmp_2 = try_emplace symbol limit tmp_2 in
          bind_result (check_empty value_3) (\<lambda>_. parse_limits_symbols api rest tmp_2))
      | _ \<Rightarrow> Inl FatalError)"

fun parse_limits_exchanges ::
    "'v toml_api \<Rightarrow> (string \<times> 'v toml) list \<Rightarrow> limits_of \<Rightarrow> error + limits_of" where
  "parse_limits_exchanges api [] tmp_1 = Inr tmp_1"
| "parse_limits_exchanges api ((exchange, value_2) # rest) tmp_1 =
     (case value_2 of
        Table table_2 \<Rightarrow>
          bind_result (parse_limits_symbols api table_2 (find_or [] tmp_1 exchange)) (\<lambda>tmp_2.
          parse_limits_exchanges api rest (AList.update exchange tmp_2 tmp_1))
      | _ \<Rightarrow> Inl FatalError)"

fun parse_limits_names ::
    "'v toml_api \<Rightarrow> (string \<times> 'v toml) list \<Rightarrow> (string, limits_of) hash_map \<Rightarrow>
     error + (string, limits_of) hash_map" where
  "parse_limits_names api [] result = Inr result"
| "parse_limits_names api ((account, value_1) # rest) result =
     (case value_1 of
        Table table_1 \<Rightarrow>
          bind_result (parse_limits_exchanges api table_1 (find_or [] result account)) (\<lambda>tmp_1.
          parse_limits_names api rest (AList.update account tmp_1 result))
      | _ \<Rightarrow> Inl FatalError)"

definition parse_limits ::
    "'v toml_api \<Rightarrow> 'v toml \<Rightarrow> string \<Rightarrow> error + (string, limits_of) hash_map \<times> 'v toml" where
  "parse_limits api node name =
     (let parse_helper = (\<lambda>node result.
        case node of
          Table table \<Rightarrow> parse_limits_names api table result
        | _ \<Rightarrow> Inl FatalError)
      in bind_result (find_and_remove node name parse_helper []) (\<lambda>(_, node, result).
           Inr (result, node)))"

section \<open>Configuration\<close>

text \<open>The strategies are never read from the file.\<close>

record config =
  cfg_symbols :: symbols
  cfg_accounts :: "(string, limits_of) hash_map"
  cfg_users :: "(string, limits_of) hash_map"
  cfg_strategies :: "(u32, limits_of) hash_map"

definition config_new :: "'v toml_api \<Rightarrow> 'v toml \<Rightarrow> error + config" where
  "config_new api node =
     bind_result (parse_symbols api node) (\<lambda>(symbols, node).
     bind_result (parse_limits api node ''accounts'') (\<lambda>(accounts_1, node).
     bind_result (parse_limits api node ''users'') (\<lambda>(users_1, node).
     bind_result (check_empty node) (\<lambda>_.
     Inr \<lparr>cfg_symbols = symbols, cfg_accounts = accounts_1, cfg_users = users_1, cfg_strategies = []\<rparr>))))"

text \<open>\<^verbatim>\<open>Config::parse_text\<close> and \<^verbatim>\<open>parse_file\<close>; the parser of the library may throw.\<close>

definition config_parse_file ::
    "'v toml_api \<Rightarrow> (string \<Rightarrow> 'v toml option) \<Rightarrow> string \<Rightarrow> error + config" where
  "config_parse_file api parse_file path =
     (case parse_file path of None \<Rightarrow> Inl LibraryException | Some node \<Rightarrow> config_new api node)"

definition config_parse_text ::
    "'v toml_api \<Rightarrow> (string \<Rightarrow> 'v toml option) \<Rightarrow> string \<Rightarrow> error + config" where
  "config_parse_text api parse text =
     (case parse text of None \<Rightarrow> Inl LibraryException | Some node \<Rightarrow> config_new api node)"

text \<open>What \<^verbatim>\<open>Config::dispatch\<close> tells the client library to subscribe to.\<close>

datatype subscription =
    Account_Subscription string
  | Symbol_Subscription string string

definition config_dispatch :: "config \<Rightarrow> subscription list" where
  "config_dispatch config =
     map (\<lambda>(name, _). Account_Subscription name) (cfg_accounts config) @
     concat (map (\<lambda>(exchange, symbols_2).
       map (\<lambda>item. Symbol_Subscription item exchange) symbols_2) (cfg_symbols config)) @
     [Symbol_Subscription ''.*'' []]"

text \<open>\<^verbatim>\<open>Shared\<close> is constructed from the configuration.\<close>

definition shared_from_config :: "config \<Rightarrow> ('cp, 'cf) shared" where
  "shared_from_config config =
     shared_new (cfg_accounts config) (cfg_users config) (cfg_strategies config)"

section \<open>What an accepted file looks like\<close>

lemma check_empty_iff [simp]: "check_empty (Table t) = Inr u \<longleftrightarrow> t = []"
  by (simp add: check_empty_def)

lemma find_and_remove_iff:
  "find_and_remove (Table t) key callback r = Inr (found, node, r') \<longleftrightarrow>
     node = Table (AList.delete key t) \<and>
     (case map_of t key of
        None \<Rightarrow> \<not> found \<and> r' = r
      | Some v \<Rightarrow> found \<and> callback v r = Inr r')"
proof (cases "map_of t key")
  case None
  then have "AList.delete key t = t" by (simp add: delete_id map_of_eq_None_iff)
  with None show ?thesis by (auto simp: find_and_remove_def)
qed (auto simp: find_and_remove_def bind_result_Inr_iff)

definition limit_keys :: "string set" where
  "limit_keys = {''long_position_limit'', ''short_position_limit'', ''long_risk_exposure_limit'',
     ''short_risk_exposure_limit'', ''allow_netting''}"

lemma keys_delete: "fst ` set (AList.delete k t) = fst ` set t - {k}"
  by (induction t) auto

lemma diff_five: "A - {a} - {b} - {c} - {d} - {e} = A - {a, b, c, d, e}"
  by blast

lemma bind_find_and_remove:
  assumes "bind_result (find_and_remove (Table t) key callback r) f = Inr y"
  shows "\<exists>found r'. f (found, Table (AList.delete key t), r') = Inr y"
proof -
  obtain found node r' where "find_and_remove (Table t) key callback r = Inr (found, node, r')"
    "f (found, node, r') = Inr y"
    using assms by (auto simp: bind_result_Inr_iff)
  then show ?thesis unfolding find_and_remove_iff by blast
qed

lemma parse_limit_rest:
  assumes "parse_limit api (Table t) = Inr (limit, node)"
  obtains t' where "node = Table t'" "fst ` set t' = fst ` set t - limit_keys"
proof -
  have "node = Table (AList.delete ''allow_netting'' (AList.delete ''short_risk_exposure_limit''
    (AList.delete ''long_risk_exposure_limit'' (AList.delete ''short_position_limit''
    (AList.delete ''long_position_limit'' t)))))"
    using assms unfolding parse_limit_def
    by - ((drule bind_find_and_remove, elim exE, simp only: prod.case)+,
        simp only: sum.inject prod.inject)
  then show ?thesis
    by (rule that) (simp only: keys_delete limit_keys_def diff_five)
qed

text \<open>The shape of a table of limits that is accepted: nested tables down to the known keys.\<close>

definition table_of :: "('v toml \<Rightarrow> bool) \<Rightarrow> 'v toml \<Rightarrow> bool" where
  "table_of P node \<longleftrightarrow> (\<exists>t. node = Table t \<and> (\<forall>(key, value) \<in> set t. P value))"

definition limit_shape :: "'v toml \<Rightarrow> bool" where
  "limit_shape node \<longleftrightarrow> (\<exists>t. node = Table t \<and> fst ` set t \<subseteq> limit_keys)"

definition limits_shape :: "'v toml \<Rightarrow> bool" where
  "limits_shape = table_of (table_of (table_of limit_shape))"

lemma table_of_simps [simp]:
  "table_of P (Table [])"
  "table_of P (Table ((k, v) # t)) \<longleftrightarrow> P v \<and> table_of P (Table t)"
  by (simp_all add: table_of_def)

lemma parse_limit_shape:
  assumes "parse_limit api (Table t) = Inr (limit, node)" "check_empty node = Inr ()"
  shows "limit_shape (Table t)"
proof -
  obtain t' where "node = Table t'" "fst ` set t' = fst ` set t - limit_keys"
    by (rule parse_limit_rest [OF assms(1)])
  with assms(2) show ?thesis by (auto simp: limit_shape_def)
qed

lemma parse_limits_symbols_shape:
  "parse_limits_symbols api t r = Inr r' \<Longrightarrow> table_of limit_shape (Table t)"
proof (induction t arbitrary: r)
  case (Cons x t)
  obtain k v where x: "x = (k, v)" by fastforce
  with Cons.prems obtain t4 where v: "v = Table t4" by (cases v) auto
  from Cons.prems obtain limit node where p: "parse_limit api (Table t4) = Inr (limit, node)"
    "check_empty node = Inr ()" and r: "parse_limits_symbols api t (try_emplace k limit r) = Inr r'"
    by (auto simp: x v bind_result_Inr_iff Let_def)
  from parse_limit_shape [OF p] Cons.IH [OF r] show ?case by (simp add: x v)
qed simp

lemma parse_limits_exchanges_shape:
  "parse_limits_exchanges api t r = Inr r' \<Longrightarrow> table_of (table_of limit_shape) (Table t)"
proof (induction t arbitrary: r)
  case (Cons x t)
  obtain k v where x: "x = (k, v)" by fastforce
  with Cons.prems obtain t3 where v: "v = Table t3" by (cases v) auto
  from Cons.prems obtain w where w: "parse_limits_symbols api t3 (find_or [] r k) = Inr w"
    and r: "parse_limits_exchanges api t (AList.update k w r) = Inr r'"
    by (auto simp: x v bind_result_Inr_iff)
  from parse_limits_symbols_shape [OF w] Cons.IH [OF r] show ?case by (simp add: x v)
qed simp

lemma parse_limits_names_shape:
  "parse_limits_names api t r = Inr r' \<Longrightarrow> limits_shape (Table t)"
  unfolding limits_shape_def
proof (induction t arbitrary: r)
  case (Cons x t)
  obtain k v where x: "x = (k, v)" by fastforce
  with Cons.prems obtain t2 where v: "v = Table t2" by (cases v) auto
  from Cons.prems obtain w where w: "parse_limits_exchanges api t2 (find_or [] r k) = Inr w"
    and r: "parse_limits_names api t (AList.update k w r) = Inr r'"
    by (auto simp: x v bind_result_Inr_iff)
  from parse_limits_exchanges_shape [OF w] Cons.IH [OF r] show ?case by (simp add: x v)
qed simp

lemma parse_limits_shape:
  assumes "parse_limits api (Table t) name = Inr (r, node)"
  shows "node = Table (AList.delete name t)" "map_of t name = Some v \<Longrightarrow> limits_shape v"
proof -
  obtain found where f: "find_and_remove (Table t) name (\<lambda>node result. case node of
      Table table \<Rightarrow> parse_limits_names api table result | _ \<Rightarrow> Inl FatalError) [] = Inr (found, node, r)"
    using assms by (auto simp: parse_limits_def bind_result_Inr_iff)
  from f show "node = Table (AList.delete name t)" unfolding find_and_remove_iff by (rule conjunct1)
  from f show "limits_shape v" if "map_of t name = Some v"
    unfolding find_and_remove_iff using that
    by (auto split: toml.splits dest: parse_limits_names_shape)
qed

lemma parse_symbols_shape:
  assumes "parse_symbols api (Table t) = Inr (r, node)"
  shows "node = Table (AList.delete ''symbols'' t)" "\<exists>v. map_of t ''symbols'' = Some v \<and> (\<forall>t'. v \<noteq> Table t')"
proof -
  have f: "find_and_remove (Table t) ''symbols'' (\<lambda>node result. case node of
        Value _ \<Rightarrow> emplace_symbol api node result | Array arr \<Rightarrow> emplace_symbols api arr result
      | Table _ \<Rightarrow> Inl FatalError) [] = Inr (True, node, r)"
    using assms by (auto simp: parse_symbols_def bind_result_Inr_iff split: if_splits)
  from f show "node = Table (AList.delete ''symbols'' t)" unfolding find_and_remove_iff by (rule conjunct1)
  from f show "\<exists>v. map_of t ''symbols'' = Some v \<and> (\<forall>t'. v \<noteq> Table t')"
    unfolding find_and_remove_iff by (auto split: option.splits toml.splits)
qed

text \<open>
  C21: A configuration file is accepted only if it has a list of symbols, no key besides the symbols,
  the accounts and the users, and, below accounts and users, exactly three levels of tables with
  only the five known keys of a limit in the innermost one: a misspelt key never passes silently.
\<close>

theorem config_strict:
  assumes "config_new api (Table t) = Inr c"
  shows "''symbols'' \<in> fst ` set t \<and> fst ` set t \<subseteq> {''symbols'', ''accounts'', ''users''} \<and>
    (\<forall>name \<in> {''accounts'', ''users''}. \<forall>v. map_of t name = Some v \<longrightarrow> limits_shape v)"
proof -
  obtain sy n1 ac n2 us n3 where p: "parse_symbols api (Table t) = Inr (sy, n1)"
    "parse_limits api n1 ''accounts'' = Inr (ac, n2)" "parse_limits api n2 ''users'' = Inr (us, n3)"
    "check_empty n3 = Inr ()"
    using assms by (auto simp: config_new_def bind_result_Inr_iff)
  note s = parse_symbols_shape [OF p(1)]
  note a = parse_limits_shape [OF p(2) [unfolded s(1)]]
  note u = parse_limits_shape [OF p(3) [unfolded a(1)]]
  have "AList.delete ''users'' (AList.delete ''accounts'' (AList.delete ''symbols'' t)) = []"
    using p(4) by (simp add: u(1))
  then have "fst ` set t - {''symbols''} - {''accounts''} - {''users''} = {}"
    by (metis keys_delete image_empty set_empty)
  moreover have "''symbols'' \<in> fst ` set t" using s(2) by (metis domI dom_map_of_conv_image_fst)
  moreover have "limits_shape v" if "map_of t ''accounts'' = Some v \<or> map_of t ''users'' = Some v" for v
    using that a(2) u(2) by (auto simp: AList.delete_conv)
  ultimately show ?thesis by blast
qed

datatype sample_toml = S string | D double | B bool

definition sample_toml :: "sample_toml toml_api" where
  "sample_toml =
     \<lparr>toml_string = (\<lambda>v. case v of S s \<Rightarrow> Some s | _ \<Rightarrow> None),
      toml_double = (\<lambda>v. case v of D x \<Rightarrow> if wf_double x then Some x else None | _ \<Rightarrow> None),
      toml_bool = (\<lambda>v. case v of B b \<Rightarrow> Some b | _ \<Rightarrow> None)\<rparr>"

section \<open>Writing and reading a configuration\<close>

text \<open>
  A configuration written as a TOML document, with a numeric limit left out where it is NaN, for any
  way to write texts, numbers and flags as TOML values.
\<close>

definition written :: "(double \<Rightarrow> 'v) \<Rightarrow> string \<Rightarrow> double \<Rightarrow> (string \<times> 'v toml) list" where
  "written wd key x = (if isnan x then [] else [(key, Value (wd x))])"

definition write_limit :: "(double \<Rightarrow> 'v) \<Rightarrow> (bool \<Rightarrow> 'v) \<Rightarrow> limit \<Rightarrow> 'v toml" where
  "write_limit wd wb l = Table
     (written wd ''long_position_limit'' (lim_long_position_limit l) @
      written wd ''short_position_limit'' (lim_short_position_limit l) @
      written wd ''long_risk_exposure_limit'' (lim_long_risk_exposure_limit l) @
      written wd ''short_risk_exposure_limit'' (lim_short_risk_exposure_limit l) @
      [(''allow_netting'', Value (wb (lim_allow_netting l)))])"

definition write_map :: "('a \<Rightarrow> 'v toml) \<Rightarrow> (string, 'a) hash_map \<Rightarrow> 'v toml" where
  "write_map f m = Table (map (\<lambda>(k, x). (k, f x)) m)"

definition write_config ::
    "(string \<Rightarrow> 'v) \<Rightarrow> (double \<Rightarrow> 'v) \<Rightarrow> (bool \<Rightarrow> 'v) \<Rightarrow> config \<Rightarrow> 'v toml" where
  "write_config ws wd wb c =
     (let limits = write_map (write_map (write_map (write_limit wd wb))) in
      Table
        [(''accounts'', limits (cfg_accounts c)),
         (''symbols'', Array (map (Value \<circ> ws) (find_or [] (cfg_symbols c) EXCHANGE))),
         (''users'', limits (cfg_users c))])"

text \<open>A map with unique keys all of whose values satisfy a predicate.\<close>

definition all_values :: "('a \<Rightarrow> bool) \<Rightarrow> ('k, 'a) hash_map \<Rightarrow> bool" where
  "all_values P m \<longleftrightarrow> unique_keys m \<and> (\<forall>k v. map_of m k = Some v \<longrightarrow> P v)"

lemma all_values_simps [simp]:
  "all_values P []"
  "all_values P m \<Longrightarrow> P v \<Longrightarrow> all_values P (AList.update k v m)"
  "all_values P m \<Longrightarrow> P d \<Longrightarrow> P (find_or d m k)"
  by (auto simp: all_values_def find_or_def split: option.split)

text \<open>
  A configuration with unique keys all of whose limits satisfy a predicate. Reading a file gives one
  if the predicate holds of every limit read.
\<close>

definition all_limits :: "(limit \<Rightarrow> bool) \<Rightarrow> ('k, limits_of) hash_map \<Rightarrow> bool" where
  "all_limits P = all_values (all_values (all_values P))"

lemma all_values_iff: "all_values P m \<longleftrightarrow> unique_keys m \<and> (\<forall>(k, v) \<in> set m. P v)"
  by (auto simp: all_values_def unique_keys_map_of dest: map_of_SomeD)

lemma unique_limits_iff: "unique_limits c \<longleftrightarrow> all_limits (\<lambda>_. True) c"
  by (auto simp: unique_limits_def all_limits_def all_values_iff)

lemma all_limits_unique: "all_limits P c \<Longrightarrow> unique_limits c"
  unfolding unique_limits_iff by (simp add: all_limits_def all_values_def)

lemma all_limits_get_limit: "all_limits P c \<Longrightarrow> P default_limit \<Longrightarrow> P (get_limit c k e y)"
  by (auto simp: all_limits_def all_values_def get_limit_def split: option.split)

lemma find_and_remove_written:
  assumes "key \<notin> fst ` set rest" "toml_double api (wd x) = Some x"
    and "x = NaN \<Longrightarrow> field_update (\<lambda>_. x) limit = limit"
  shows "find_and_remove (Table (written wd key x @ rest)) key (read_number api field_update) limit =
    Inr (x \<noteq> NaN, Table rest, field_update (\<lambda>_. x) limit)"
proof -
  have "map_of rest key = None" "AList.delete key rest = rest"
    using assms(1) by (simp_all add: map_of_eq_None_iff delete_id)
  with assms(2,3) show ?thesis
    by (cases "x = NaN") (simp_all add: written_def isnan_def find_and_remove_def read_number_def
        node_value_def deref_def)
qed

lemma keys_written: "fst ` set (written wd key x) \<subseteq> {key}"
  by (simp add: written_def)

lemma parse_write_limit:
  assumes "\<forall>x. wf_double x \<longrightarrow> toml_double api (wd x) = Some x" "\<forall>b. toml_bool api (wb b) = Some b"
    and "typed_limit l"
  shows "parse_limit api (write_limit wd wb l) = Inr (l, Table [])"
proof -
  note wr = find_and_remove_written [where api = api and wd = wd]
  have flag: "find_and_remove (Table [(''allow_netting'', Value (wb b))]) ''allow_netting'' (read_flag api) limit =
      Inr (True, Table [], limit\<lparr>lim_allow_netting := b\<rparr>)" for b limit
    by (simp add: find_and_remove_def read_flag_def node_value_def deref_def assms)
  show ?thesis
    unfolding parse_limit_def write_limit_def
    by (subst wr, (use keys_written in \<open>fastforce\<close>), (use assms(1,3) in \<open>simp add: typed_limit_def\<close>), (simp add: default_limit_def), simp only: bind_result_simps prod.case)+
      (simp add: flag default_limit_def)
qed

lemma update_fresh: "k \<notin> fst ` set m \<Longrightarrow> AList.update k v m = m @ [(k, v)]"
  by (induction m) auto

lemma find_or_fresh: "k \<notin> fst ` set m \<Longrightarrow> find_or d m k = d"
  by (simp add: find_or_def map_of_eq_None_iff [symmetric])

lemma parse_write_symbols:
  assumes "\<forall>x. wf_double x \<longrightarrow> toml_double api (wd x) = Some x" "\<forall>b. toml_bool api (wb b) = Some b"
    and "unique_keys (r @ w)" "\<forall>(y, l) \<in> set w. typed_limit l"
  shows "parse_limits_symbols api (map (\<lambda>(k, x). (k, write_limit wd wb x)) w) r = Inr (r @ w)"
  using assms(3,4)
proof (induction w arbitrary: r)
  case (Cons x w)
  obtain k l where x: "x = (k, l)" by fastforce
  have "k \<notin> fst ` set r" using Cons.prems x by (auto simp: unique_keys_def)
  then have e: "try_emplace k l r = r @ [(k, l)]"
    using update_fresh [of k r l] by (simp add: try_emplace_def map_of_eq_None_iff [symmetric])
  obtain t where t: "write_limit wd wb l = Table t" by (simp add: write_limit_def)
  have "parse_limit api (Table t) = Inr (l, Table [])"
    using parse_write_limit [OF assms(1,2), of l] Cons.prems(2) x by (simp add: t)
  with Cons.IH [of "r @ [(k, l)]"] Cons.prems x show ?case by (simp add: t e check_empty_def)
qed simp

lemma parse_write_exchanges:
  assumes "\<forall>x. wf_double x \<longrightarrow> toml_double api (wd x) = Some x" "\<forall>b. toml_bool api (wb b) = Some b"
    and "unique_keys (r @ v)" "\<forall>(e, w) \<in> set v. all_values typed_limit w"
  shows "parse_limits_exchanges api (map (\<lambda>(k, x). (k, write_map (write_limit wd wb) x)) v) r = Inr (r @ v)"
  using assms(3,4)
proof (induction v arbitrary: r)
  case (Cons x v)
  obtain k w where x: "x = (k, w)" by fastforce
  have fresh: "k \<notin> fst ` set r" using Cons.prems x by (auto simp: unique_keys_def)
  with Cons.IH [of "r @ [(k, w)]"] Cons.prems x parse_write_symbols [OF assms(1,2), of "[]" w]
  show ?case by (simp add: write_map_def find_or_fresh update_fresh all_values_iff)
qed simp

lemma parse_write_names:
  assumes "\<forall>x. wf_double x \<longrightarrow> toml_double api (wd x) = Some x" "\<forall>b. toml_bool api (wb b) = Some b"
    and "unique_keys (r @ c)" "\<forall>(k, v) \<in> set c. all_values (all_values typed_limit) v"
  shows "parse_limits_names api
    (map (\<lambda>(k, x). (k, write_map (write_map (write_limit wd wb)) x)) c) r = Inr (r @ c)"
  using assms(3,4)
proof (induction c arbitrary: r)
  case (Cons x c)
  obtain k v where x: "x = (k, v)" by fastforce
  have fresh: "k \<notin> fst ` set r" using Cons.prems x by (auto simp: unique_keys_def)
  have "parse_limits_exchanges api (map (\<lambda>(k, x). (k, write_map (write_limit wd wb) x)) v) [] = Inr v"
    using parse_write_exchanges [OF assms(1,2), of "[]" v] Cons.prems x by (simp add: all_values_iff)
  with Cons.IH [of "r @ [(k, v)]"] Cons.prems x fresh
  show ?case by (simp add: write_map_def [of "write_map _"] find_or_fresh update_fresh)
qed simp

lemma parse_write_limits:
  assumes "\<forall>x. wf_double x \<longrightarrow> toml_double api (wd x) = Some x" "\<forall>b. toml_bool api (wb b) = Some b"
    and "all_limits typed_limit c" "map_of t name = Some (write_map (write_map (write_map (write_limit wd wb))) c)"
  shows "parse_limits api (Table t) name = Inr (c, Table (AList.delete name t))"
  using parse_write_names [OF assms(1,2), of "[]" c] assms(3,4)
  by (simp add: parse_limits_def find_and_remove_def all_limits_def all_values_iff
      write_map_def [of "write_map (write_map _)"])

lemma emplace_written_symbols:
  assumes "\<forall>s. toml_string api (ws s) = Some s" "distinct (ys @ syms)" "ys \<noteq> []"
  shows "emplace_symbols api (map (Value \<circ> ws) syms) [(EXCHANGE, ys)] = Inr [(EXCHANGE, ys @ syms)]"
  using assms(2,3)
proof (induction syms arbitrary: ys)
  case (Cons s syms)
  then show ?case
    using assms(1) Cons.IH [of "ys @ [s]"]
    by (simp add: emplace_symbol_def node_value_def deref_def find_or_def emplace_def)
qed simp

lemma config_new_write:
  assumes "\<forall>s. toml_string api (ws s) = Some s" "\<forall>x. wf_double x \<longrightarrow> toml_double api (wd x) = Some x"
    "\<forall>b. toml_bool api (wb b) = Some b"
    and "all_limits typed_limit (cfg_accounts c)" "all_limits typed_limit (cfg_users c)" "cfg_strategies c = []"
    and "cfg_symbols c = [(EXCHANGE, syms)]" "distinct syms" "syms \<noteq> []"
  shows "config_new api (write_config ws wd wb c) = Inr c"
proof -
  obtain s rest where syms: "syms = s # rest" using assms(9) by (cases syms) auto
  have "emplace_symbols api (map (Value \<circ> ws) syms) [] = Inr [(EXCHANGE, syms)]"
    using emplace_written_symbols [OF assms(1), of "[s]" rest] assms(1,8)
    by (simp add: syms emplace_symbol_def node_value_def deref_def emplace_def)
  then show ?thesis
    by (simp add: config_new_def write_config_def Let_def parse_symbols_def find_and_remove_def assms(7) find_or_def
        parse_write_limits [OF assms(2,3,4)] parse_write_limits [OF assms(2,3,5)] check_empty_def) (use assms(6,7) in simp)
qed

text \<open>
  C18: Reading a configuration inverts writing it: the symbols, all of them attributed to the one
  built-in exchange, and the limits of every account and user come back exactly, with limits that
  are not written read as NaN.
\<close>

theorem config_round_trip:
  assumes "\<forall>s. toml_string api (ws s) = Some s" "\<forall>x. wf_double x \<longrightarrow> toml_double api (wd x) = Some x"
    "\<forall>b. toml_bool api (wb b) = Some b"
    and "all_limits typed_limit (cfg_accounts c)" "all_limits typed_limit (cfg_users c)" "cfg_strategies c = []"
    and "cfg_symbols c = [(EXCHANGE, syms)]" "distinct syms" "syms \<noteq> []"
  shows "config_new api (write_config ws wd wb c) = Inr c"
  by (rule config_new_write [OF assms])

definition sample_config_file :: config where
  "sample_config_file =
     \<lparr>cfg_symbols = [(EXCHANGE, [''^BTC'', ''^ETH''])], cfg_accounts = sample_config, cfg_users = [(''trader'', [])],
      cfg_strategies = []\<rparr>"

definition sample_document :: "sample_toml toml" where
  "sample_document = write_config S D B sample_config_file"

lemma sample_toml_simps [simp]:
  "toml_string sample_toml (S s) = Some s" "toml_double sample_toml (D x) = (if wf_double x then Some x else None)"
  "toml_bool sample_toml (B b) = Some b"
  by (simp_all add: sample_toml_def)

lemma typed_sample_config: "all_limits typed_limit sample_config" "all_limits typed_limit [(''trader'', [])]"
proof -
  have "wf_double (grid one_exp 10)" "wf_double (grid one_exp 5)" "wf_double (grid one_exp 2)"
    by (rule wf_grid; simp add: one_exp_le)+
  then show "all_limits typed_limit sample_config" "all_limits typed_limit [(''trader'', [])]"
    by (simp_all add: sample_config_def all_limits_def all_values_iff unique_keys_def typed_limit_def default_limit_def)
qed

theorem config_round_trip_witness:
  "config_new sample_toml sample_document = Inr sample_config_file"
  unfolding sample_document_def
  by (rule config_round_trip [where syms = "[''^BTC'', ''^ETH'']"])
    (simp_all add: sample_config_file_def typed_sample_config)

lemma sample_document_accepted: "config_new sample_toml sample_document = Inr sample_config_file"
  unfolding sample_document_def
  by (rule config_new_write [where syms = "[''^BTC'', ''^ETH'']"])
    (simp_all add: sample_config_file_def typed_sample_config)

theorem config_strict_witness:
  "(case sample_document of Table t \<Rightarrow> \<forall>v. map_of t ''accounts'' = Some v \<longrightarrow> limits_shape v | _ \<Rightarrow> False)"
proof -
  obtain t where t: "sample_document = Table t" by (simp add: sample_document_def write_config_def Let_def)
  show ?thesis using config_strict [OF sample_document_accepted [unfolded t]] by (simp add: t)
qed

section \<open>From the file to the shared state\<close>

lemma parse_limits_symbols_all:
  assumes "\<And>v l v'. parse_limit api v = Inr (l, v') \<Longrightarrow> P l"
  shows "parse_limits_symbols api t r = Inr r' \<Longrightarrow> all_values P r \<Longrightarrow> all_values P r'"
proof (induction t arbitrary: r)
  case (Cons x t)
  obtain k v where x: "x = (k, v)" by fastforce
  with Cons.prems obtain t4 where v: "v = Table t4" by (cases v) auto
  from Cons.prems(1) obtain l v' where l: "parse_limit api (Table t4) = Inr (l, v')"
    and r: "parse_limits_symbols api t (try_emplace k l r) = Inr r'"
    by (auto simp: x v bind_result_Inr_iff)
  have "all_values P (try_emplace k l r)"
    using Cons.prems(2) assms [OF l] by (simp add: try_emplace_def split: option.split)
  with Cons.IH [OF r] show ?case by simp
qed simp

lemma parse_limits_exchanges_all:
  assumes "\<And>v l v'. parse_limit api v = Inr (l, v') \<Longrightarrow> P l"
  shows "parse_limits_exchanges api t r = Inr r' \<Longrightarrow> all_values (all_values P) r \<Longrightarrow> all_values (all_values P) r'"
proof (induction t arbitrary: r)
  case (Cons x t)
  obtain k v where x: "x = (k, v)" by fastforce
  with Cons.prems obtain t3 where v: "v = Table t3" by (cases v) auto
  from Cons.prems(1) obtain w where w: "parse_limits_symbols api t3 (find_or [] r k) = Inr w"
    and r: "parse_limits_exchanges api t (AList.update k w r) = Inr r'"
    by (auto simp: x v bind_result_Inr_iff)
  from parse_limits_symbols_all [OF assms w] Cons.IH [OF r] Cons.prems(2) show ?case by simp
qed simp

lemma parse_limits_names_all:
  assumes "\<And>v l v'. parse_limit api v = Inr (l, v') \<Longrightarrow> P l"
  shows "parse_limits_names api t r = Inr r' \<Longrightarrow> all_limits P r \<Longrightarrow> all_limits P r'"
  unfolding all_limits_def
proof (induction t arbitrary: r)
  case (Cons x t)
  obtain k v where x: "x = (k, v)" by fastforce
  with Cons.prems obtain t2 where v: "v = Table t2" by (cases v) auto
  from Cons.prems(1) obtain w where w: "parse_limits_exchanges api t2 (find_or [] r k) = Inr w"
    and r: "parse_limits_names api t (AList.update k w r) = Inr r'"
    by (auto simp: x v bind_result_Inr_iff)
  from parse_limits_exchanges_all [OF assms w] Cons.IH [OF r] Cons.prems(2) show ?case by simp
qed simp

lemma find_and_remove_keeps:
  assumes "find_and_remove node key callback r = Inr (found, node', r')" "Q r"
    and "\<And>v r r'. callback v r = Inr r' \<Longrightarrow> Q r \<Longrightarrow> Q r'"
  shows "Q r'"
  using assms by (auto simp: find_and_remove_def bind_result_Inr_iff split: toml.splits option.splits)

lemma parse_limits_all:
  assumes "parse_limits api node name = Inr (c, node')" "\<And>v l v'. parse_limit api v = Inr (l, v') \<Longrightarrow> P l"
  shows "all_limits P c"
proof -
  obtain found where f: "find_and_remove node name (\<lambda>node result. case node of
      Table table \<Rightarrow> parse_limits_names api table result | _ \<Rightarrow> Inl FatalError) [] = Inr (found, node', c)"
    using assms(1) by (auto simp: parse_limits_def bind_result_Inr_iff)
  have "all_limits P r'" if "parse_limits_names api t r = Inr r'" "all_limits P r" for t r r'
    by (rule parse_limits_names_all [OF assms(2) that])
  then show ?thesis
    by (intro find_and_remove_keeps [OF f, where Q = "all_limits P"])
      (simp add: all_limits_def, auto split: toml.splits)
qed

lemma config_new_all:
  assumes "config_new api node = Inr c" "\<And>v l v'. parse_limit api v = Inr (l, v') \<Longrightarrow> P l"
  shows "all_limits P (cfg_accounts c)" "all_limits P (cfg_users c)" "cfg_strategies c = []"
  using assms(1) by (auto simp: config_new_def bind_result_Inr_iff dest: parse_limits_all [OF _ assms(2)])

lemma config_new_unique:
  assumes "config_new api node = Inr c"
  shows "unique_limits (cfg_accounts c)" "unique_limits (cfg_users c)"
  using config_new_all(1,2) [OF assms, of "\<lambda>_. True"] by (simp_all add: all_limits_unique)

text \<open>The TOML library returns values of the type \<^verbatim>\<open>double\<close>; so all limits of a file are.\<close>

definition numbers_law :: "'v toml_api \<Rightarrow> bool" where
  "numbers_law api \<longleftrightarrow> (\<forall>v x. toml_double api v = Some x \<longrightarrow> wf_double x)"

lemma read_number_typed:
  assumes "numbers_law api" "read_number api field_update v l = Inr l'" "typed_limit l"
    and "\<And>x. wf_double x \<Longrightarrow> typed_limit (field_update (\<lambda>_. x) l)"
  shows "typed_limit l'"
proof -
  obtain x where x: "deref (node_value (toml_double api) v) = Inr x" "l' = field_update (\<lambda>_. x) l"
    using assms(2) by (auto simp: read_number_def bind_result_Inr_iff)
  then have "wf_double x"
    using assms(1) by (auto simp: numbers_law_def deref_def node_value_def split: toml.splits option.splits)
  then show ?thesis unfolding x(2) by (rule assms(4))
qed

lemma parse_limit_typed:
  assumes "numbers_law api" "parse_limit api v = Inr (l, v')"
  shows "typed_limit l"
proof -
  note keeps = find_and_remove_keeps [where Q = typed_limit] and number = read_number_typed [OF assms(1)]
  have flag: "typed_limit r'" if "read_flag api v r = Inr r'" "typed_limit r" for v r r'
    using that by (auto simp: read_flag_def bind_result_Inr_iff typed_limit_def)
  obtain b1 b2 b3 b4 b5 v1 v2 v3 v4 l1 l2 l3 l4 where
    1: "find_and_remove v ''long_position_limit'' (read_number api lim_long_position_limit_update) default_limit = Inr (b1, v1, l1)"
    and 2: "find_and_remove v1 ''short_position_limit'' (read_number api lim_short_position_limit_update) l1 = Inr (b2, v2, l2)"
    and 3: "find_and_remove v2 ''long_risk_exposure_limit'' (read_number api lim_long_risk_exposure_limit_update) l2 = Inr (b3, v3, l3)"
    and 4: "find_and_remove v3 ''short_risk_exposure_limit'' (read_number api lim_short_risk_exposure_limit_update) l3 = Inr (b4, v4, l4)"
    and 5: "find_and_remove v4 ''allow_netting'' (read_flag api) l4 = Inr (b5, v', l)"
    using assms(2) by (auto simp: parse_limit_def bind_result_Inr_iff)
  have "typed_limit l1" by (rule keeps [OF 1 typed_default_limit]) (erule number; simp add: typed_limit_def)
  then have "typed_limit l2" by (rule keeps [OF 2]) (erule number; simp add: typed_limit_def)
  then have "typed_limit l3" by (rule keeps [OF 3]) (erule number; simp add: typed_limit_def)
  then have "typed_limit l4" by (rule keeps [OF 4]) (erule number; simp add: typed_limit_def)
  then show ?thesis by (rule keeps [OF 5]) (rule flag)
qed

lemma config_limits_typed:
  assumes "numbers_law api" "config_new api node = Inr c"
  shows "typed_limit (get_limit_by_account (shared_from_config c) k e y)"
    "typed_limit (get_limit_by_user (shared_from_config c) k e y)"
proof -
  have all: "all_limits typed_limit (cfg_accounts c)" "all_limits typed_limit (cfg_users c)"
    by (rule config_new_all [OF assms(2)], erule parse_limit_typed [OF assms(1)])+
  then show "typed_limit (get_limit_by_account (shared_from_config c) k e y)"
    "typed_limit (get_limit_by_user (shared_from_config c) k e y)"
    using all_limits_get_limit [OF all(1)] all_limits_get_limit [OF all(2)]
    by (simp_all add: shared_from_config_def shared_new_def get_limit_by_account_def get_limit_by_user_def
        get_limit_create_limits all_limits_unique)
qed



end
