(* ===== verification/Sqlite.thy ===== *)
theory Sqlite
  imports Messages
begin

text \<open>
  The wrapper around the SQLite C library (\<^verbatim>\<open>src/src/roq/third_party/sqlite/\<close>): prepared statements,
  the step loop, the typed column accessors and \<^verbatim>\<open>Connection::exec\<close>. The library itself is not part
  of the repository. What it does with a query appears as an \<open>outcome\<close>: the result of
  \<^verbatim>\<open>sqlite3_prepare\<close>, the rows that \<^verbatim>\<open>sqlite3_step\<close> delivers and the code it ends with; a function
  from queries and databases to outcomes is an argument of the definitions.
\<close>

section \<open>Values and result codes\<close>

datatype cell =
    SQL_NULL
  | SQL_INTEGER int
  | SQL_FLOAT double
  | SQL_TEXT string
  | SQL_BLOB string

datatype result_code =
    SQLITE_OK
  | SQLITE_ROW
  | SQLITE_DONE
  | SQLITE_FAILURE int

text \<open>After its rows a statement ends with \<^verbatim>\<open>SQLITE_DONE\<close>, or with the failure in \<open>out_failure\<close>.\<close>

record outcome =
  out_prepare :: result_code
  out_rows :: "cell list list"
  out_failure :: "int option"

type_synonym ('q, 'db) sqlite_library = "'q \<Rightarrow> 'db \<Rightarrow> outcome \<times> 'db"

section \<open>Statement\<close>

text \<open>A prepared statement: the rows it will deliver, how it ends, the current row.\<close>

record statement =
  stm_next :: "cell list list"
  stm_failure :: "int option"
  stm_row :: "cell list"

definition statement_new :: "outcome \<Rightarrow> error + statement" where
  "statement_new res =
     (if out_prepare res \<noteq> SQLITE_OK then Inl RuntimeError
      else Inr \<lparr>stm_next = out_rows res, stm_failure = out_failure res, stm_row = []\<rparr>)"

definition sqlite3_step :: "statement \<Rightarrow> result_code \<times> statement" where
  "sqlite3_step st =
     (case stm_next st of
        [] \<Rightarrow>
          ((case stm_failure st of None \<Rightarrow> SQLITE_DONE | Some code \<Rightarrow> SQLITE_FAILURE code), st)
      | row # rest \<Rightarrow> (SQLITE_ROW, st\<lparr>stm_next := rest, stm_row := row\<rparr>))"

definition statement_step :: "statement \<Rightarrow> error + bool \<times> statement" where
  "statement_step st =
     (let (result, st') = sqlite3_step st in
      case result of
        SQLITE_DONE \<Rightarrow> Inr (False, st')
      | SQLITE_ROW \<Rightarrow> Inr (True, st')
      | _ \<Rightarrow> Inl RuntimeError)"

definition statement_reset :: "(statement \<Rightarrow> result_code \<times> statement) \<Rightarrow> statement \<Rightarrow> error + statement" where
  "statement_reset sqlite3_reset st =
     (let (result, st') = sqlite3_reset st in
      if result \<noteq> SQLITE_OK then Inl RuntimeError else Inr st')"

text \<open>
  The overloads of \<^verbatim>\<open>bind\<close>. Columns are counted from zero here and from one by the library, whose
  binding function is the first argument.
\<close>

type_synonym sqlite3_bind = "int \<Rightarrow> cell \<Rightarrow> statement \<Rightarrow> result_code \<times> statement"

definition statement_bind :: "sqlite3_bind \<Rightarrow> nat \<Rightarrow> cell \<Rightarrow> statement \<Rightarrow> error + statement" where
  "statement_bind bind column value st =
     (let real_column = int column + 1;
          (result, st') = bind real_column value st in
      if result \<noteq> SQLITE_OK then Inl RuntimeError else Inr st')"

definition statement_bind_null :: "sqlite3_bind \<Rightarrow> nat \<Rightarrow> statement \<Rightarrow> error + statement" where
  "statement_bind_null bind column = statement_bind bind column SQL_NULL"

definition statement_bind_int32 :: "sqlite3_bind \<Rightarrow> nat \<Rightarrow> 32 word \<Rightarrow> statement \<Rightarrow> error + statement" where
  "statement_bind_int32 bind column value = statement_bind bind column (SQL_INTEGER (sint value))"

definition statement_bind_int64 :: "sqlite3_bind \<Rightarrow> nat \<Rightarrow> 64 word \<Rightarrow> statement \<Rightarrow> error + statement" where
  "statement_bind_int64 bind column value = statement_bind bind column (SQL_INTEGER (sint value))"

definition statement_bind_double :: "sqlite3_bind \<Rightarrow> nat \<Rightarrow> double \<Rightarrow> statement \<Rightarrow> error + statement" where
  "statement_bind_double bind column value = statement_bind bind column (SQL_FLOAT value)"

definition statement_bind_text :: "sqlite3_bind \<Rightarrow> nat \<Rightarrow> string \<Rightarrow> statement \<Rightarrow> error + statement" where
  "statement_bind_text bind column value = statement_bind bind column (SQL_TEXT value)"

section \<open>Column accessors\<close>

text \<open>
  The program reads only columns it has selected; past the end of a row the model has NULL.
  \<^verbatim>\<open>get<int32_t>\<close> returns what \<^verbatim>\<open>sqlite3_column_int\<close> makes of a
  64-bit value, which is an argument; the other accessors read all 64 bits.
\<close>

definition column :: "nat \<Rightarrow> cell list \<Rightarrow> cell" where
  "column i row = (if i < length row then row ! i else SQL_NULL)"

definition is_null :: "nat \<Rightarrow> cell list \<Rightarrow> bool" where
  "is_null i row = (case column i row of SQL_NULL \<Rightarrow> True | _ \<Rightarrow> False)"

definition get_int32 :: "(int \<Rightarrow> int) \<Rightarrow> nat \<Rightarrow> cell list \<Rightarrow> error + int" where
  "get_int32 sqlite3_column_int i row =
     (case column i row of
        SQL_NULL \<Rightarrow> Inr 0
      | SQL_INTEGER n \<Rightarrow> Inr (sqlite3_column_int n)
      | _ \<Rightarrow> Inl RuntimeError)"

definition get_uint32 :: "nat \<Rightarrow> cell list \<Rightarrow> error + u32" where
  "get_uint32 i row =
     (case column i row of
        SQL_NULL \<Rightarrow> Inr 0
      | SQL_INTEGER n \<Rightarrow>
          if n < 0 \<or> n > 2 ^ 32 - 1 then Inl RuntimeError else Inr (word_of_int n)
      | _ \<Rightarrow> Inl RuntimeError)"

definition get_int64 :: "nat \<Rightarrow> cell list \<Rightarrow> error + int" where
  "get_int64 i row =
     (case column i row of
        SQL_NULL \<Rightarrow> Inr 0
      | SQL_INTEGER n \<Rightarrow> Inr n
      | _ \<Rightarrow> Inl RuntimeError)"

definition get_uint64 :: "nat \<Rightarrow> cell list \<Rightarrow> error + u64" where
  "get_uint64 i row =
     (case column i row of
        SQL_NULL \<Rightarrow> Inr 0
      | SQL_INTEGER tmp \<Rightarrow> if tmp < 0 then Inl RuntimeError else Inr (word_of_int tmp)
      | _ \<Rightarrow> Inl RuntimeError)"

definition get_double :: "nat \<Rightarrow> cell list \<Rightarrow> error + double" where
  "get_double i row =
     (case column i row of
        SQL_NULL \<Rightarrow> Inr NaN
      | SQL_INTEGER tmp \<Rightarrow> Inr (double_of_int tmp)
      | SQL_FLOAT x \<Rightarrow> Inr x
      | _ \<Rightarrow> Inl RuntimeError)"

definition get_string :: "nat \<Rightarrow> cell list \<Rightarrow> error + string" where
  "get_string i row =
     (case column i row of
        SQL_NULL \<Rightarrow> Inr []
      | SQL_TEXT s \<Rightarrow> Inr s
      | _ \<Rightarrow> Inl RuntimeError)"

lemmas get_defs = get_uint32_def get_int64_def get_uint64_def get_double_def get_string_def column_def

section \<open>Running statements\<close>

text \<open>The loop \<^verbatim>\<open>while (statement.step())\<close> with the decoding of a row and the callback.\<close>

lemma statement_step_next:
  "statement_step st = Inr (True, st') \<Longrightarrow> length (stm_next st') < length (stm_next st)"
  by (auto simp: statement_step_def sqlite3_step_def split: list.splits option.splits)

function fetch :: "(cell list \<Rightarrow> error + 'a) \<Rightarrow> statement \<Rightarrow> 'a list \<times> error option" where
  "fetch decode st =
     (case statement_step st of
        Inl e \<Rightarrow> ([], Some e)
      | Inr (got, st') \<Rightarrow>
          if \<not> got then ([], None)
          else
            (case decode (stm_row st') of
               Inl e \<Rightarrow> ([], Some e)
             | Inr x \<Rightarrow> let (xs, e) = fetch decode st' in (x # xs, e)))"
  by pat_completeness auto
termination
  by (relation "measure (\<lambda>(_, st). length (stm_next st))") (auto simp: statement_step_next)

declare fetch.simps [simp del]

definition select_rows ::
    "('q, 'db) sqlite_library \<Rightarrow> 'q \<Rightarrow> (cell list \<Rightarrow> error + 'a) \<Rightarrow> 'db \<Rightarrow> 'a list \<times> error option" where
  "select_rows lib query decode db =
     (case statement_new (fst (lib query db)) of
        Inl e \<Rightarrow> ([], Some e)
      | Inr st \<Rightarrow> fetch decode st)"

text \<open>A statement that is stepped once: the effect on the database, and the error if there is one.\<close>

definition step_once :: "('q, 'db) sqlite_library \<Rightarrow> 'q \<Rightarrow> 'db \<Rightarrow> (error + bool) \<times> 'db" where
  "step_once lib query db =
     (let (res, db') = lib query db in
      (bind_result (statement_new res) (\<lambda>st.
         bind_result (statement_step st) (\<lambda>(got, _). Inr got)), db'))"

definition error_of :: "error + 'a \<Rightarrow> error option" where
  "error_of r = (case r of Inl e \<Rightarrow> Some e | Inr _ \<Rightarrow> None)"

section \<open>Connection\<close>

text \<open>Opening a file is \<^verbatim>\<open>sqlite3_open\<close> of the library, which returns a code and the database.\<close>

definition connection_new :: "(string \<Rightarrow> result_code \<times> 'db) \<Rightarrow> string \<Rightarrow> error + 'db" where
  "connection_new sqlite3_open filename =
     (let (result, db) = sqlite3_open filename in
      if result \<noteq> SQLITE_OK then Inl RuntimeError else Inr db)"

definition connection_exec :: "('q, 'db) sqlite_library \<Rightarrow> 'q \<Rightarrow> 'db \<Rightarrow> error option \<times> 'db" where
  "connection_exec lib query db =
     (let (r, db') = step_once lib query db in
      (case r of
         Inl e \<Rightarrow> Some e
       | Inr got \<Rightarrow> if got then Some RuntimeError else None, db'))"

definition table_exists :: "(string, 'db) sqlite_library \<Rightarrow> string \<Rightarrow> 'db \<Rightarrow> (error + bool) \<times> 'db" where
  "table_exists lib name =
     step_once lib (''SELECT name FROM sqlite_master WHERE type='' @ [CHR 0x27] @ ''table'' @
       [CHR 0x27] @ '' AND name='' @ [CHR 0x27] @ name @ [CHR 0x27])"

definition rename_table ::
    "(string, 'db) sqlite_library \<Rightarrow> string \<Rightarrow> string \<Rightarrow> 'db \<Rightarrow> error option \<times> 'db" where
  "rename_table lib old_name new_name db =
     (let (r, db') = step_once lib (''ALTER TABLE '' @ old_name @ '' RENAME TO '' @ new_name) db
      in (error_of r, db'))"

definition drop_table :: "(string, 'db) sqlite_library \<Rightarrow> string \<Rightarrow> 'db \<Rightarrow> error option \<times> 'db" where
  "drop_table lib name db =
     (let (r, db') = step_once lib (''DROP TABLE '' @ name) db in (error_of r, db'))"

section \<open>What the loop returns\<close>

lemma fetch_eq:
  "fetch decode \<lparr>stm_next = [], stm_failure = c, stm_row = r\<rparr> =
     ([], map_option (\<lambda>_. RuntimeError) c)"
  "fetch decode \<lparr>stm_next = row # rows, stm_failure = c, stm_row = r\<rparr> =
     (case decode row of
        Inl e \<Rightarrow> ([], Some e)
      | Inr x \<Rightarrow>
          (let (xs, e) = fetch decode \<lparr>stm_next = rows, stm_failure = c, stm_row = row\<rparr> in (x # xs, e)))"
  by (subst fetch.simps, simp add: statement_step_def sqlite3_step_def split: option.split)+

lemma fetch_ok:
  assumes "\<And>row. row \<in> set rows \<Longrightarrow> decode row = Inr (f row)"
  shows "fetch decode \<lparr>stm_next = rows, stm_failure = None, stm_row = r\<rparr> = (map f rows, None)"
  using assms by (induction rows arbitrary: r) (simp_all add: fetch_eq)

lemma fetch_failure:
  "fetch decode \<lparr>stm_next = rows, stm_failure = Some c, stm_row = r\<rparr> \<noteq> (xs, None)"
proof (induction rows arbitrary: r xs)
  case (Cons row rows)
  then show ?case by (auto simp: fetch_eq split: sum.split prod.split) (metis option.exhaust)
qed (simp add: fetch_eq)

lemma fetch_None:
  "fetch decode \<lparr>stm_next = rows, stm_failure = c, stm_row = r\<rparr> = (xs, None) \<Longrightarrow>
     c = None \<and> map decode rows = map Inr xs"
proof (induction rows arbitrary: r xs)
  case (Cons row rows)
  then show ?case by (auto simp: fetch_eq split: sum.splits prod.splits)
qed (simp add: fetch_eq)

lemma select_rows_ok:
  assumes "fst (lib query db) = \<lparr>out_prepare = SQLITE_OK, out_rows = rows, out_failure = None\<rparr>"
    and "\<And>row. row \<in> set rows \<Longrightarrow> decode row = Inr (f row)"
  shows "select_rows lib query decode db = (map f rows, None)"
  using fetch_ok [of rows decode f] assms by (simp add: select_rows_def statement_new_def)



text \<open>
  The accessors for unsigned integers never wrap: a stored 64-bit integer is returned as it is
  when it fits the type, and refused otherwise.
\<close>

lemma get_unsigned_exact:
  assumes "column i row = SQL_INTEGER n" "- (2 ^ 63) \<le> n" "n < 2 ^ 63"
  shows "get_uint32 i row = (if 0 \<le> n \<and> n < 2 ^ 32 then Inr (word_of_int n) else Inl RuntimeError) \<and>
    get_uint64 i row = (if 0 \<le> n then Inr (word_of_int n) else Inl RuntimeError) \<and>
    (\<forall>w. get_uint32 i row = Inr w \<longrightarrow> uint w = n) \<and> (\<forall>w. get_uint64 i row = Inr w \<longrightarrow> uint w = n)"
  using assms by (auto simp: get_uint32_def get_uint64_def uint_word_of_int)

end
