(* ===== verification/Decimal.thy ===== *)
theory Decimal
  imports Prelude
begin

text \<open>
  Decimal text: how the program prints integers (\<^verbatim>\<open>fmt\<close> with \<open>{}\<close>) and how it reads them
  (\<^verbatim>\<open>std::from_chars\<close>, as used in \<^verbatim>\<open>control/session.cpp\<close> and \<^verbatim>\<open>control/manager.cpp\<close>). Reading
  consumes the longest prefix of digits, after an optional minus sign for a signed type, and
  distinguishes text that is no number from a number that does not fit; what follows the digits is
  not looked at.
\<close>

section \<open>Digits\<close>

definition digit :: "nat \<Rightarrow> char" where
  "digit d = char_of (48 + d)"

definition is_digit :: "char \<Rightarrow> bool" where
  "is_digit c \<longleftrightarrow> 48 \<le> (of_char c :: nat) \<and> (of_char c :: nat) \<le> 57"

definition digit_value :: "char \<Rightarrow> nat" where
  "digit_value c = of_char c - 48"

lemma digit_simps:
  assumes "d < 10"
  shows "is_digit (digit d)" "digit_value (digit d) = d"
  using assms by (simp_all add: is_digit_def digit_value_def digit_def)

definition digits_value :: "string \<Rightarrow> nat" where
  "digits_value ds = fold (\<lambda>c n. 10 * n + digit_value c) ds 0"

fun show_nat :: "nat \<Rightarrow> string" where
  "show_nat n = (if n < 10 then [digit n] else show_nat (n div 10) @ [digit (n mod 10)])"

declare show_nat.simps [simp del]

definition show_int :: "int \<Rightarrow> string" where
  "show_int i = (if i < 0 then CHR ''-'' # show_nat (nat (- i)) else show_nat (nat i))"

lemma show_nat_digits: "\<forall>c \<in> set (show_nat n). is_digit c"
proof (induction n rule: show_nat.induct)
  case (1 n)
  then show ?case by (subst show_nat.simps) (auto simp: digit_simps)
qed

lemma show_nat_nonempty [simp]: "show_nat n \<noteq> []"
  by (subst show_nat.simps) simp

lemma digits_value_show_nat [simp]: "digits_value (show_nat n) = n"
proof (induction n rule: show_nat.induct)
  case (1 n)
  then show ?case
    by (cases "n < 10"; subst show_nat.simps) (simp_all add: digits_value_def digit_simps)
qed

lemma show_int_nonempty [simp]: "show_int i \<noteq> []"
  by (simp add: show_int_def)

lemma minus_not_digit [simp]: "\<not> is_digit CHR ''-''"
  by (simp add: is_digit_def)

lemma show_nat_hd: "\<exists>c cs. show_nat n = c # cs \<and> is_digit c"
  using show_nat_digits [of n] by (cases "show_nat n") auto

section \<open>Reading\<close>

datatype errc = errc_ok | errc_invalid_argument | errc_result_out_of_range

definition from_chars_unsigned :: "nat \<Rightarrow> string \<Rightarrow> errc \<times> nat" where
  "from_chars_unsigned hi s =
     (let ds = takeWhile is_digit s in
      if ds = [] then (errc_invalid_argument, 0)
      else if hi < digits_value ds then (errc_result_out_of_range, 0)
      else (errc_ok, digits_value ds))"

definition from_chars_signed :: "int \<Rightarrow> int \<Rightarrow> string \<Rightarrow> errc \<times> int" where
  "from_chars_signed lo hi s =
     (let negative = (case s of c # _ \<Rightarrow> c = CHR ''-'' | [] \<Rightarrow> False);
          ds = takeWhile is_digit (if negative then tl s else s);
          v = (if negative then - int (digits_value ds) else int (digits_value ds)) in
      if ds = [] then (errc_invalid_argument, 0)
      else if v < lo \<or> hi < v then (errc_result_out_of_range, 0)
      else (errc_ok, v))"

text \<open>Text that starts with a number, followed by something that is not a digit.\<close>

definition ends_number :: "string \<Rightarrow> bool" where
  "ends_number rest \<longleftrightarrow> (case rest of [] \<Rightarrow> True | c # _ \<Rightarrow> \<not> is_digit c)"

lemma takeWhile_show_nat [simp]:
  "ends_number rest \<Longrightarrow> takeWhile is_digit (show_nat n @ rest) = show_nat n"
  using show_nat_digits [of n] by (auto simp: ends_number_def split: list.splits)

lemma ends_number_Nil [simp]: "ends_number []"
  by (simp add: ends_number_def)

lemma from_chars_unsigned_show:
  "ends_number rest \<Longrightarrow> from_chars_unsigned hi (show_nat n @ rest) =
     (if n \<le> hi then (errc_ok, n) else (errc_result_out_of_range, 0))"
  by (simp add: from_chars_unsigned_def Let_def)

lemma from_chars_signed_show:
  assumes "ends_number rest"
  shows "from_chars_signed lo hi (show_int i @ rest) =
    (if lo \<le> i \<and> i \<le> hi then (errc_ok, i) else (errc_result_out_of_range, 0))"
proof (cases "i < 0")
  case True
  then show ?thesis using assms by (auto simp: from_chars_signed_def show_int_def Let_def)
next
  case False
  obtain c cs where c: "show_nat (nat i) = c # cs" "is_digit c" using show_nat_hd by blast
  then have "c \<noteq> CHR ''-''" using minus_not_digit by blast
  with c have "(case show_nat (nat i) @ rest of [] \<Rightarrow> False | c # _ \<Rightarrow> c = CHR ''-'') = False" by simp
  with False assms show ?thesis
    by (auto simp: from_chars_signed_def show_int_def Let_def simp del: takeWhile_append)
qed

lemma from_chars_signed_bounds:
  "from_chars_signed lo hi s = (errc_ok, v) \<Longrightarrow> lo \<le> v \<and> v \<le> hi"
  by (auto simp: from_chars_signed_def Let_def split: if_splits)

lemma from_chars_unsigned_bounds: "from_chars_unsigned hi s = (errc_ok, v) \<Longrightarrow> v \<le> hi"
  by (auto simp: from_chars_unsigned_def Let_def split: if_splits)

end
