(* ===== verification/Database.thy ===== *)
theory Database
  imports Sqlite Decimal "HOL-Library.List_Lexorder" "HOL-Library.Char_ord"
begin

text \<open>
  The database component (\<^verbatim>\<open>database/session.hpp\<close>, \<^verbatim>\<open>database/factory.cpp\<close>, \<^verbatim>\<open>database/sqlite/*\<close>).
  The interface \<^verbatim>\<open>database::Session\<close> is a record of operations on a database; its SQLite
  implementation runs SQL statements on two tables. The SQL texts of \<^verbatim>\<open>trades.cpp\<close> and \<^verbatim>\<open>funds.cpp\<close> are
  translated to functions on the tables, one per statement. What SQL leaves to the engine is an
  argument, the record \<open>engine\<close>: failures, the value of a printed number, the rounding of
  \<^verbatim>\<open>SUM\<close>, the row a bare column of an aggregate query is taken from, and everything about a text
  that is no longer the intended statement because a quoted value contains a quote or a NUL.
\<close>

section \<open>Interface\<close>

text \<open>
  Queries return the values passed to the callback and the error that ended them, if any; inserts
  return the error and the database. \<^verbatim>\<open>clock::get_realtime\<close> is the argument \<open>now\<close> of the inserts
  that read it.
\<close>

record 'db database_session =
  ses_accounts :: "'db \<Rightarrow> db_account list \<times> error option"
  ses_positions :: "'db \<Rightarrow> db_position list \<times> error option"
  ses_trades :: "string \<Rightarrow> nanoseconds \<Rightarrow> 'db \<Rightarrow> db_trade list \<times> error option"
  ses_funds :: "string \<Rightarrow> string \<Rightarrow> 'db \<Rightarrow> db_funds list \<times> error option"
  ses_insert_trades :: "db_trade list \<Rightarrow> 'db \<Rightarrow> error option \<times> 'db"
  ses_insert_corrections :: "nanoseconds \<Rightarrow> db_correction list \<Rightarrow> 'db \<Rightarrow> error option \<times> 'db"
  ses_insert_funds :: "nanoseconds \<Rightarrow> db_funds list \<Rightarrow> 'db \<Rightarrow> error option \<times> 'db"
  ses_compress :: "db_compress \<Rightarrow> 'db \<Rightarrow> error option \<times> 'db"

text \<open>
  \<^verbatim>\<open>Factory::create\<close>; the comparison is \<^verbatim>\<open>utils::case_insensitive_compare\<close>, the two flags are the
  build options for the optional backends.
\<close>

datatype backend = Sqlite_Backend | Clickhouse_Backend | Mongo_Backend

definition factory_create ::
    "(string \<Rightarrow> string \<Rightarrow> int) \<Rightarrow> bool \<Rightarrow> bool \<Rightarrow> string \<Rightarrow> error + backend" where
  "factory_create compare build_clickhouse build_mongo type =
     (if compare type ''sqlite'' = 0 \<or> compare type ''sqlite3'' = 0 then Inr Sqlite_Backend
      else if build_clickhouse \<and> compare type ''clickhouse'' = 0 then Inr Clickhouse_Backend
      else if build_mongo \<and> (compare type ''mongo'' = 0 \<or> compare type ''mongodb'' = 0)
      then Inr Mongo_Backend
      else Inl FatalError)"

section \<open>Tables\<close>

record trades_row =
  trw_user :: string
  trw_strategy_id :: int
  trw_account :: string
  trw_exchange :: string
  trw_symbol :: string
  trw_side :: string
  trw_quantity :: double
  trw_price :: double
  trw_exchange_time_utc :: int
  trw_external_account :: string
  trw_external_order_id :: string
  trw_external_trade_id :: string
  trw_reason :: string
  trw_type :: string

record funds_row =
  fnr_account :: string
  fnr_currency :: string
  fnr_balance :: double
  fnr_hold :: double
  fnr_exchange_time_utc :: int
  fnr_external_account :: string

record tables =
  tbl_trades :: "trades_row list option"
  tbl_funds :: "funds_row list option"

definition trades_key ::
    "trades_row \<Rightarrow> string \<times> int \<times> string \<times> string \<times> string \<times> int \<times> string \<times> string" where
  "trades_key r =
     (trw_user r, trw_strategy_id r, trw_account r, trw_exchange r, trw_symbol r,
      trw_exchange_time_utc r, trw_external_trade_id r, trw_type r)"

definition funds_key :: "funds_row \<Rightarrow> string \<times> string \<times> int" where
  "funds_key r = (fnr_account r, fnr_currency r, fnr_exchange_time_utc r)"

section \<open>The statements of the program\<close>

datatype sql =
    CREATE_TRADES
  | CREATE_FUNDS
  | CREATE_INDEX string string bool
  | SELECT_ACCOUNTS
  | SELECT_POSITIONS_BY_USER
  | SELECT_POSITIONS_BY_STRATEGY
  | SELECT_POSITIONS_BY_ACCOUNT
  | SELECT_TRADES string int
  | SELECT_FUNDS string string
  | INSERT_TRADES trades_row
  | INSERT_FUNDS funds_row

record engine =
  eng_failure :: "sql \<Rightarrow> tables \<Rightarrow> (nat \<times> int) option"
  eng_real :: "double \<Rightarrow> double"
  eng_sum :: "double list \<Rightarrow> double"
  eng_bare :: "sql \<Rightarrow> tables \<Rightarrow> nat"
  eng_malformed :: "sql \<Rightarrow> tables \<Rightarrow> outcome \<times> tables"

text \<open>
  Values are pasted into the text of a statement between single quotes and without escaping, so a
  value with a quote ends its literal, and a NUL ends the text. Numbers are printed; infinities and
  NaN print as names that SQL does not know.
\<close>

definition plain_text :: "string \<Rightarrow> bool" where
  "plain_text s \<longleftrightarrow> CHR 0x27 \<notin> set s \<and> CHR 0x00 \<notin> set s"

fun plain_sql :: "sql \<Rightarrow> bool" where
  "plain_sql (SELECT_TRADES account _) \<longleftrightarrow> plain_text account"
| "plain_sql (SELECT_FUNDS account currency) \<longleftrightarrow> plain_text account \<and> plain_text currency"
| "plain_sql (INSERT_TRADES r) \<longleftrightarrow>
     plain_text (trw_user r) \<and> plain_text (trw_account r) \<and> plain_text (trw_exchange r) \<and>
     plain_text (trw_symbol r) \<and> plain_text (trw_side r) \<and> plain_text (trw_external_account r) \<and>
     plain_text (trw_external_order_id r) \<and> plain_text (trw_external_trade_id r) \<and>
     plain_text (trw_reason r) \<and> plain_text (trw_type r)"
| "plain_sql (INSERT_FUNDS r) \<longleftrightarrow>
     plain_text (fnr_account r) \<and> plain_text (fnr_currency r) \<and> plain_text (fnr_external_account r)"
| "plain_sql _ \<longleftrightarrow> True"

fun finite_sql :: "sql \<Rightarrow> bool" where
  "finite_sql (INSERT_TRADES r) \<longleftrightarrow> is_finite (trw_quantity r) \<and> is_finite (trw_price r)"
| "finite_sql (INSERT_FUNDS r) \<longleftrightarrow> is_finite (fnr_balance r) \<and> is_finite (fnr_hold r)"
| "finite_sql _ \<longleftrightarrow> True"

fun tables_exist :: "sql \<Rightarrow> tables \<Rightarrow> bool" where
  "tables_exist CREATE_TRADES t \<longleftrightarrow> True"
| "tables_exist CREATE_FUNDS t \<longleftrightarrow> True"
| "tables_exist (CREATE_INDEX table_name _ _) t \<longleftrightarrow>
     (if table_name = ''trades'' then tbl_trades t \<noteq> None
      else if table_name = ''funds'' then tbl_funds t \<noteq> None
      else False)"
| "tables_exist (SELECT_FUNDS _ _) t \<longleftrightarrow> tbl_funds t \<noteq> None"
| "tables_exist (INSERT_FUNDS _) t \<longleftrightarrow> tbl_funds t \<noteq> None"
| "tables_exist _ t \<longleftrightarrow> tbl_trades t \<noteq> None"

definition trades_of :: "tables \<Rightarrow> trades_row list" where
  "trades_of t = (case tbl_trades t of None \<Rightarrow> [] | Some rows \<Rightarrow> rows)"

definition funds_of :: "tables \<Rightarrow> funds_row list" where
  "funds_of t = (case tbl_funds t of None \<Rightarrow> [] | Some rows \<Rightarrow> rows)"

section \<open>Queries\<close>

text \<open>A REAL result; SQLite turns NaN into NULL.\<close>

definition real_cell :: "double \<Rightarrow> cell" where
  "real_cell x = (if isnan x then SQL_NULL else SQL_FLOAT x)"

definition query_accounts :: "trades_row list \<Rightarrow> cell list list" where
  "query_accounts rows =
     map (\<lambda>account.
       let g = filter (\<lambda>r. trw_account r = account) rows;
           times = set (map trw_exchange_time_utc g)
       in [SQL_TEXT account, SQL_INTEGER (Min times), SQL_INTEGER (Max times),
           SQL_INTEGER (int (length g))])
     (sort (remdups (map trw_account rows)))"

text \<open>
  The three position queries. \<open>side_groups\<close> is the inner \<^verbatim>\<open>SELECT ... WHERE side=... GROUP BY\<close> with
  its \<^verbatim>\<open>SUM(quantity)\<close> and \<^verbatim>\<open>MAX(exchange_time_utc)\<close>, \<open>full_outer_join\<close> the join on the group
  key. The outer query has the aggregate \<^verbatim>\<open>SUM\<close> and no \<^verbatim>\<open>GROUP BY\<close>: it has exactly one row, in which
  the other columns, the two-argument (scalar) \<^verbatim>\<open>MAX\<close> included, come from one row of the join, or are
  NULL if the join is empty.
\<close>

type_synonym 'n position_group = "('n \<times> string \<times> string) \<times> double \<times> int"

definition position_key :: "(trades_row \<Rightarrow> 'n) \<Rightarrow> trades_row \<Rightarrow> 'n \<times> string \<times> string" where
  "position_key name r = (name r, trw_exchange r, trw_symbol r)"

definition side_groups ::
    "engine \<Rightarrow> (trades_row \<Rightarrow> 'n) \<Rightarrow> string \<Rightarrow> trades_row list \<Rightarrow> 'n position_group list" where
  "side_groups eng name side rows =
     (let rows = filter (\<lambda>r. trw_side r = side) rows in
      map (\<lambda>k.
        let g = filter (\<lambda>r. position_key name r = k) rows
        in (k, eng_sum eng (map trw_quantity g), Max (set (map trw_exchange_time_utc g))))
      (remdups (map (position_key name) rows)))"

definition full_outer_join ::
    "'n position_group list \<Rightarrow> 'n position_group list \<Rightarrow>
     ('n position_group option \<times> 'n position_group option) list" where
  "full_outer_join t1 t2 =
     map (\<lambda>(k, x). (Some (k, x), map_option (Pair k) (map_of t2 k))) t1 @
     map (\<lambda>row. (None, Some row)) (filter (\<lambda>(k, _). map_of t1 k = None) t2)"

definition coalesce_quantity :: "'n position_group option \<Rightarrow> double" where
  "coalesce_quantity t = (case t of None \<Rightarrow> zero_double | Some (_, quantity, _) \<Rightarrow> quantity)"

definition coalesce_time :: "'n position_group option \<Rightarrow> int" where
  "coalesce_time t = (case t of None \<Rightarrow> 0 | Some (_, _, time) \<Rightarrow> time)"

definition bare_row ::
    "engine \<Rightarrow> sql \<Rightarrow> tables \<Rightarrow> ('a option \<times> 'b option) list \<Rightarrow> 'a option \<times> 'b option" where
  "bare_row eng q t joined =
     (if joined = [] then (None, None) else joined ! (eng_bare eng q t mod length joined))"

definition query_positions ::
    "engine \<Rightarrow> sql \<Rightarrow> tables \<Rightarrow> (trades_row \<Rightarrow> 'n) \<Rightarrow> (cell \<Rightarrow> cell list) \<Rightarrow> ('n \<Rightarrow> cell) \<Rightarrow>
     trades_row list \<Rightarrow> cell list list" where
  "query_positions eng q t name columns name_cell rows =
     (let joined = full_outer_join (side_groups eng name ''BUY'' rows) (side_groups eng name ''SELL'' rows);
          (t1, t2) = bare_row eng q t joined;
          sum = (\<lambda>quantities. if joined = [] then SQL_NULL else real_cell (eng_sum eng quantities));
          cells = (case t1 of
             None \<Rightarrow> (SQL_NULL, SQL_NULL, SQL_NULL)
           | Some ((n, exchange, symbol), _) \<Rightarrow> (name_cell n, SQL_TEXT exchange, SQL_TEXT symbol))
      in [columns (fst cells) @
          [fst (snd cells), snd (snd cells),
           sum (map (coalesce_quantity \<circ> fst) joined),
           sum (map (coalesce_quantity \<circ> snd) joined),
           SQL_INTEGER (max (coalesce_time t1) (coalesce_time t2))]])"

definition select_positions_by_user :: "engine \<Rightarrow> tables \<Rightarrow> cell list list" where
  "select_positions_by_user eng t =
     query_positions eng SELECT_POSITIONS_BY_USER t trw_user
       (\<lambda>user. [user, SQL_INTEGER 0, SQL_TEXT []]) SQL_TEXT (trades_of t)"

definition select_positions_by_strategy :: "engine \<Rightarrow> tables \<Rightarrow> cell list list" where
  "select_positions_by_strategy eng t =
     query_positions eng SELECT_POSITIONS_BY_STRATEGY t trw_strategy_id
       (\<lambda>strategy_id. [SQL_TEXT [], strategy_id, SQL_TEXT []]) SQL_INTEGER
       (filter (\<lambda>r. trw_strategy_id r > 0) (trades_of t))"

definition select_positions_by_account :: "engine \<Rightarrow> tables \<Rightarrow> cell list list" where
  "select_positions_by_account eng t =
     query_positions eng SELECT_POSITIONS_BY_ACCOUNT t trw_account
       (\<lambda>account. [SQL_TEXT [], SQL_INTEGER 0, account]) SQL_TEXT (trades_of t)"

definition query_trades :: "string \<Rightarrow> int \<Rightarrow> trades_row list \<Rightarrow> cell list list" where
  "query_trades account start_time rows =
     map (\<lambda>r. [SQL_TEXT (trw_user r), SQL_INTEGER (trw_strategy_id r), SQL_TEXT (trw_account r),
        SQL_TEXT (trw_exchange r), SQL_TEXT (trw_symbol r), SQL_TEXT (trw_side r),
        SQL_FLOAT (trw_quantity r), SQL_FLOAT (trw_price r), SQL_INTEGER (trw_exchange_time_utc r),
        SQL_TEXT (trw_external_account r), SQL_TEXT (trw_external_order_id r),
        SQL_TEXT (trw_external_trade_id r)])
     (sort_key trw_account (sort_key trw_exchange_time_utc
       (filter (\<lambda>r. (account = [] \<or> trw_account r = account) \<and>
                     (start_time = 0 \<or> trw_exchange_time_utc r \<ge> start_time)) rows)))"

text \<open>The funds query joins the table with the latest time of each account and currency.\<close>

definition latest_funds :: "string \<Rightarrow> string \<Rightarrow> funds_row list \<Rightarrow> funds_row list" where
  "latest_funds account currency rows =
     (let matching = filter (\<lambda>r. (account = [] \<or> fnr_account r = account) \<and>
                                  (currency = [] \<or> fnr_currency r = currency)) rows;
          key = (\<lambda>r. (fnr_account r, fnr_currency r));
          t2 = map (\<lambda>k. (k, Max (set (map fnr_exchange_time_utc (filter (\<lambda>r. key r = k) matching)))))
                 (remdups (map key matching))
      in filter (\<lambda>r. map_of t2 (key r) = Some (fnr_exchange_time_utc r)) rows)"

definition query_funds :: "string \<Rightarrow> string \<Rightarrow> funds_row list \<Rightarrow> cell list list" where
  "query_funds account currency rows =
     map (\<lambda>r. [SQL_TEXT (fnr_account r), SQL_TEXT (fnr_currency r), SQL_FLOAT (fnr_balance r),
        SQL_FLOAT (fnr_hold r), SQL_INTEGER (fnr_exchange_time_utc r), SQL_TEXT (fnr_external_account r)])
     (sort_key fnr_account (sort_key fnr_currency (latest_funds account currency rows)))"

fun query_rows :: "engine \<Rightarrow> sql \<Rightarrow> tables \<Rightarrow> cell list list" where
  "query_rows eng SELECT_ACCOUNTS t = query_accounts (trades_of t)"
| "query_rows eng SELECT_POSITIONS_BY_USER t = select_positions_by_user eng t"
| "query_rows eng SELECT_POSITIONS_BY_STRATEGY t = select_positions_by_strategy eng t"
| "query_rows eng SELECT_POSITIONS_BY_ACCOUNT t = select_positions_by_account eng t"
| "query_rows eng (SELECT_TRADES account start_time) t = query_trades account start_time (trades_of t)"
| "query_rows eng (SELECT_FUNDS account currency) t = query_funds account currency (funds_of t)"
| "query_rows eng _ t = []"

section \<open>Updates\<close>

text \<open>\<^verbatim>\<open>INSERT OR REPLACE\<close>: a row with the same primary key is removed first.\<close>

definition insert_or_replace :: "('r \<Rightarrow> 'k) \<Rightarrow> 'r \<Rightarrow> 'r list \<Rightarrow> 'r list" where
  "insert_or_replace key r rows = filter (\<lambda>x. key x \<noteq> key r) rows @ [r]"

definition store_trade :: "engine \<Rightarrow> trades_row \<Rightarrow> trades_row" where
  "store_trade eng r =
     r\<lparr>trw_quantity := eng_real eng (trw_quantity r), trw_price := eng_real eng (trw_price r)\<rparr>"

definition store_funds :: "engine \<Rightarrow> funds_row \<Rightarrow> funds_row" where
  "store_funds eng r =
     r\<lparr>fnr_balance := eng_real eng (fnr_balance r), fnr_hold := eng_real eng (fnr_hold r)\<rparr>"

fun update_tables :: "engine \<Rightarrow> sql \<Rightarrow> tables \<Rightarrow> tables" where
  "update_tables eng CREATE_TRADES t =
     (case tbl_trades t of None \<Rightarrow> t\<lparr>tbl_trades := Some []\<rparr> | Some _ \<Rightarrow> t)"
| "update_tables eng CREATE_FUNDS t =
     (case tbl_funds t of None \<Rightarrow> t\<lparr>tbl_funds := Some []\<rparr> | Some _ \<Rightarrow> t)"
| "update_tables eng (INSERT_TRADES r) t =
     t\<lparr>tbl_trades := Some (insert_or_replace trades_key (store_trade eng r) (trades_of t))\<rparr>"
| "update_tables eng (INSERT_FUNDS r) t =
     t\<lparr>tbl_funds := Some (insert_or_replace funds_key (store_funds eng r) (funds_of t))\<rparr>"
| "update_tables eng _ t = t"

definition refused :: outcome where
  "refused = \<lparr>out_prepare = SQLITE_FAILURE 1, out_rows = [], out_failure = None\<rparr>"

definition execute :: "engine \<Rightarrow> (sql, tables) sqlite_library" where
  "execute eng q t =
     (if \<not> plain_sql q then eng_malformed eng q t
      else if \<not> finite_sql q \<or> \<not> tables_exist q t then (refused, t)
      else
        (case eng_failure eng q t of
           Some (n, code) \<Rightarrow>
             (\<lparr>out_prepare = SQLITE_OK, out_rows = take n (query_rows eng q t), out_failure = Some code\<rparr>, t)
         | None \<Rightarrow>
             (\<lparr>out_prepare = SQLITE_OK, out_rows = query_rows eng q t, out_failure = None\<rparr>,
              update_tables eng q t)))"

end
