(* ===== verification/Database_Session.thy ===== *)
theory Database_Session
  imports Database
begin

text \<open>
  The SQLite implementation of the database interface (\<^verbatim>\<open>database/sqlite/trades.cpp\<close>, \<^verbatim>\<open>funds.cpp\<close>,
  \<^verbatim>\<open>session.cpp\<close>): creating the tables, the select loops with the decoding of a row, and the inserts.
  The text of a statement is a value of type \<open>sql\<close>; running it goes through the wrapper of the
  theory \<open>Sqlite\<close>.
\<close>

section \<open>Sequences of statements\<close>

fun exec_all :: "('q, 'db) sqlite_library \<Rightarrow> 'q list \<Rightarrow> 'db \<Rightarrow> error option \<times> 'db" where
  "exec_all lib [] db = (None, db)"
| "exec_all lib (q # qs) db =
     (case connection_exec lib q db of
        (None, db') \<Rightarrow> exec_all lib qs db'
      | (Some e, db') \<Rightarrow> (Some e, db'))"

fun insert_all :: "('q, 'db) sqlite_library \<Rightarrow> ('a \<Rightarrow> 'q) \<Rightarrow> 'a list \<Rightarrow> 'db \<Rightarrow> error option \<times> 'db" where
  "insert_all lib query [] db = (None, db)"
| "insert_all lib query (item # items) db =
     (case step_once lib (query item) db of
        (Inr _, db') \<Rightarrow> insert_all lib query items db'
      | (Inl e, db') \<Rightarrow> (Some e, db'))"

section \<open>Trades\<close>

definition trades_create :: "(sql, 'db) sqlite_library \<Rightarrow> 'db \<Rightarrow> error option \<times> 'db" where
  "trades_create lib =
     exec_all lib
       [CREATE_TRADES,
        CREATE_INDEX ''trades'' ''user'' False,
        CREATE_INDEX ''trades'' ''strategy_id'' False,
        CREATE_INDEX ''trades'' ''account'' False,
        CREATE_INDEX ''trades'' ''exchange'' False,
        CREATE_INDEX ''trades'' ''symbol'' False,
        CREATE_INDEX ''trades'' ''side'' False,
        CREATE_INDEX ''trades'' ''exchange_time_utc'' True,
        CREATE_INDEX ''trades'' ''type'' False]"

definition decode_account :: "cell list \<Rightarrow> error + db_account" where
  "decode_account row =
     bind_result (get_string 0 row) (\<lambda>name.
     bind_result (get_int64 1 row) (\<lambda>exchange_time_utc_min.
     bind_result (get_int64 2 row) (\<lambda>exchange_time_utc_max.
     bind_result (get_uint64 3 row) (\<lambda>trade_count.
     Inr \<lparr>dba_name = name, dba_exchange_time_utc_min = exchange_time_utc_min,
          dba_exchange_time_utc_max = exchange_time_utc_max, dba_trade_count = trade_count\<rparr>))))"

definition trades_select_accounts ::
    "(sql, 'db) sqlite_library \<Rightarrow> 'db \<Rightarrow> db_account list \<times> error option" where
  "trades_select_accounts lib = select_rows lib SELECT_ACCOUNTS decode_account"

definition decode_position :: "cell list \<Rightarrow> error + db_position" where
  "decode_position row =
     bind_result (get_string 0 row) (\<lambda>user.
     bind_result (get_uint32 1 row) (\<lambda>strategy_id.
     bind_result (get_string 2 row) (\<lambda>account.
     bind_result (get_string 3 row) (\<lambda>exchange.
     bind_result (get_string 4 row) (\<lambda>symbol.
     bind_result (get_double 5 row) (\<lambda>long_quantity.
     bind_result (get_double 6 row) (\<lambda>short_quantity.
     bind_result (get_int64 7 row) (\<lambda>exchange_time_utc.
     Inr \<lparr>dbp_user = user, dbp_strategy_id = strategy_id, dbp_account = account,
          dbp_exchange = exchange, dbp_symbol = symbol, dbp_long_quantity = long_quantity,
          dbp_short_quantity = short_quantity, dbp_exchange_time_utc = exchange_time_utc\<rparr>))))))))"

fun dispatch_all ::
    "(sql, 'db) sqlite_library \<Rightarrow> sql list \<Rightarrow> 'db \<Rightarrow> db_position list \<times> error option" where
  "dispatch_all lib [] db = ([], None)"
| "dispatch_all lib (q # qs) db =
     (case select_rows lib q decode_position db of
        (xs, Some e) \<Rightarrow> (xs, Some e)
      | (xs, None) \<Rightarrow> (let (ys, e) = dispatch_all lib qs db in (xs @ ys, e)))"

definition trades_select_positions ::
    "(sql, 'db) sqlite_library \<Rightarrow> 'db \<Rightarrow> db_position list \<times> error option" where
  "trades_select_positions lib =
     dispatch_all lib
       [SELECT_POSITIONS_BY_USER, SELECT_POSITIONS_BY_STRATEGY, SELECT_POSITIONS_BY_ACCOUNT]"

text \<open>\<^verbatim>\<open>value()\<close> of an empty optional throws \<^verbatim>\<open>std::bad_optional_access\<close>.\<close>

definition decode_trade :: "cell list \<Rightarrow> error + db_trade" where
  "decode_trade row =
     bind_result (get_string 0 row) (\<lambda>user.
     bind_result (get_uint32 1 row) (\<lambda>strategy_id.
     bind_result (get_string 2 row) (\<lambda>account.
     bind_result (get_string 3 row) (\<lambda>exchange.
     bind_result (get_string 4 row) (\<lambda>symbol.
     bind_result (get_string 5 row) (\<lambda>side.
     bind_result (get_double 6 row) (\<lambda>quantity.
     bind_result (get_double 7 row) (\<lambda>price.
     bind_result (get_int64 8 row) (\<lambda>exchange_time_utc.
     bind_result (get_string 9 row) (\<lambda>external_account.
     bind_result (get_string 10 row) (\<lambda>external_order_id.
     bind_result (get_string 11 row) (\<lambda>external_trade_id.
     bind_result (case side_cast side of None \<Rightarrow> Inl LibraryException | Some s \<Rightarrow> Inr s) (\<lambda>side.
     Inr \<lparr>dbt_user = user, dbt_strategy_id = strategy_id, dbt_account = account,
          dbt_exchange = exchange, dbt_symbol = symbol, dbt_side = side, dbt_quantity = quantity,
          dbt_price = price, dbt_exchange_time_utc = exchange_time_utc,
          dbt_external_account = external_account, dbt_external_order_id = external_order_id,
          dbt_external_trade_id = external_trade_id\<rparr>)))))))))))))"

definition trades_select_trades ::
    "(sql, 'db) sqlite_library \<Rightarrow> string \<Rightarrow> nanoseconds \<Rightarrow> 'db \<Rightarrow> db_trade list \<times> error option" where
  "trades_select_trades lib account start_time =
     select_rows lib (SELECT_TRADES account start_time) decode_trade"

fun type_name :: "db_type \<Rightarrow> string" where
  "type_name EXCHANGE = ''EXCHANGE''"
| "type_name MANUAL = ''MANUAL''"
| "type_name POSITION = ''POSITION''"

definition trade_values :: "roq_api \<Rightarrow> db_trade \<Rightarrow> trades_row" where
  "trade_values api item =
     \<lparr>trw_user = dbt_user item, trw_strategy_id = uint (dbt_strategy_id item),
      trw_account = dbt_account item, trw_exchange = dbt_exchange item, trw_symbol = dbt_symbol item,
      trw_side = api_format_side api (dbt_side item), trw_quantity = dbt_quantity item,
      trw_price = dbt_price item, trw_exchange_time_utc = dbt_exchange_time_utc item,
      trw_external_account = dbt_external_account item,
      trw_external_order_id = dbt_external_order_id item,
      trw_external_trade_id = dbt_external_trade_id item,
      trw_reason = [], trw_type = type_name EXCHANGE\<rparr>"

definition trades_insert ::
    "roq_api \<Rightarrow> (sql, 'db) sqlite_library \<Rightarrow> db_trade list \<Rightarrow> 'db \<Rightarrow> error option \<times> 'db" where
  "trades_insert api lib trades = insert_all lib (\<lambda>item. INSERT_TRADES (trade_values api item)) trades"

definition correction_values :: "roq_api \<Rightarrow> nanoseconds \<Rightarrow> db_correction \<Rightarrow> trades_row" where
  "correction_values api now item =
     (let exchange_time_utc =
        (if dbc_exchange_time_utc item \<noteq> 0 then dbc_exchange_time_utc item else now)
      in \<lparr>trw_user = dbc_user item, trw_strategy_id = uint (dbc_strategy_id item),
          trw_account = dbc_account item, trw_exchange = dbc_exchange item,
          trw_symbol = dbc_symbol item, trw_side = api_format_side api (dbc_side item),
          trw_quantity = dbc_quantity item, trw_price = dbc_price item,
          trw_exchange_time_utc = exchange_time_utc, trw_external_account = [],
          trw_external_order_id = [], trw_external_trade_id = [],
          trw_reason = dbc_reason item, trw_type = type_name MANUAL\<rparr>)"

definition corrections_insert ::
    "roq_api \<Rightarrow> (sql, 'db) sqlite_library \<Rightarrow> nanoseconds \<Rightarrow> db_correction list \<Rightarrow> 'db \<Rightarrow>
     error option \<times> 'db" where
  "corrections_insert api lib now corrections =
     insert_all lib (\<lambda>item. INSERT_TRADES (correction_values api now item)) corrections"

definition trades_compress :: "nanoseconds \<Rightarrow> 'db \<Rightarrow> error option \<times> 'db" where
  "trades_compress exchange_time_utc db = (None, db)"

section \<open>Funds\<close>

definition funds_create :: "(sql, 'db) sqlite_library \<Rightarrow> 'db \<Rightarrow> error option \<times> 'db" where
  "funds_create lib =
     exec_all lib
       [CREATE_FUNDS,
        CREATE_INDEX ''funds'' ''account'' False,
        CREATE_INDEX ''funds'' ''currency'' False,
        CREATE_INDEX ''funds'' ''exchange_time_utc'' True]"

definition decode_funds :: "cell list \<Rightarrow> error + db_funds" where
  "decode_funds row =
     bind_result (get_string 0 row) (\<lambda>account.
     bind_result (get_string 1 row) (\<lambda>currency.
     bind_result (get_double 2 row) (\<lambda>balance.
     bind_result (get_double 3 row) (\<lambda>hold.
     bind_result (get_int64 4 row) (\<lambda>exchange_time_utc.
     bind_result (get_string 5 row) (\<lambda>external_account.
     Inr \<lparr>dbf_account = account, dbf_currency = currency, dbf_balance = balance, dbf_hold = hold,
          dbf_exchange_time_utc = exchange_time_utc, dbf_external_account = external_account\<rparr>))))))"

definition funds_select ::
    "(sql, 'db) sqlite_library \<Rightarrow> string \<Rightarrow> string \<Rightarrow> 'db \<Rightarrow> db_funds list \<times> error option" where
  "funds_select lib account currency = select_rows lib (SELECT_FUNDS account currency) decode_funds"

definition funds_values :: "nanoseconds \<Rightarrow> db_funds \<Rightarrow> funds_row" where
  "funds_values now item =
     (let exchange_time_utc =
        (if dbf_exchange_time_utc item \<noteq> 0 then dbf_exchange_time_utc item else now)
      in \<lparr>fnr_account = dbf_account item, fnr_currency = dbf_currency item,
          fnr_balance = dbf_balance item,
          fnr_hold = (if isnan (dbf_hold item) then zero_double else dbf_hold item),
          fnr_exchange_time_utc = exchange_time_utc,
          fnr_external_account = dbf_external_account item\<rparr>)"

definition funds_insert ::
    "(sql, 'db) sqlite_library \<Rightarrow> nanoseconds \<Rightarrow> db_funds list \<Rightarrow> 'db \<Rightarrow> error option \<times> 'db" where
  "funds_insert lib now funds = insert_all lib (\<lambda>item. INSERT_FUNDS (funds_values now item)) funds"

definition funds_compress :: "nanoseconds \<Rightarrow> 'db \<Rightarrow> error option \<times> 'db" where
  "funds_compress exchange_time_utc db = (None, db)"

section \<open>Session\<close>

definition session_new :: "(sql, 'db) sqlite_library \<Rightarrow> 'db \<Rightarrow> error + 'db" where
  "session_new lib db =
     (case trades_create lib db of
        (Some e, _) \<Rightarrow> Inl e
      | (None, db1) \<Rightarrow>
          (case funds_create lib db1 of
             (Some e, _) \<Rightarrow> Inl e
           | (None, db2) \<Rightarrow> Inr db2))"

definition sqlite_session :: "roq_api \<Rightarrow> (sql, 'db) sqlite_library \<Rightarrow> 'db database_session" where
  "sqlite_session api lib =
     \<lparr>ses_accounts = trades_select_accounts lib,
      ses_positions = trades_select_positions lib,
      ses_trades = trades_select_trades lib,
      ses_funds = funds_select lib,
      ses_insert_trades = trades_insert api lib,
      ses_insert_corrections = corrections_insert api lib,
      ses_insert_funds = funds_insert lib,
      ses_compress = (\<lambda>compress. trades_compress (dbx_exchange_time_utc compress))\<rparr>"

end
