(* ===== verification/Control.thy ===== *)
theory Control
  imports Database_Session
begin

text \<open>
  The control interface (\<^verbatim>\<open>control/session.cpp\<close>, \<^verbatim>\<open>control/response.cpp\<close>): one session per connection
  serves HTTP requests on the database and, after an upgrade, pushes trades to a websocket. The web
  server, the JSON parser and the JSON formatting of strings and numbers are libraries: the parser
  and the formatters are fields of the record \<open>json_api\<close>, calls into the server are collected as
  outputs. The text of a response is translated literally.
\<close>

section \<open>The web server and JSON\<close>

datatype http_method = GET | HEAD | POST | PUT | DELETE | CONNECT | OPTIONS | TRACE

datatype http_connection = CLOSE | KEEP_ALIVE | UPGRADE

datatype http_status = OK | NOT_FOUND

datatype content_type = APPLICATION_JSON

record request =
  req_method :: http_method
  req_connection :: http_connection
  req_path :: "string list"
  req_query :: "(string \<times> string) list"
  req_body :: string

record response =
  rsp_status :: http_status
  rsp_connection :: http_connection
  rsp_cache_control :: string
  rsp_content_type :: content_type
  rsp_body :: string

text \<open>What a session makes its server do.\<close>

datatype web_output =
    SendResponse response
  | SendText string
  | UpgradeConnection
  | CloseConnection

text \<open>
  \<open>'j\<close> is the type of parsed JSON values. \<open>None\<close> stands for an exception of the library.
\<close>

datatype json_type = JSON_STRING | JSON_NUMBER_INTEGER | JSON_NUMBER_UNSIGNED | JSON_OTHER

record 'j json_api =
  js_parse :: "string \<Rightarrow> 'j option"
  js_is_array :: "'j \<Rightarrow> bool"
  js_elements :: "'j \<Rightarrow> 'j list"
  js_items :: "'j \<Rightarrow> (string \<times> 'j) list option"
  js_at :: "'j \<Rightarrow> string \<Rightarrow> 'j option"
  js_type :: "'j \<Rightarrow> json_type"
  js_get_string :: "'j \<Rightarrow> string option"
  js_get_uint32 :: "'j \<Rightarrow> u32 option"
  js_get_int64 :: "'j \<Rightarrow> int option"
  js_get_double :: "'j \<Rightarrow> double option"
  js_format_string :: "string \<Rightarrow> string"
  js_format_side :: "side \<Rightarrow> string"
  js_format_number :: "double \<Rightarrow> string"

definition or_throw :: "'a option \<Rightarrow> error + 'a" where
  "or_throw x = (case x of None \<Rightarrow> Inl LibraryException | Some v \<Rightarrow> Inr v)"

section \<open>Response\<close>

text \<open>\<^verbatim>\<open>Response::send\<close>: any status but \<^verbatim>\<open>OK\<close> closes the connection.\<close>

definition response_send ::
    "request \<Rightarrow> http_status \<Rightarrow> content_type \<Rightarrow> string \<Rightarrow> response" where
  "response_send request status content_type body =
     \<lparr>rsp_status = status,
      rsp_connection = (if status \<noteq> OK then CLOSE else req_connection request),
      rsp_cache_control = ''no-store'',
      rsp_content_type = content_type,
      rsp_body = body\<rparr>"

section \<open>Timestamps\<close>

definition convert_to_timestamp :: "string \<Rightarrow> error + nanoseconds" where
  "convert_to_timestamp value =
     (if value = [] then Inr 0
      else
        (let (error_code, result) = from_chars_signed (- (2 ^ 63)) (2 ^ 63 - 1) value in
         case error_code of
           errc_ok \<Rightarrow> Inr result
         | errc_invalid_argument \<Rightarrow> Inl InvalidArgument
         | errc_result_out_of_range \<Rightarrow> Inl RangeError))"

section \<open>JSON texts\<close>

definition trade_to_json :: "'j json_api \<Rightarrow> db_trade \<Rightarrow> string" where
  \<open>trade_to_json js trade =
     ''{'' @
     ''"user":'' @ js_format_string js (dbt_user trade) @ '','' @
     ''"strategy_id":'' @ show_nat (unat (dbt_strategy_id trade)) @ '','' @
     ''"account":'' @ js_format_string js (dbt_account trade) @ '','' @
     ''"exchange":'' @ js_format_string js (dbt_exchange trade) @ '','' @
     ''"symbol":'' @ js_format_string js (dbt_symbol trade) @ '','' @
     ''"side":'' @ js_format_side js (dbt_side trade) @ '','' @
     ''"quantity":'' @ js_format_number js (dbt_quantity trade) @ '','' @
     ''"price":'' @ js_format_number js (dbt_price trade) @ '','' @
     ''"exchange_time_utc":'' @ show_int (dbt_exchange_time_utc trade) @ '','' @
     ''"external_account":'' @ js_format_string js (dbt_external_account trade) @ '','' @
     ''"external_order_id":'' @ js_format_string js (dbt_external_order_id trade) @ '','' @
     ''"external_trade_id":'' @ js_format_string js (dbt_external_trade_id trade) @
     ''}''\<close>

definition account_to_json :: "'j json_api \<Rightarrow> db_account \<Rightarrow> string" where
  \<open>account_to_json js account =
     ''{'' @
     ''"name":'' @ js_format_string js (dba_name account) @ '','' @
     ''"exchange_time_utc_min":'' @ show_int (dba_exchange_time_utc_min account) @ '','' @
     ''"exchange_time_utc_max":'' @ show_int (dba_exchange_time_utc_max account) @ '','' @
     ''"trade_count":'' @ show_nat (unat (dba_trade_count account)) @
     ''}''\<close>

definition position_to_json :: "'j json_api \<Rightarrow> db_position \<Rightarrow> string" where
  \<open>position_to_json js position =
     ''{'' @
     ''"user":'' @ js_format_string js (dbp_user position) @ '','' @
     ''"strategy_id":'' @ show_nat (unat (dbp_strategy_id position)) @ '','' @
     ''"account":'' @ js_format_string js (dbp_account position) @ '','' @
     ''"exchange":'' @ js_format_string js (dbp_exchange position) @ '','' @
     ''"symbol":'' @ js_format_string js (dbp_symbol position) @ '','' @
     ''"long_quantity":'' @ js_format_number js (dbp_long_quantity position) @ '','' @
     ''"short_quantity":'' @ js_format_number js (dbp_short_quantity position) @ '','' @
     ''"exchange_time_utc":'' @ show_int (dbp_exchange_time_utc position) @
     ''}''\<close>

definition funds_to_json :: "'j json_api \<Rightarrow> db_funds \<Rightarrow> string" where
  \<open>funds_to_json js funds =
     ''{'' @
     ''"account":'' @ js_format_string js (dbf_account funds) @ '','' @
     ''"currency":'' @ js_format_string js (dbf_currency funds) @ '','' @
     ''"balance":'' @ js_format_number js (dbf_balance funds) @ '','' @
     ''"hold":'' @ js_format_number js (dbf_hold funds) @ '','' @
     ''"exchange_time_utc":'' @ show_int (dbf_exchange_time_utc funds) @ '','' @
     ''"external_account":'' @ js_format_string js (dbf_external_account funds) @
     ''}''\<close>

text \<open>The callback of the queries appends one object, after a comma unless it is the first.\<close>

definition append_json :: "('a \<Rightarrow> string) \<Rightarrow> 'a list \<Rightarrow> string" where
  "append_json to_json rows =
     fold (\<lambda>x result. (if result \<noteq> [] then result @ '','' else result) @ to_json x) rows []"

definition array_response :: "request \<Rightarrow> string \<Rightarrow> response" where
  "array_response request result =
     (if result = [] then response_send request NOT_FOUND APPLICATION_JSON ''[]''
      else response_send request OK APPLICATION_JSON (''['' @ result @ '']''))"

definition success_response :: "request \<Rightarrow> http_status \<Rightarrow> bool \<Rightarrow> response" where
  \<open>success_response request status success =
     response_send request status APPLICATION_JSON
       (''{"success":'' @ (if success then ''true'' else ''false'') @ ''}'')\<close>

definition rows_response ::
    "request \<Rightarrow> ('a \<Rightarrow> string) \<Rightarrow> 'a list \<times> error option \<Rightarrow> error + response" where
  "rows_response request to_json res =
     (case res of
        (rows, Some e) \<Rightarrow> Inl e
      | (rows, None) \<Rightarrow> Inr (array_response request (append_json to_json rows)))"

section \<open>Queries\<close>

definition get_accounts ::
    "'j json_api \<Rightarrow> 'db database_session \<Rightarrow> request \<Rightarrow> 'db \<Rightarrow> error + response" where
  "get_accounts js ses request db =
     (if req_query request \<noteq> [] then Inl RuntimeError
      else rows_response request (account_to_json js) (ses_accounts ses db))"

definition get_positions ::
    "'j json_api \<Rightarrow> 'db database_session \<Rightarrow> request \<Rightarrow> 'db \<Rightarrow> error + response" where
  "get_positions js ses request db =
     (if req_query request \<noteq> [] then Inl RuntimeError
      else rows_response request (position_to_json js) (ses_positions ses db))"

text \<open>The loop over the query parameters: two known keys, the last value wins.\<close>

fun query_values ::
    "string \<Rightarrow> string \<Rightarrow> (string \<times> string) list \<Rightarrow> string \<times> string \<Rightarrow> error + string \<times> string" where
  "query_values key_1 key_2 [] (value_1, value_2) = Inr (value_1, value_2)"
| "query_values key_1 key_2 ((key, value) # rest) (value_1, value_2) =
     (if key = key_1 then query_values key_1 key_2 rest (value, value_2)
      else if key = key_2 then query_values key_1 key_2 rest (value_1, value)
      else Inl RuntimeError)"

definition get_trades ::
    "'j json_api \<Rightarrow> 'db database_session \<Rightarrow> request \<Rightarrow> 'db \<Rightarrow> error + response" where
  "get_trades js ses request db =
     bind_result (query_values ''account'' ''start_time'' (req_query request) ([], []))
       (\<lambda>(account, start_time_as_string).
     bind_result (convert_to_timestamp start_time_as_string) (\<lambda>start_time.
     rows_response request (trade_to_json js) (ses_trades ses account start_time db)))"

definition get_funds ::
    "'j json_api \<Rightarrow> 'db database_session \<Rightarrow> request \<Rightarrow> 'db \<Rightarrow> error + response" where
  "get_funds js ses request db =
     bind_result (query_values ''account'' ''currency'' (req_query request) ([], []))
       (\<lambda>(account, currency).
     rows_response request (funds_to_json js) (ses_funds ses account currency db))"

section \<open>Corrections\<close>

definition default_correction :: db_correction where
  "default_correction =
     \<lparr>dbc_user = [], dbc_strategy_id = 0, dbc_account = [], dbc_exchange = [], dbc_symbol = [],
      dbc_side = UNDEFINED, dbc_quantity = NaN, dbc_price = NaN, dbc_exchange_time_utc = 0,
      dbc_reason = []\<rparr>"

text \<open>
  \<^verbatim>\<open>parse_item\<close>: one key of an item. The text fields of a correction are views into the JSON value they
  are read from.
\<close>

definition parse_key ::
    "'j json_api \<Rightarrow> string \<Rightarrow> 'j \<Rightarrow> db_correction \<Rightarrow> error + db_correction" where
  "parse_key js key value c =
     (if key = ''user'' then bind_result (or_throw (js_get_string js value)) (\<lambda>s. Inr (c\<lparr>dbc_user := s\<rparr>))
      else if key = ''strategy_id'' then
        bind_result (or_throw (js_get_uint32 js value)) (\<lambda>n. Inr (c\<lparr>dbc_strategy_id := n\<rparr>))
      else if key = ''account'' then
        bind_result (or_throw (js_get_string js value)) (\<lambda>s. Inr (c\<lparr>dbc_account := s\<rparr>))
      else if key = ''exchange'' then
        bind_result (or_throw (js_get_string js value)) (\<lambda>s. Inr (c\<lparr>dbc_exchange := s\<rparr>))
      else if key = ''symbol'' then
        bind_result (or_throw (js_get_string js value)) (\<lambda>s. Inr (c\<lparr>dbc_symbol := s\<rparr>))
      else if key = ''side'' then
        bind_result (or_throw (js_get_string js value)) (\<lambda>tmp.
        bind_result (or_throw (side_cast tmp)) (\<lambda>side. Inr (c\<lparr>dbc_side := side\<rparr>)))
      else if key = ''quantity'' then
        bind_result (or_throw (js_get_double js value)) (\<lambda>x. Inr (c\<lparr>dbc_quantity := x\<rparr>))
      else if key = ''price'' then
        bind_result (or_throw (js_get_double js value)) (\<lambda>x. Inr (c\<lparr>dbc_price := x\<rparr>))
      else if key = ''exchange_time_utc'' then Inr c
      else if key = ''reason'' then
        bind_result (or_throw (js_get_string js value)) (\<lambda>s. Inr (c\<lparr>dbc_reason := s\<rparr>))
      else Inl RuntimeError)"

fun parse_keys ::
    "'j json_api \<Rightarrow> (string \<times> 'j) list \<Rightarrow> db_correction \<Rightarrow> error + db_correction" where
  "parse_keys js [] c = Inr c"
| "parse_keys js ((key, value) # rest) c =
     bind_result (parse_key js key value c) (\<lambda>c. parse_keys js rest c)"

definition parse_item :: "'j json_api \<Rightarrow> 'j \<Rightarrow> error + db_correction" where
  "parse_item js item =
     bind_result (or_throw (js_items js item)) (\<lambda>items. parse_keys js items default_correction)"

fun parse_items :: "'j json_api \<Rightarrow> 'j list \<Rightarrow> error + db_correction list" where
  "parse_items js [] = Inr []"
| "parse_items js (item # items) =
     bind_result (parse_item js item) (\<lambda>c. bind_result (parse_items js items) (\<lambda>cs. Inr (c # cs)))"

text \<open>
  For an array the loop variable is a copy of the element, gone before the corrections are inserted:
  a text field that is not empty then refers to freed memory.
\<close>

definition has_views :: "db_correction \<Rightarrow> bool" where
  "has_views c \<longleftrightarrow>
     dbc_user c \<noteq> [] \<or> dbc_account c \<noteq> [] \<or> dbc_exchange c \<noteq> [] \<or> dbc_symbol c \<noteq> [] \<or> dbc_reason c \<noteq> []"

definition put_trade ::
    "'j json_api \<Rightarrow> 'db database_session \<Rightarrow> nanoseconds \<Rightarrow> request \<Rightarrow> 'db \<Rightarrow> (error + response) \<times> 'db" where
  "put_trade js ses now request db =
     (if req_body request = [] then (Inr (success_response request NOT_FOUND False), db)
      else
        (case bind_result (or_throw (js_parse js (req_body request))) (\<lambda>json.
           if js_is_array js json then
             bind_result (parse_items js (js_elements js json)) (\<lambda>cs.
               if \<exists>c \<in> set cs. has_views c then Inl UndefinedBehaviour else Inr cs)
           else bind_result (parse_item js json) (\<lambda>c. Inr [c])) of
           Inl e \<Rightarrow> (Inl e, db)
         | Inr corrections \<Rightarrow>
             (case ses_insert_corrections ses now corrections db of
                (Some e, db') \<Rightarrow> (Inl e, db')
              | (None, db') \<Rightarrow> (Inr (success_response request OK True), db'))))"

section \<open>Compression\<close>

fun compress_query :: "(string \<times> string) list \<Rightarrow> string \<Rightarrow> error + string" where
  "compress_query [] end_time = Inr end_time"
| "compress_query ((key, value) # rest) end_time =
     (if key = ''end_time'' then compress_query rest value else Inl RuntimeError)"

fun compress_body :: "'j json_api \<Rightarrow> (string \<times> 'j) list \<Rightarrow> string \<Rightarrow> error + string" where
  "compress_body js [] end_time = Inr end_time"
| "compress_body js ((key, value) # rest) end_time =
     (if key = ''end_time'' then
        bind_result (or_throw (js_get_string js value)) (\<lambda>s. compress_body js rest s)
      else Inl RuntimeError)"

text \<open>
  A time in the body is a view into a JSON value that is gone when the block ends; looking at its
  length is still defined, reading its characters is not.
\<close>

definition compress_time :: "'j json_api \<Rightarrow> request \<Rightarrow> error + nanoseconds" where
  "compress_time js request =
     bind_result (compress_query (req_query request) []) (\<lambda>query_time.
       if req_body request \<noteq> [] then
         if query_time \<noteq> [] then Inl RuntimeError
         else
           bind_result (or_throw (js_parse js (req_body request))) (\<lambda>json.
           bind_result (or_throw (js_items js json)) (\<lambda>items.
           bind_result (compress_body js items []) (\<lambda>body_time.
             if body_time = [] then Inl RuntimeError else Inl UndefinedBehaviour)))
       else if query_time = [] then Inl RuntimeError
       else convert_to_timestamp query_time)"

definition put_compress ::
    "'j json_api \<Rightarrow> 'db database_session \<Rightarrow> request \<Rightarrow> 'db \<Rightarrow> (error + response) \<times> 'db" where
  "put_compress js ses request db =
     (case compress_time js request of
        Inl e \<Rightarrow> (Inl e, db)
      | Inr exchange_time_utc \<Rightarrow>
          (case ses_compress ses \<lparr>dbx_exchange_time_utc = exchange_time_utc\<rparr> db of
             (Some e, db') \<Rightarrow> (Inl e, db')
           | (None, db') \<Rightarrow> (Inr (success_response request OK True), db')))"

section \<open>Routing\<close>

text \<open>No response (\<open>None\<close>) for a path or a method that is not served.\<close>

definition route ::
    "'j json_api \<Rightarrow> 'db database_session \<Rightarrow> nanoseconds \<Rightarrow> request \<Rightarrow> string list \<Rightarrow> 'db \<Rightarrow>
     (error + response option) \<times> 'db" where
  "route js ses now request path db =
     (let reply = (\<lambda>r. (bind_result r (\<lambda>x. Inr (Some x)), db));
          reply_db = (\<lambda>(r, db'). (bind_result r (\<lambda>x. Inr (Some x)), db'));
          none = (Inr None, db) in
      case req_method request of
        GET \<Rightarrow>
          if hd path = ''accounts'' then
            if length path = 1 then reply (get_accounts js ses request db) else none
          else if hd path = ''positions'' then
            if length path = 1 then reply (get_positions js ses request db) else none
          else if hd path = ''trades'' then
            if length path = 1 then reply (get_trades js ses request db) else none
          else if hd path = ''funds'' then
            if length path = 1 then reply (get_funds js ses request db) else none
          else none
      | PUT \<Rightarrow>
          if hd path = ''trade'' then
            if length path = 1 then reply_db (put_trade js ses now request db) else none
          else if hd path = ''compress'' then
            if length path = 1 then reply_db (put_compress js ses request db) else none
          else none
      | _ \<Rightarrow> none)"

section \<open>JSON-RPC\<close>

definition send_text :: "string \<Rightarrow> web_output list" where
  "send_text message = [SendText message]"

definition send_jsonrpc :: "'j json_api \<Rightarrow> string \<Rightarrow> string \<Rightarrow> 'j \<Rightarrow> error + web_output list" where
  \<open>send_jsonrpc js type message rpc_id =
     (case js_type js rpc_id of
        JSON_STRING \<Rightarrow>
          bind_result (or_throw (js_get_string js rpc_id)) (\<lambda>s.
            Inr (send_text (''{"jsonrpc":"2.0","'' @ type @ ''":"'' @ message @ ''","id":"'' @ s @ ''"}'')))
      | JSON_NUMBER_INTEGER \<Rightarrow>
          bind_result (or_throw (js_get_int64 js rpc_id)) (\<lambda>n.
            Inr (send_text (''{"jsonrpc":"2.0","'' @ type @ ''":"'' @ message @ ''","id":'' @ show_int n @ ''}'')))
      | JSON_NUMBER_UNSIGNED \<Rightarrow>
          bind_result (or_throw (js_get_int64 js rpc_id)) (\<lambda>n.
            Inr (send_text (''{"jsonrpc":"2.0","'' @ type @ ''":"'' @ message @ ''","id":'' @ show_int n @ ''}'')))
      | JSON_OTHER \<Rightarrow> Inr [])\<close>

definition send_result :: "'j json_api \<Rightarrow> string \<Rightarrow> 'j \<Rightarrow> error + web_output list" where
  "send_result js message rpc_id = send_jsonrpc js ''result'' message rpc_id"

definition send_error :: "'j json_api \<Rightarrow> string \<Rightarrow> 'j \<Rightarrow> error + web_output list" where
  "send_error js message rpc_id = send_jsonrpc js ''error'' message rpc_id"

definition process_jsonrpc :: "'j json_api \<Rightarrow> string \<Rightarrow> 'j \<Rightarrow> 'j \<Rightarrow> error + web_output list" where
  "process_jsonrpc js method params rpc_id = send_error js ''UNKNOWN_METHOD'' rpc_id"

definition process_text :: "'j json_api \<Rightarrow> string \<Rightarrow> web_output list" where
  "process_text js message =
     (case bind_result (or_throw (js_parse js message)) (\<lambda>json.
        bind_result (or_throw (js_at js json ''jsonrpc'')) (\<lambda>v.
        bind_result (or_throw (js_get_string js v)) (\<lambda>version.
        if version \<noteq> ''2.0'' then Inl RuntimeError
        else
          bind_result (or_throw (js_at js json ''method'')) (\<lambda>m.
          bind_result (or_throw (js_get_string js m)) (\<lambda>method.
          bind_result (or_throw (js_at js json ''params'')) (\<lambda>params.
          bind_result (or_throw (js_at js json ''id'')) (\<lambda>rpc_id.
          process_jsonrpc js method params rpc_id))))))) of
        Inl _ \<Rightarrow> [CloseConnection]
      | Inr outs \<Rightarrow> outs)"

end
