(* ===== verification/Database_Facts.thy ===== *)
theory Database_Facts
  imports Database_Session Risk
begin

text \<open>
  Correctness of the SQLite session. The table of trades is refined to a map from primary keys to
  rows: an insert is a map update, a batch stops at the first error. This is the contract of the
  interface, a locale, from which follow idempotence and what a client finds after an insert. Key
  uniqueness and the round trip through insert and select are shown on the tables.
\<close>

section \<open>Tables as maps\<close>

definition index_by :: "('r \<Rightarrow> 'k) \<Rightarrow> 'r list \<Rightarrow> 'k \<Rightarrow> 'r option" where
  "index_by key rows = map_of (map (\<lambda>r. (key r, r)) rows)"

lemma index_by_Nil [simp]: "index_by key [] = Map.empty"
  by (simp add: index_by_def)

lemma index_by_filter:
  "index_by key (filter (\<lambda>x. key x \<noteq> k) rows) = (index_by key rows)(k := None)"
  by (induction rows) (auto simp: index_by_def fun_eq_iff)

lemma index_by_insert_or_replace [simp]:
  "index_by key (insert_or_replace key r rows) = (index_by key rows)(key r \<mapsto> r)"
proof -
  have "index_by key (xs @ [r]) = [key r \<mapsto> r] ++ index_by key xs" for xs
    by (simp add: index_by_def)
  then show ?thesis
    by (auto simp: insert_or_replace_def index_by_filter map_add_def fun_eq_iff split: option.split)
qed

lemma map_add_twice: "m ++ n ++ n = m ++ n"
  by (auto simp: map_add_def fun_eq_iff split: option.split)

lemma distinct_insert_or_replace:
  "distinct (map key rows) \<Longrightarrow> distinct (map key (insert_or_replace key r rows))"
  by (auto simp: insert_or_replace_def distinct_map_filter)

lemma index_by_member:
  "distinct (map key rows) \<Longrightarrow> r \<in> set rows \<longleftrightarrow> index_by key rows (key r) = Some r"
  unfolding index_by_def by (subst map_of_eq_Some_iff) (auto simp: comp_def)

definition keys_unique :: "tables \<Rightarrow> bool" where
  "keys_unique t \<longleftrightarrow>
     distinct (map trades_key (trades_of t)) \<and> distinct (map funds_key (funds_of t))"

section \<open>Single statements\<close>

lemma step_once_execute:
  assumes "plain_sql q" "query_rows eng q t = []"
  shows "step_once (execute eng) q t =
    (if finite_sql q \<and> tables_exist q t \<and> eng_failure eng q t = None
     then (Inr False, update_tables eng q t) else (Inl RuntimeError, t))"
  using assms
  by (auto simp: step_once_def execute_def refused_def statement_new_def statement_step_def
      sqlite3_step_def split: option.split)

lemma trades_of_insert [simp]:
  "trades_of (update_tables eng (INSERT_TRADES r) t) =
     insert_or_replace trades_key (store_trade eng r) (trades_of t)"
  "funds_of (update_tables eng (INSERT_TRADES r) t) = funds_of t"
  "funds_of (update_tables eng (INSERT_FUNDS f) t) =
     insert_or_replace funds_key (store_funds eng f) (funds_of t)"
  "trades_of (update_tables eng (INSERT_FUNDS f) t) = trades_of t"
  by (simp_all add: trades_of_def funds_of_def)

lemma keys_store [simp]:
  "trades_key (store_trade eng r) = trades_key r" "funds_key (store_funds eng f) = funds_key f"
  by (simp_all add: trades_key_def store_trade_def funds_key_def store_funds_def)

section \<open>Batches\<close>

lemma insert_all_invariant:
  assumes "\<And>x t. x \<in> set items \<Longrightarrow> I t \<Longrightarrow> I (snd (step_once lib (query x) t))" and "I t"
  shows "I (snd (insert_all lib query items t))"
  using assms
proof (induction items arbitrary: t)
  case (Cons x xs)
  obtain r t1 where step: "step_once lib (query x) t = (r, t1)" by fastforce
  then have "I t1" using Cons.prems(1) [of x t] Cons.prems(2) by simp
  then show ?case using Cons step by (cases r) auto
qed simp

lemma insert_trades_batch:
  assumes "\<And>x. x \<in> set items \<Longrightarrow> plain_sql (INSERT_TRADES (row x))"
    and "insert_all (execute eng) (\<lambda>x. INSERT_TRADES (row x)) items t = (err, t')"
  shows "\<exists>n \<le> length items. (err = None \<longleftrightarrow> n = length items) \<and> (err \<noteq> None \<longrightarrow> err = Some RuntimeError) \<and>
    index_by trades_key (trades_of t') = index_by trades_key (trades_of t) ++
      map_of (rev (map (\<lambda>x. (trades_key (row x), store_trade eng (row x))) (take n items)))"
  using assms
proof (induction items arbitrary: t)
  case (Cons x xs)
  note step = step_once_execute [of "INSERT_TRADES (row x)" eng t]
  show ?case
  proof (cases "finite_sql (INSERT_TRADES (row x)) \<and> tables_exist (INSERT_TRADES (row x)) t \<and>
      eng_failure eng (INSERT_TRADES (row x)) t = None")
    case True
    let ?t1 = "update_tables eng (INSERT_TRADES (row x)) t"
    have "insert_all (execute eng) (\<lambda>x. INSERT_TRADES (row x)) xs ?t1 = (err, t')"
      using Cons.prems step True by (simp del: update_tables.simps plain_sql.simps)
    from Cons.IH [OF _ this] Cons.prems(1) obtain n where n: "n \<le> length xs"
      "err = None \<longleftrightarrow> n = length xs" "err \<noteq> None \<longrightarrow> err = Some RuntimeError"
      "index_by trades_key (trades_of t') = index_by trades_key (trades_of ?t1) ++
        map_of (rev (map (\<lambda>x. (trades_key (row x), store_trade eng (row x))) (take n xs)))"
      by auto
    then show ?thesis
      by (intro exI [of _ "Suc n"]) (simp del: update_tables.simps add: map_add_assoc [symmetric])
  next
    case False
    then show ?thesis using Cons.prems step by (intro exI [of _ 0]) (auto split: if_splits)
  qed
qed simp

section \<open>The interface under SQLite\<close>

definition storable :: "roq_api \<Rightarrow> db_trade \<Rightarrow> bool" where
  "storable api item \<longleftrightarrow> plain_sql (INSERT_TRADES (trade_values api item))"

definition trade_key :: "roq_api \<Rightarrow> db_trade \<Rightarrow> string \<times> int \<times> string \<times> string \<times> string \<times> int \<times> string \<times> string" where
  "trade_key api item = trades_key (trade_values api item)"

definition stored_row :: "roq_api \<Rightarrow> engine \<Rightarrow> db_trade \<Rightarrow> trades_row" where
  "stored_row api eng item = store_trade eng (trade_values api item)"

definition trades_map :: "tables \<Rightarrow> string \<times> int \<times> string \<times> string \<times> string \<times> int \<times> string \<times> string \<Rightarrow>
    trades_row option" where
  "trades_map t = index_by trades_key (trades_of t)"

text \<open>
  The contract of a session towards the component that stores trades: a batch is inserted from the
  front, later trades replace earlier ones with the same key, and the batch is stored completely
  unless an error is reported. No error is reported while the database is up and the trades fit.
\<close>

locale trade_store =
  fixes insert :: "db_trade list \<Rightarrow> 'db \<Rightarrow> error option \<times> 'db"
    and stored :: "'db \<Rightarrow> 'k \<Rightarrow> 'r option"
    and key :: "db_trade \<Rightarrow> 'k"
    and row :: "db_trade \<Rightarrow> 'r"
    and valid :: "db_trade \<Rightarrow> bool"
    and fits :: "db_trade \<Rightarrow> bool"
    and up :: "'db \<Rightarrow> bool"
  assumes insert_prefix: "(\<And>x. x \<in> set items \<Longrightarrow> valid x) \<Longrightarrow> insert items db = (err, db') \<Longrightarrow>
      \<exists>n \<le> length items. (err = None \<longleftrightarrow> n = length items) \<and> (err \<noteq> None \<longrightarrow> err = Some RuntimeError) \<and>
        stored db' = stored db ++ map_of (rev (map (\<lambda>x. (key x, row x)) (take n items)))"
    and insert_up: "(\<And>x. x \<in> set items \<Longrightarrow> valid x \<and> fits x) \<Longrightarrow> up db \<Longrightarrow> insert items db = (err, db') \<Longrightarrow>
      err = None \<and> up db'"
begin

lemma insert_complete:
  assumes "\<And>x. x \<in> set items \<Longrightarrow> valid x" "insert items db = (None, db')"
  shows "stored db' = stored db ++ map_of (rev (map (\<lambda>x. (key x, row x)) items))"
  using insert_prefix [OF assms] by auto

lemma insert_found:
  assumes "\<And>x. x \<in> set items \<Longrightarrow> valid x" "insert items db = (None, db')"
    and "distinct (map key items)" "x \<in> set items"
  shows "stored db' (key x) = Some (row x)"
proof -
  have "map_of (rev (map (\<lambda>x. (key x, row x)) items)) (key x) = Some (row x)"
    using assms(3,4) by (intro map_of_is_SomeI) (auto simp: rev_map [symmetric] comp_def)
  with insert_complete [OF assms(1,2)] show ?thesis by simp
qed

lemma insert_keeps:
  assumes "\<And>x. x \<in> set items \<Longrightarrow> valid x" "insert items db = (None, db')" "k \<notin> key ` set items"
  shows "stored db' k = stored db k"
proof -
  have "map_of (rev (map (\<lambda>x. (key x, row x)) items)) k = None"
    using assms(3) by (auto simp: map_of_eq_None_iff)
  with insert_complete [OF assms(1,2)] show ?thesis by (simp add: map_add_def)
qed

lemma insert_twice:
  assumes "\<And>x. x \<in> set items \<Longrightarrow> valid x" "insert items db = (None, db1)" "insert items db1 = (None, db2)"
  shows "stored db2 = stored db1"
  using insert_complete [OF assms(1,2)] insert_complete [OF assms(1,3)] by (simp add: map_add_twice)

end

text \<open>The SQLite session fulfils it. It is up when the table exists and the engine does not fail.\<close>

definition fits_row :: "db_trade \<Rightarrow> bool" where
  "fits_row item \<longleftrightarrow> is_finite (dbt_quantity item) \<and> is_finite (dbt_price item)"

definition engine_up :: "engine \<Rightarrow> tables \<Rightarrow> bool" where
  "engine_up eng t \<longleftrightarrow> tbl_trades t \<noteq> None \<and> (\<forall>q t. eng_failure eng q t = None)"

lemma insert_all_up:
  assumes "\<And>x. x \<in> set items \<Longrightarrow> storable api x \<and> fits_row x" "engine_up eng t"
    and "insert_all (execute eng) (\<lambda>item. INSERT_TRADES (trade_values api item)) items t = (err, t')"
  shows "err = None \<and> engine_up eng t'"
  using assms
proof (induction items arbitrary: t)
  case (Cons x xs)
  let ?q = "INSERT_TRADES (trade_values api x)"
  have "plain_sql ?q" "finite_sql ?q"
    using Cons.prems(1) [of x] by (simp_all add: storable_def fits_row_def trade_values_def)
  moreover have "tables_exist ?q t" "eng_failure eng ?q t = None" "engine_up eng (update_tables eng ?q t)"
    using Cons.prems(2) by (simp_all add: engine_up_def)
  ultimately show ?case
    using Cons step_once_execute [of ?q eng t] by (simp del: update_tables.simps plain_sql.simps finite_sql.simps)
qed simp

interpretation sqlite_store: trade_store "ses_insert_trades (sqlite_session api (execute eng))" trades_map
  "trade_key api" "stored_row api eng" "storable api" fits_row "engine_up eng" for api eng
proof (unfold_locales, goal_cases)
  case (1 items db err db')
  then show ?case
    using insert_trades_batch [of items "trade_values api" eng db err db']
    by (simp add: storable_def trades_map_def trade_key_def stored_row_def sqlite_session_def trades_insert_def)
next
  case (2 items db err db')
  then show ?case using insert_all_up [of items api eng db] by (simp add: sqlite_session_def trades_insert_def)
qed

text \<open>
  C13: Refinement of the trades table to a map. Inserting a batch of trades whose texts need no
  escaping updates the map from primary keys to rows with a prefix of the batch, later trades
  replacing earlier ones with the same key; the prefix is the whole batch exactly if no error is
  reported.
\<close>

theorem trades_insert_refines_map:
  assumes "\<And>item. item \<in> set items \<Longrightarrow> storable api item"
    and "ses_insert_trades (sqlite_session api (execute eng)) items t = (err, t')"
  shows "\<exists>n \<le> length items. (err = None \<longleftrightarrow> n = length items) \<and>
    (err \<noteq> None \<longrightarrow> err = Some RuntimeError) \<and>
    trades_map t' = trades_map t ++
      map_of (rev (map (\<lambda>item. (trade_key api item, stored_row api eng item)) (take n items)))"
  using assms by (rule sqlite_store.insert_prefix)

definition sample_engine :: engine where
  "sample_engine =
     \<lparr>eng_failure = (\<lambda>_ _. None), eng_real = (\<lambda>x. x), eng_sum = (\<lambda>xs. fold dadd xs zero_double),
      eng_bare = (\<lambda>_ _. 0), eng_malformed = (\<lambda>_ t. (refused, t))\<rparr>"

lemma sample_engine_failure [simp]: "eng_failure sample_engine q t = None"
  by (simp add: sample_engine_def)

definition sample_tables :: tables where
  "sample_tables = \<lparr>tbl_trades = Some [], tbl_funds = Some []\<rparr>"

definition sample_db_trade :: "string \<Rightarrow> side \<Rightarrow> string \<Rightarrow> int \<Rightarrow> int \<Rightarrow> db_trade" where
  "sample_db_trade account side x n time =
     \<lparr>dbt_user = ''trader'', dbt_strategy_id = 0, dbt_account = account, dbt_exchange = ''deribit'',
      dbt_symbol = ''BTC-PERPETUAL'', dbt_side = side, dbt_quantity = grid one_exp n,
      dbt_price = grid one_exp 100, dbt_exchange_time_utc = time, dbt_external_account = [],
      dbt_external_order_id = ''o1'', dbt_external_trade_id = x\<rparr>"

lemma sample_storable:
  assumes "plain_text account" "plain_text x"
  shows "storable sample_api (sample_db_trade account side x n time)"
  using assms
  by (cases side) (simp_all add: storable_def sample_db_trade_def trade_values_def sample_api_def plain_text_def)

theorem trades_insert_refines_map_witness:
  "\<exists>err t' n. ses_insert_trades (sqlite_session sample_api (execute sample_engine))
       [sample_db_trade ''A1'' BUY ''t1'' 5 10] sample_tables = (err, t') \<and>
     trades_map t' = trades_map sample_tables ++
       map_of (rev (map (\<lambda>item. (trade_key sample_api item, stored_row sample_api sample_engine item))
         (take n [sample_db_trade ''A1'' BUY ''t1'' 5 10])))"
proof -
  obtain err t' where run: "ses_insert_trades (sqlite_session sample_api (execute sample_engine))
      [sample_db_trade ''A1'' BUY ''t1'' 5 10] sample_tables = (err, t')"
    by fastforce
  have "storable sample_api item" if "item \<in> set [sample_db_trade ''A1'' BUY ''t1'' 5 10]" for item
    using that by (auto intro!: sample_storable simp: plain_text_def)
  from trades_insert_refines_map [OF this run] run show ?thesis by blast
qed

text \<open>
  Inserting a batch a second time (the trades a gateway downloads again) leaves the stored rows
  as they are.
\<close>

lemma trades_insert_idempotent:
  assumes "\<And>item. item \<in> set items \<Longrightarrow> storable api item"
    and "ses_insert_trades (sqlite_session api (execute eng)) items t = (None, t1)"
    and "ses_insert_trades (sqlite_session api (execute eng)) items t1 = (None, t2)"
  shows "trades_map t2 = trades_map t1"
  using assms by (rule sqlite_store.insert_twice)

lemma sample_insert:
  "ses_insert_trades (sqlite_session sample_api (execute sample_engine))
     [sample_db_trade ''A1'' BUY x n time] \<lparr>tbl_trades = Some rows, tbl_funds = fs\<rparr> =
   (None, \<lparr>tbl_trades = Some (insert_or_replace trades_key
      (stored_row sample_api sample_engine (sample_db_trade ''A1'' BUY x n time)) rows), tbl_funds = fs\<rparr>)"
  if "plain_text x"
proof -
  let ?q = "INSERT_TRADES (trade_values sample_api (sample_db_trade ''A1'' BUY x n time))"
  let ?t = "\<lparr>tbl_trades = Some rows, tbl_funds = fs\<rparr>"
  have "plain_sql ?q"
    using sample_storable [of "''A1''" x BUY n time] that by (simp add: storable_def plain_text_def)
  moreover have "finite_sql ?q" by (simp add: sample_db_trade_def trade_values_def)
  moreover have "tables_exist ?q ?t" by simp
  moreover have "update_tables sample_engine ?q ?t = \<lparr>tbl_trades = Some (insert_or_replace trades_key
      (stored_row sample_api sample_engine (sample_db_trade ''A1'' BUY x n time)) rows), tbl_funds = fs\<rparr>"
    by (simp add: stored_row_def trades_of_def)
  ultimately show ?thesis
    using step_once_execute [of ?q sample_engine ?t]
    by (simp add: sqlite_session_def trades_insert_def sample_engine_def
        del: plain_sql.simps finite_sql.simps update_tables.simps)
qed

section \<open>Primary keys\<close>

definition storable_correction :: "roq_api \<Rightarrow> nanoseconds \<Rightarrow> db_correction \<Rightarrow> bool" where
  "storable_correction api now item \<longleftrightarrow> plain_sql (INSERT_TRADES (correction_values api now item))"

definition storable_funds :: "nanoseconds \<Rightarrow> db_funds \<Rightarrow> bool" where
  "storable_funds now item \<longleftrightarrow> plain_sql (INSERT_FUNDS (funds_values now item))"

lemma keys_unique_insert:
  assumes "keys_unique t"
  shows "plain_sql (INSERT_TRADES r) \<Longrightarrow> keys_unique (snd (step_once (execute eng) (INSERT_TRADES r) t))"
    "plain_sql (INSERT_FUNDS f) \<Longrightarrow> keys_unique (snd (step_once (execute eng) (INSERT_FUNDS f) t))"
  using assms
  by (simp_all add: step_once_execute keys_unique_def distinct_insert_or_replace
      del: update_tables.simps plain_sql.simps)



section \<open>Round trip\<close>

lemma get_real_cell: "get_double i row = Inr x" if "column i row = real_cell x"
  using that by (cases x) (simp_all add: get_double_def real_cell_def isnan_def)

definition read_back :: "engine \<Rightarrow> db_trade \<Rightarrow> db_trade" where
  "read_back eng item =
     item\<lparr>dbt_quantity := eng_real eng (dbt_quantity item), dbt_price := eng_real eng (dbt_price item)\<rparr>"

definition trade_cells :: "trades_row \<Rightarrow> cell list" where
  "trade_cells r =
     [SQL_TEXT (trw_user r), SQL_INTEGER (trw_strategy_id r), SQL_TEXT (trw_account r),
      SQL_TEXT (trw_exchange r), SQL_TEXT (trw_symbol r), SQL_TEXT (trw_side r),
      SQL_FLOAT (trw_quantity r), SQL_FLOAT (trw_price r), SQL_INTEGER (trw_exchange_time_utc r),
      SQL_TEXT (trw_external_account r), SQL_TEXT (trw_external_order_id r),
      SQL_TEXT (trw_external_trade_id r)]"

lemma decode_trade_stored:
  assumes "format_side_law api"
  shows "decode_trade (trade_cells (stored_row api eng item)) = Inr (read_back eng item)"
  using assms uint_lt2p [of "dbt_strategy_id item"]
  by (simp add: decode_trade_def trade_cells_def stored_row_def store_trade_def trade_values_def
      get_defs format_side_law_def read_back_def)

lemma sqlite_select_rows:
  assumes "plain_sql q" "finite_sql q" "select_rows (execute eng) q decode t = (xs, None)"
    and "\<And>row. row \<in> set (query_rows eng q t) \<Longrightarrow> decode row = Inr (f row)"
  shows "xs = map f (query_rows eng q t)" "tables_exist q t"
proof -
  have ok: "tables_exist q t" "eng_failure eng q t = None"
    using assms(1-3)
    by (auto simp: select_rows_def execute_def refused_def statement_new_def fetch_failure
        split: if_splits option.splits)
  then show "tables_exist q t" by simp
  have "fst (execute eng q t) = \<lparr>out_prepare = SQLITE_OK, out_rows = query_rows eng q t, out_failure = None\<rparr>"
    using ok assms(1,2) by (simp add: execute_def)
  from select_rows_ok [of "execute eng", OF this, of decode f] assms(3,4)
  show "xs = map f (query_rows eng q t)" by simp
qed

lemma sqlite_select_ok:
  assumes "plain_sql q" "finite_sql q" "tables_exist q t" "eng_failure eng q t = None"
    and "\<And>row. row \<in> set (query_rows eng q t) \<Longrightarrow> decode row = Inr (f row)"
  shows "select_rows (execute eng) q decode t = (map f (query_rows eng q t), None)"
  by (rule select_rows_ok) (use assms in \<open>simp_all add: execute_def\<close>)

lemma insert_trades_fresh:
  assumes "\<And>x. x \<in> set items \<Longrightarrow> plain_sql (INSERT_TRADES (row x))"
    and "insert_all (execute eng) (\<lambda>x. INSERT_TRADES (row x)) items t = (None, t')"
    and "distinct (map (trades_key \<circ> row) items)"
    and "(trades_key \<circ> row) ` set items \<inter> trades_key ` set (trades_of t) = {}"
  shows "trades_of t' = trades_of t @ map (\<lambda>x. store_trade eng (row x)) items"
  using assms
proof (induction items arbitrary: t)
  case (Cons x xs)
  let ?t1 = "update_tables eng (INSERT_TRADES (row x)) t"
  have rest: "insert_all (execute eng) (\<lambda>x. INSERT_TRADES (row x)) xs ?t1 = (None, t')"
    using Cons.prems(1,2) step_once_execute [of "INSERT_TRADES (row x)" eng t]
    by (auto split: if_splits simp del: update_tables.simps plain_sql.simps)
  have "trades_key y \<noteq> trades_key (row x)" if "y \<in> set (trades_of t)" for y
    using Cons.prems(4) that by (metis IntI comp_apply empty_iff imageI list.set_intros(1))
  then have "filter (\<lambda>y. trades_key y \<noteq> trades_key (row x)) (trades_of t) = trades_of t"
    by (simp add: filter_id_conv)
  then have t1: "trades_of ?t1 = trades_of t @ [store_trade eng (row x)]"
    by (simp add: insert_or_replace_def del: update_tables.simps)
  have "trades_of t' = trades_of ?t1 @ map (\<lambda>x. store_trade eng (row x)) xs"
    by (rule Cons.IH [OF _ rest], unfold t1) (use Cons.prems in auto)
  with t1 show ?case by simp
qed simp

lemma sort_two_keys:
  "sorted (map f (sort_key f (sort_key g xs)))"
  "sorted (map g (filter (\<lambda>x. f x = k) (sort_key f (sort_key g xs))))"
  by (simp_all add: sort_key_stable sorted_filter)

lemma stored_row_fields:
  assumes "format_side_law api"
  shows "trw_account (stored_row api eng x) = dbt_account x"
    "trw_exchange_time_utc (stored_row api eng x) = dbt_exchange_time_utc x"
    "projr (decode_trade (trade_cells (stored_row api eng x))) = read_back eng x"
  using decode_trade_stored [OF assms, of eng x]
  by (simp_all add: stored_row_def store_trade_def trade_values_def)

lemma select_inserted:
  assumes "format_side_law api" "\<forall>item \<in> set items. storable api item"
    and "distinct (map (trade_key api) items)" "trades_of t = []" "plain_text account"
    and "ses_insert_trades (sqlite_session api (execute eng)) items t = (None, t')"
    and "ses_trades (sqlite_session api (execute eng)) account start t' = (xs, None)"
    and "wanted = (\<lambda>item. (account = [] \<or> dbt_account item = account) \<and>
      (start = 0 \<or> start \<le> dbt_exchange_time_utc item))"
  shows "xs = map (\<lambda>r. projr (decode_trade (trade_cells r)))
    (sort_key trw_account (sort_key trw_exchange_time_utc (map (stored_row api eng) (filter wanted items))))"
proof -
  have ins: "insert_all (execute eng) (\<lambda>x. INSERT_TRADES (trade_values api x)) items t = (None, t')"
    using assms(6) by (simp add: sqlite_session_def trades_insert_def)
  have rows: "trades_of t' = map (stored_row api eng) items"
    using insert_trades_fresh [OF _ ins] assms(2-4)
    by (simp add: storable_def trade_key_def [abs_def] comp_def stored_row_def [abs_def])
  let ?want = "\<lambda>r. (account = [] \<or> trw_account r = account) \<and>
    (start = 0 \<or> trw_exchange_time_utc r \<ge> start)"
  let ?sort = "\<lambda>rs. sort_key trw_account (sort_key trw_exchange_time_utc rs)"
  have q: "query_rows eng (SELECT_TRADES account start) t' =
      map trade_cells (?sort (filter ?want (map (stored_row api eng) items)))"
    by (simp add: query_trades_def rows trade_cells_def [abs_def])
  have "xs = map (projr \<circ> decode_trade) (query_rows eng (SELECT_TRADES account start) t')"
    by (rule sqlite_select_rows(1) [where decode = decode_trade]) (use assms(5,7) decode_trade_stored [OF assms(1), of eng] in
        \<open>auto simp: sqlite_session_def trades_select_trades_def q rows simp del: query_rows.simps\<close>)
  moreover have "filter ?want (map (stored_row api eng) items) = map (stored_row api eng) (filter wanted items)"
    by (simp add: filter_map comp_def stored_row_fields [OF assms(1)] assms(8))
  ultimately show ?thesis by (simp add: q del: query_rows.simps)
qed

text \<open>
  C23: Round trip. Trades with different keys, inserted into an empty table without an error, are
  what a later query returns: exactly those of the requested account and not before the start time
  (empty and zero meaning all), each once, ordered by account and by time within an account, with
  quantity and price as the printed numbers are read back.
\<close>

theorem insert_select_round_trip:
  assumes "format_side_law api" "\<forall>item \<in> set items. storable api item"
    and "distinct (map (trade_key api) items)" "trades_of t = []" "plain_text account"
    and "ses_insert_trades (sqlite_session api (execute eng)) items t = (None, t')"
    and "ses_trades (sqlite_session api (execute eng)) account start t' = (xs, None)"
    and "wanted = (\<lambda>item. (account = [] \<or> dbt_account item = account) \<and>
      (start = 0 \<or> start \<le> dbt_exchange_time_utc item))"
  shows "set xs = read_back eng ` {item \<in> set items. wanted item} \<and>
    length xs = length (filter wanted items) \<and> sorted (map dbt_account xs) \<and>
    (\<forall>a. sorted (map dbt_exchange_time_utc (filter (\<lambda>x. dbt_account x = a) xs)))"
proof -
  let ?sort = "\<lambda>rs. sort_key trw_account (sort_key trw_exchange_time_utc rs)"
  let ?decoded = "\<lambda>r. projr (decode_trade (trade_cells r))" and ?rs = "map (stored_row api eng) (filter wanted items)"
  note row = stored_row_fields [OF assms(1), of eng]
  have eq: "xs = map ?decoded (?sort ?rs)" by (rule select_inserted [OF assms])
  have fields: "dbt_account (?decoded r) = trw_account r"
    "dbt_exchange_time_utc (?decoded r) = trw_exchange_time_utc r" if "r \<in> set (?sort ?rs)" for r
    using that row by (auto simp: read_back_def)
  have "map dbt_account xs = map trw_account (?sort ?rs)"
    using fields(1) unfolding eq map_map comp_def by (rule map_cong [OF refl])
  moreover have "map dbt_exchange_time_utc (filter (\<lambda>x. dbt_account x = a) xs) =
      map trw_exchange_time_utc (filter (\<lambda>r. trw_account r = a) (?sort ?rs))" for a
    unfolding eq filter_map map_map comp_def using fields
    by (intro map_cong filter_cong) (auto cong: filter_cong)
  moreover have "set xs = read_back eng ` {item \<in> set items. wanted item}"
    unfolding eq by (auto simp: image_iff row)
  moreover have "length xs = length (filter wanted items)" by (simp add: eq)
  ultimately show ?thesis by (simp add: sort_two_keys)
qed

theorem insert_select_round_trip_witness:
  "\<exists>t' xs. ses_trades (sqlite_session sample_api (execute sample_engine)) ''A1'' 0 t' = (xs, None) \<and>
     set xs = {read_back sample_engine (sample_db_trade ''A1'' BUY ''t1'' 5 10)}"
proof -
  let ?ses = "sqlite_session sample_api (execute sample_engine)"
  let ?items = "[sample_db_trade ''A1'' BUY ''t1'' 5 10]"
  let ?row = "stored_row sample_api sample_engine (sample_db_trade ''A1'' BUY ''t1'' 5 10)"
  let ?t' = "\<lparr>tbl_trades = Some [?row], tbl_funds = Some []\<rparr>"
  let ?w = "\<lambda>item. (''A1'' = [] \<or> dbt_account item = ''A1'') \<and> ((0 :: int) = 0 \<or> 0 \<le> dbt_exchange_time_utc item)"
  have x: "plain_text ''t1''" and a: "plain_text ''A1''" by (simp_all add: plain_text_def)
  have ins: "ses_insert_trades ?ses ?items sample_tables = (None, ?t')"
    by (simp add: sample_tables_def sample_insert [OF x] insert_or_replace_def)
  have st: "\<forall>item \<in> set ?items. storable sample_api item"
    using sample_storable [OF a x] by simp
  have q: "query_rows sample_engine (SELECT_TRADES ''A1'' 0) ?t' = [trade_cells ?row]"
    by (simp add: query_trades_def trades_of_def trade_cells_def stored_row_def store_trade_def
        trade_values_def sample_db_trade_def)
  have "select_rows (execute sample_engine) (SELECT_TRADES ''A1'' 0) decode_trade ?t' =
      (map (\<lambda>_. read_back sample_engine (sample_db_trade ''A1'' BUY ''t1'' 5 10))
        (query_rows sample_engine (SELECT_TRADES ''A1'' 0) ?t'), None)"
    by (rule sqlite_select_ok)
      (use a decode_trade_stored [OF format_side_law_sample_api] in
        \<open>auto simp: q simp del: query_rows.simps\<close>)
  then have "snd (ses_trades ?ses ''A1'' 0 ?t') = None"
    by (simp add: sqlite_session_def trades_select_trades_def)
  then have sel: "ses_trades ?ses ''A1'' 0 ?t' = (fst (ses_trades ?ses ''A1'' 0 ?t'), None)"
    by (metis prod.collapse)
  have "set (fst (ses_trades ?ses ''A1'' 0 ?t')) = read_back sample_engine ` {item \<in> set ?items. ?w item}"
    using insert_select_round_trip [OF format_side_law_sample_api st _ _ a ins sel refl]
    by (simp add: sample_tables_def trades_of_def)
  with sel show ?thesis by (intro exI) (auto simp: sample_db_trade_def)
qed

end
