(* ===== verification/Control_Manager.thy ===== *)
theory Control_Manager
  imports Control Database_Facts
begin

text \<open>
  The life of control sessions (\<^verbatim>\<open>control/manager.cpp\<close> and the event handlers of
  \<^verbatim>\<open>control/session.cpp\<close>): accepting a connection, requests and upgrades, the broadcast of trades to
  the upgraded sessions, and the delayed removal of disconnected ones. The web server is the source
  of events; the step relation \<open>control_step\<close> says which events it can deliver: to an existing
  session, and none after the connection is gone.
\<close>

section \<open>State\<close>

datatype session_state = WAITING | READY | ZOMBIE

record control_session =
  cs_session_id :: u64
  cs_state :: session_state

record manager =
  mgr_url_prefix :: string
  mgr_next_session_id :: u64
  mgr_sessions :: "(u64, control_session) hash_map"
  mgr_subscribers :: "u64 list"
  mgr_next_cleanup :: nanoseconds
  mgr_zombies :: "u64 list"

datatype network_address = Port nat | Path string

text \<open>The side effect of creating the directory of a path is left out.\<close>

definition create_network_address :: "string \<Rightarrow> network_address" where
  "create_network_address address =
     (case from_chars_unsigned 65535 address of
        (errc_ok, port) \<Rightarrow> Port port
      | _ \<Rightarrow> Path address)"

definition manager_new :: "string \<Rightarrow> manager" where
  "manager_new control_url_prefix =
     \<lparr>mgr_url_prefix = control_url_prefix, mgr_next_session_id = 0, mgr_sessions = [],
      mgr_subscribers = [], mgr_next_cleanup = 0, mgr_zombies = []\<rparr>"

section \<open>Sessions\<close>

definition control_session_new :: "u64 \<Rightarrow> control_session" where
  "control_session_new session_id = \<lparr>cs_session_id = session_id, cs_state = WAITING\<rparr>"

definition session_ready :: "control_session \<Rightarrow> bool" where
  "session_ready session \<longleftrightarrow> cs_state session = READY"

definition session_zombie :: "control_session \<Rightarrow> bool" where
  "session_zombie session \<longleftrightarrow> cs_state session = ZOMBIE"

lemmas session_defs [simp] = control_session_new_def session_ready_def session_zombie_def

section \<open>Manager\<close>

definition CLEANUP_FREQUENCY :: nanoseconds where
  "CLEANUP_FREQUENCY = 1000000000"

definition remove_zombies :: "manager \<Rightarrow> manager" where
  "remove_zombies m =
     (if length (mgr_zombies m) = 0 then m
      else m\<lparr>mgr_sessions := fold AList.delete (mgr_zombies m) (mgr_sessions m), mgr_zombies := []\<rparr>)"

definition manager_timer :: "nanoseconds \<Rightarrow> manager \<Rightarrow> manager" where
  "manager_timer now m =
     (if mgr_next_cleanup m < now
      then remove_zombies (m\<lparr>mgr_next_cleanup := now + CLEANUP_FREQUENCY\<rparr>)
      else m)"

definition session_trade :: "'j json_api \<Rightarrow> db_trade \<Rightarrow> control_session \<Rightarrow> web_output list" where
  "session_trade js trade session = send_text (trade_to_json js trade)"

definition manager_trade :: "'j json_api \<Rightarrow> db_trade \<Rightarrow> manager \<Rightarrow> (u64 \<times> web_output) list" where
  "manager_trade js trade m =
     concat (map (\<lambda>session_id.
       (case map_of (mgr_sessions m) session_id of
          None \<Rightarrow> []
        | Some session \<Rightarrow> map (Pair session_id) (session_trade js trade session))) (mgr_subscribers m))"

definition manager_accept :: "manager \<Rightarrow> manager" where
  "manager_accept m =
     (let session_id = mgr_next_session_id m + 1;
          session = control_session_new session_id
      in m\<lparr>mgr_next_session_id := session_id,
           mgr_sessions := try_emplace session_id session (mgr_sessions m)\<rparr>)"

definition manager_disconnected :: "u64 \<Rightarrow> manager \<Rightarrow> manager" where
  "manager_disconnected session_id m =
     m\<lparr>mgr_zombies := fst (emplace session_id (mgr_zombies m)),
       mgr_subscribers := removeAll session_id (mgr_subscribers m)\<rparr>"

definition manager_upgraded :: "u64 \<Rightarrow> manager \<Rightarrow> manager" where
  "manager_upgraded session_id m =
     m\<lparr>mgr_subscribers := fst (emplace session_id (mgr_subscribers m))\<rparr>"

section \<open>Session events\<close>

definition set_state :: "u64 \<Rightarrow> session_state \<Rightarrow> manager \<Rightarrow> manager" where
  "set_state session_id state m =
     (case map_of (mgr_sessions m) session_id of
        None \<Rightarrow> m
      | Some session \<Rightarrow>
          m\<lparr>mgr_sessions := AList.update session_id (session\<lparr>cs_state := state\<rparr>) (mgr_sessions m)\<rparr>)"

definition session_disconnected :: "u64 \<Rightarrow> manager \<Rightarrow> manager" where
  "session_disconnected session_id m = manager_disconnected session_id (set_state session_id ZOMBIE m)"

text \<open>
  An error of the request handler closes the connection; undefined behaviour and a fatal exit are
  not caught. \<open>upgrade_throws\<close> says whether the server refuses the upgrade with an exception.
\<close>

definition session_request ::
    "'j json_api \<Rightarrow> 'db database_session \<Rightarrow> (request \<Rightarrow> bool) \<Rightarrow> nanoseconds \<Rightarrow> u64 \<Rightarrow> request \<Rightarrow>
     manager \<Rightarrow> 'db \<Rightarrow> (error + web_output list) \<times> manager \<times> 'db" where
  "session_request js ses upgrade_throws now session_id request m db =
     (if req_connection request = UPGRADE then
        if upgrade_throws request then (Inr [CloseConnection], m, db)
        else (Inr [UpgradeConnection], manager_upgraded session_id (set_state session_id READY m), db)
      else
        (let path = req_path request;
             path = (if path \<noteq> [] \<and> mgr_url_prefix m \<noteq> [] \<and> hd path = mgr_url_prefix m then tl path else path)
         in if path = [] then (Inr [], m, db)
            else
              (case route js ses now request path db of
                 (Inr None, db') \<Rightarrow> (Inr [], m, db')
               | (Inr (Some r), db') \<Rightarrow> (Inr [SendResponse r], m, db')
               | (Inl UndefinedBehaviour, db') \<Rightarrow> (Inl UndefinedBehaviour, m, db')
               | (Inl FatalError, db') \<Rightarrow> (Inl FatalError, m, db')
               | (Inl _, db') \<Rightarrow> (Inr [CloseConnection], m, db'))))"

datatype web_event =
    Accepted
  | ServerDisconnected u64
  | ServerRequest u64 request
  | ServerText u64 string
  | ServerBinary u64

definition web_event ::
    "'j json_api \<Rightarrow> 'db database_session \<Rightarrow> (request \<Rightarrow> bool) \<Rightarrow> nanoseconds \<Rightarrow> web_event \<Rightarrow>
     manager \<Rightarrow> 'db \<Rightarrow> (error + (u64 \<times> web_output) list) \<times> manager \<times> 'db" where
  "web_event js ses upgrade_throws now event m db =
     (case event of
        Accepted \<Rightarrow> (Inr [], manager_accept m, db)
      | ServerDisconnected session_id \<Rightarrow> (Inr [], session_disconnected session_id m, db)
      | ServerRequest session_id request \<Rightarrow>
          (let (r, m', db') = session_request js ses upgrade_throws now session_id request m db
           in (bind_result r (\<lambda>outs. Inr (map (Pair session_id) outs)), m', db'))
      | ServerText session_id payload \<Rightarrow> (Inr (map (Pair session_id) (process_text js payload)), m, db)
      | ServerBinary session_id \<Rightarrow> (Inr [], m, db))"

section \<open>Reachable states\<close>

definition alive :: "manager \<Rightarrow> u64 \<Rightarrow> bool" where
  "alive m session_id \<longleftrightarrow>
     (case map_of (mgr_sessions m) session_id of
        None \<Rightarrow> False
      | Some session \<Rightarrow> \<not> session_zombie session)"

definition deliverable :: "manager \<Rightarrow> web_event \<Rightarrow> bool" where
  "deliverable m event \<longleftrightarrow>
     (case event of
        Accepted \<Rightarrow> mgr_next_session_id m \<noteq> - 1
      | ServerDisconnected session_id \<Rightarrow> alive m session_id
      | ServerRequest session_id _ \<Rightarrow> alive m session_id
      | ServerText session_id _ \<Rightarrow> alive m session_id
      | ServerBinary session_id \<Rightarrow> alive m session_id)"

inductive control_step ::
    "'j json_api \<Rightarrow> 'db database_session \<Rightarrow> (request \<Rightarrow> bool) \<Rightarrow> manager \<times> 'db \<Rightarrow> manager \<times> 'db \<Rightarrow> bool"
  for js ses upgrade_throws where
  event: "deliverable m e \<Longrightarrow> web_event js ses upgrade_throws now e m db = (Inr outs, m', db') \<Longrightarrow>
    control_step js ses upgrade_throws (m, db) (m', db')"
| timer: "control_step js ses upgrade_throws (m, db) (manager_timer now m, db)"
| database: "control_step js ses upgrade_throws (m, db) (m, db')"

inductive_cases control_stepE: "control_step js ses upgrade_throws s s'"

definition control_reachable ::
    "'j json_api \<Rightarrow> 'db database_session \<Rightarrow> (request \<Rightarrow> bool) \<Rightarrow> string \<Rightarrow> manager \<Rightarrow> bool" where
  "control_reachable js ses upgrade_throws prefix m \<longleftrightarrow>
     (\<exists>db db'. (control_step js ses upgrade_throws)\<^sup>*\<^sup>* (manager_new prefix, db) (m, db'))"

section \<open>The invariant\<close>

definition state_of :: "manager \<Rightarrow> u64 \<Rightarrow> session_state option" where
  "state_of m k = map_option cs_state (map_of (mgr_sessions m) k)"

definition manager_inv :: "manager \<Rightarrow> bool" where
  "manager_inv m \<longleftrightarrow>
     unique_keys (mgr_sessions m) \<and> distinct (mgr_subscribers m) \<and> distinct (mgr_zombies m) \<and>
     (\<forall>k s. map_of (mgr_sessions m) k = Some s \<longrightarrow> cs_session_id s = k \<and> k \<le> mgr_next_session_id m) \<and>
     (\<forall>k. k \<in> set (mgr_subscribers m) \<longleftrightarrow> state_of m k = Some READY) \<and>
     (\<forall>k. k \<in> set (mgr_zombies m) \<longleftrightarrow> state_of m k = Some ZOMBIE)"

lemma manager_inv_new: "manager_inv (manager_new prefix)"
  by (simp add: manager_inv_def manager_new_def state_of_def)

lemma map_of_fold_delete: "map_of (fold AList.delete ks m) k = (if k \<in> set ks then None else map_of m k)"
  by (induction ks arbitrary: m) auto

lemma unique_keys_fold_delete: "unique_keys m \<Longrightarrow> unique_keys (fold AList.delete ks m)"
  by (induction ks arbitrary: m) auto

lemma manager_inv_remove_zombies: "manager_inv m \<Longrightarrow> manager_inv (remove_zombies m)"
  by (auto simp: manager_inv_def remove_zombies_def state_of_def map_of_fold_delete
      unique_keys_fold_delete)

lemma manager_inv_timer: "manager_inv m \<Longrightarrow> manager_inv (manager_timer now m)"
proof -
  assume "manager_inv m"
  then have "manager_inv (m\<lparr>mgr_next_cleanup := now + CLEANUP_FREQUENCY\<rparr>)"
    by (simp add: manager_inv_def state_of_def)
  with \<open>manager_inv m\<close> show ?thesis by (simp add: manager_timer_def manager_inv_remove_zombies)
qed

lemma next_session_less:
  assumes "(n :: u64) \<noteq> - 1"
  shows "n < n + 1"
proof -
  have "1 + n \<noteq> 0" using assms max_word_wrap [of n] by (auto simp: add.commute)
  from unatSuc [OF this] show ?thesis by (simp add: word_less_nat_alt add.commute)
qed

lemma manager_inv_accept:
  assumes "manager_inv m" "mgr_next_session_id m \<noteq> - 1"
  shows "manager_inv (manager_accept m)"
proof -
  let ?n = "mgr_next_session_id m + 1"
  have less: "mgr_next_session_id m < ?n" by (rule next_session_less [OF assms(2)])
  have fresh: "map_of (mgr_sessions m) ?n = None"
    using assms(1) less unfolding manager_inv_def by (metis leD not_None_eq)
  then have "?n \<notin> set (mgr_subscribers m)" "?n \<notin> set (mgr_zombies m)"
    using assms(1) by (auto simp: manager_inv_def state_of_def)
  moreover have "k \<le> ?n" if "map_of (mgr_sessions m) k = Some s" for k s
  proof -
    have "k \<le> mgr_next_session_id m" using that assms(1) unfolding manager_inv_def by blast
    then show ?thesis using less by order
  qed
  ultimately show ?thesis
    using assms(1) fresh
    by (auto simp: manager_inv_def manager_accept_def Let_def state_of_def map_of_try_emplace find_or_def)
qed

lemma map_of_set_state:
  "map_of (mgr_sessions (set_state k st m)) =
     (if map_of (mgr_sessions m) k = None then map_of (mgr_sessions m)
      else (map_of (mgr_sessions m))(k \<mapsto> the (map_of (mgr_sessions m) k)\<lparr>cs_state := st\<rparr>))"
  by (auto simp: set_state_def split: option.split)

lemma set_state_frame [simp]:
  "mgr_subscribers (set_state k st m) = mgr_subscribers m" "mgr_zombies (set_state k st m) = mgr_zombies m"
  "mgr_next_session_id (set_state k st m) = mgr_next_session_id m"
  "unique_keys (mgr_sessions m) \<Longrightarrow> unique_keys (mgr_sessions (set_state k st m))"
  by (simp_all add: set_state_def split: option.split)

lemma manager_inv_disconnected:
  assumes "manager_inv m" "alive m k"
  shows "manager_inv (session_disconnected k m)"
  using assms
  by (auto simp: session_disconnected_def manager_disconnected_def manager_inv_def state_of_def
      map_of_set_state alive_def distinct_removeAll split: option.splits)

lemma manager_inv_upgraded:
  assumes "manager_inv m" "alive m k"
  shows "manager_inv (manager_upgraded k (set_state k READY m))"
  using assms
  by (auto simp: manager_upgraded_def manager_inv_def state_of_def map_of_set_state alive_def
      split: option.splits)

lemma manager_inv_request:
  assumes "manager_inv m" "alive m k"
    and "session_request js ses upgrade_throws now k request m db = (r, m', db')"
  shows "manager_inv m'"
  using assms manager_inv_upgraded [OF assms(1,2)]
  by (auto simp: session_request_def Let_def split: if_splits prod.splits sum.splits option.splits error.splits)

lemma manager_inv_event:
  assumes "manager_inv m" "deliverable m e" "web_event js ses upgrade_throws now e m db = (r, m', db')"
  shows "manager_inv m'"
proof (cases e)
  case (ServerRequest k request)
  obtain r1 where "session_request js ses upgrade_throws now k request m db = (r1, m', db')"
    using assms(3) ServerRequest by (auto simp: web_event_def split: prod.splits)
  with assms(1,2) ServerRequest show ?thesis by (auto simp: deliverable_def intro: manager_inv_request)
qed (use assms in \<open>auto simp: web_event_def deliverable_def manager_inv_accept manager_inv_disconnected\<close>)

lemma manager_inv_reachable:
  assumes "control_reachable js ses upgrade_throws prefix m"
  shows "manager_inv m"
proof -
  have "manager_inv (fst s')" if "(control_step js ses upgrade_throws)\<^sup>*\<^sup>* s s'" "manager_inv (fst s)" for s s'
    using that
    by (induction rule: rtranclp_induct)
      (auto elim!: control_step.cases intro: manager_inv_event manager_inv_timer)
  from this [of "(manager_new prefix, _)" "(m, _)"] assms show ?thesis
    by (auto simp: control_reachable_def manager_inv_new)
qed

section \<open>Properties\<close>

definition sample_json :: "string json_api" where
  "sample_json =
     \<lparr>js_parse = (\<lambda>s. Some s), js_is_array = (\<lambda>_. False), js_elements = (\<lambda>_. []),
      js_items = (\<lambda>_. Some []), js_at = (\<lambda>_ _. None), js_type = (\<lambda>_. JSON_STRING),
      js_get_string = (\<lambda>s. Some s), js_get_uint32 = (\<lambda>_. None), js_get_int64 = (\<lambda>_. None),
      js_get_double = (\<lambda>_. None), js_format_string = (\<lambda>s. CHR 0x22 # s @ [CHR 0x22]),
      js_format_side = side_name, js_format_number = (\<lambda>_. ''0'')\<rparr>"

definition sample_request :: "http_connection \<Rightarrow> string \<Rightarrow> request" where
  "sample_request connection path =
     \<lparr>req_method = GET, req_connection = connection, req_path = [path], req_query = [], req_body = []\<rparr>"

definition sample_session :: "unit database_session" where
  "sample_session =
     \<lparr>ses_accounts = (\<lambda>_. ([], None)), ses_positions = (\<lambda>_. ([], None)),
      ses_trades = (\<lambda>_ _ _. ([], None)), ses_funds = (\<lambda>_ _ _. ([], None)),
      ses_insert_trades = (\<lambda>_ db. (None, db)), ses_insert_corrections = (\<lambda>_ _ db. (None, db)),
      ses_insert_funds = (\<lambda>_ _ db. (None, db)), ses_compress = (\<lambda>_ db. (None, db))\<rparr>"

definition sample_manager :: manager where
  "sample_manager = manager_upgraded 1 (set_state 1 READY (manager_accept (manager_new [])))"

lemma sample_manager_reachable:
  "control_reachable sample_json sample_session (\<lambda>_. False) [] sample_manager"
proof -
  let ?step = "control_step sample_json sample_session (\<lambda>_. False)"
  let ?m1 = "manager_accept (manager_new [])"
  have "?step (manager_new [], ()) (?m1, ())"
    by (rule control_step.event [where e = Accepted and now = 0 and outs = "[]"])
      (simp_all add: deliverable_def web_event_def manager_new_def)
  moreover have "?step (?m1, ()) (sample_manager, ())"
    by (rule control_step.event [where e = "ServerRequest 1 (sample_request UPGRADE ''x'')" and now = 0
          and outs = "[(1, UpgradeConnection)]"])
      (simp_all add: deliverable_def alive_def web_event_def session_request_def sample_request_def
        sample_manager_def manager_accept_def manager_new_def try_emplace_def)
  ultimately have "?step\<^sup>*\<^sup>* (manager_new [], ()) (sample_manager, ())"
    by (rule rtranclp_trans [OF r_into_rtranclp r_into_rtranclp])
  then show ?thesis unfolding control_reachable_def by (intro exI)
qed

text \<open>
  C22: Every trade goes to exactly the sessions that have been upgraded and are still connected, to
  each of them once, as the JSON text of the trade; in particular the assertion that such a session
  is ready holds.
\<close>

theorem trade_reaches_every_ready_session:
  assumes "control_reachable js ses upgrade_throws prefix m"
    and "outs = manager_trade js trade m"
  shows "distinct (map fst outs) \<and> (\<forall>k. k \<in> set (map fst outs) \<longleftrightarrow> state_of m k = Some READY) \<and>
    (\<forall>(k, out) \<in> set outs. out = SendText (trade_to_json js trade))"
proof -
  have inv: "manager_inv m" by (rule manager_inv_reachable [OF assms(1)])
  have known: "\<exists>s. map_of (mgr_sessions m) k = Some s" if "k \<in> set (mgr_subscribers m)" for k
    using inv that by (auto simp: manager_inv_def state_of_def)
  have outs: "outs = map (\<lambda>k. (k, SendText (trade_to_json js trade))) ks"
    if "outs = concat (map (\<lambda>session_id. (case map_of (mgr_sessions m) session_id of None \<Rightarrow> []
          | Some session \<Rightarrow> map (Pair session_id) (session_trade js trade session))) ks)"
      "set ks \<subseteq> set (mgr_subscribers m)" for ks outs
    using that known by (induction ks arbitrary: outs) (fastforce simp: session_trade_def send_text_def)+
  then have eq: "outs = map (\<lambda>k. (k, SendText (trade_to_json js trade))) (mgr_subscribers m)"
    by (simp add: assms(2) manager_trade_def)
  then have "map fst outs = mgr_subscribers m" by (simp add: comp_def)
  with inv eq show ?thesis by (auto simp: manager_inv_def)
qed

theorem trade_reaches_every_ready_session_witness:
  "map fst (manager_trade sample_json (sample_db_trade ''A1'' BUY ''t1'' 5 10) sample_manager) = [1] \<and>
   state_of sample_manager 1 = Some READY"
proof -
  let ?outs = "manager_trade sample_json (sample_db_trade ''A1'' BUY ''t1'' 5 10) sample_manager"
  have ready: "state_of sample_manager 1 = Some READY"
    by (simp add: sample_manager_def manager_upgraded_def state_of_def set_state_def manager_accept_def
        manager_new_def try_emplace_def Let_def)
  have "length ?outs = 1"
    by (simp add: manager_trade_def sample_manager_def manager_upgraded_def set_state_def
        manager_accept_def manager_new_def try_emplace_def Let_def session_trade_def send_text_def emplace_def)
  with ready trade_reaches_every_ready_session [OF sample_manager_reachable refl,
      of "sample_db_trade ''A1'' BUY ''t1'' 5 10"]
  show ?thesis by (cases ?outs) (auto, metis)
qed

text \<open>
  C29: Disconnected sessions are removed by the first timer event after the cleanup time: none is
  left, every other session stays as it is, and sessions are never removed while connected.
\<close>

theorem cleanup_removes_exactly_zombies:
  assumes "control_reachable js ses upgrade_throws prefix m" "mgr_next_cleanup m < now"
    and "m' = manager_timer now m"
  shows "(\<forall>k. map_of (mgr_sessions m') k =
      (if state_of m k = Some ZOMBIE then None else map_of (mgr_sessions m) k)) \<and>
    mgr_zombies m' = [] \<and> mgr_subscribers m' = mgr_subscribers m \<and>
    mgr_next_cleanup m' = now + CLEANUP_FREQUENCY"
proof -
  have "state_of m k = Some ZOMBIE \<longleftrightarrow> k \<in> set (mgr_zombies m)" for k
    using manager_inv_reachable [OF assms(1)] by (simp add: manager_inv_def)
  then show ?thesis
    using assms(2) by (auto simp: assms(3) manager_timer_def remove_zombies_def map_of_fold_delete)
qed

definition sample_gone :: manager where
  "sample_gone = session_disconnected 1 sample_manager"

lemma sample_gone_reachable: "control_reachable sample_json sample_session (\<lambda>_. False) [] sample_gone"
proof -
  have "alive sample_manager 1"
    by (simp add: sample_manager_def manager_upgraded_def alive_def set_state_def manager_accept_def
        manager_new_def try_emplace_def Let_def)
  then have "control_step sample_json sample_session (\<lambda>_. False) (sample_manager, db) (sample_gone, db)" for db
    by (intro control_step.event [where e = "ServerDisconnected 1" and now = 0 and outs = "[]"])
      (simp_all add: deliverable_def web_event_def sample_gone_def)
  with sample_manager_reachable show ?thesis
    unfolding control_reachable_def by (meson rtranclp.rtrancl_into_rtrancl)
qed

theorem cleanup_removes_exactly_zombies_witness:
  "mgr_sessions sample_gone \<noteq> [] \<and> map_of (mgr_sessions (manager_timer 5 sample_gone)) 1 = None"
proof -
  note defs = sample_gone_def session_disconnected_def manager_disconnected_def sample_manager_def
    manager_upgraded_def state_of_def set_state_def manager_accept_def manager_new_def
    try_emplace_def Let_def
  have "mgr_next_cleanup sample_gone < 5" "state_of sample_gone 1 = Some ZOMBIE"
    "mgr_sessions sample_gone \<noteq> []"
    by (simp_all add: defs)
  with cleanup_removes_exactly_zombies [OF sample_gone_reachable _ refl, of 5] show ?thesis by simp
qed

end
