(* ===== verification/Control_Facts.thy ===== *)
theory Control_Facts
  imports Control_Manager
begin

text \<open>
  What the control interface answers: the body and status of the queries, the reading of timestamps
  and of the listen address, which requests are served at all and which can change the database,
  and what becomes of errors.
\<close>

section \<open>Arrays\<close>

fun comma_separated :: "string list \<Rightarrow> string" where
  "comma_separated [] = []"
| "comma_separated [x] = x"
| "comma_separated (x # y # xs) = x @ '','' @ comma_separated (y # xs)"

lemma comma_separated_snoc:
  "xs \<noteq> [] \<Longrightarrow> comma_separated (xs @ [x]) = comma_separated xs @ '','' @ x"
  by (induction xs rule: comma_separated.induct) auto

lemma comma_separated_nonempty: "xs \<noteq> [] \<Longrightarrow> \<forall>x \<in> set xs. x \<noteq> [] \<Longrightarrow> comma_separated xs \<noteq> []"
  by (cases xs rule: comma_separated.cases) auto

lemma append_json_eq:
  assumes "\<And>x. to_json x \<noteq> []"
  shows "append_json to_json rows = comma_separated (map to_json rows)"
proof (induction rows rule: rev_induct)
  case (snoc x xs)
  have "comma_separated (map to_json xs) \<noteq> []" if "xs \<noteq> []"
    using that assms by (intro comma_separated_nonempty) auto
  with snoc show ?case by (cases "xs = []") (simp_all add: append_json_def comma_separated_snoc)
qed (simp add: append_json_def)

lemma to_json_nonempty [simp]:
  "trade_to_json js t \<noteq> []" "account_to_json js a \<noteq> []" "position_to_json js p \<noteq> []" "funds_to_json js f \<noteq> []"
  by (simp_all add: trade_to_json_def account_to_json_def position_to_json_def funds_to_json_def)

lemma rows_response_eq:
  assumes "\<And>x. to_json x \<noteq> []"
  shows "rows_response request to_json (rows, None) =
    Inr (if rows = [] then response_send request NOT_FOUND APPLICATION_JSON ''[]''
         else response_send request OK APPLICATION_JSON (''['' @ comma_separated (map to_json rows) @ '']''))"
proof -
  have "comma_separated (map to_json rows) = [] \<longleftrightarrow> rows = []"
    using comma_separated_nonempty [of "map to_json rows"] assms by auto
  then show ?thesis by (simp add: rows_response_def array_response_def append_json_eq [OF assms])
qed

text \<open>
  C28: The answer to a query for trades: status 200 and a JSON array with one object per trade, in
  the order the database reports them, or status 404 with an empty array and a closed connection if
  there is none; an error of the database is passed on, with nothing sent.
\<close>

theorem get_trades_answer:
  assumes "query_values ''account'' ''start_time'' (req_query request) ([], []) = Inr (account, start)"
    and "convert_to_timestamp start = Inr start_time"
    and "ses_trades ses account start_time db = (rows, err)"
  shows "get_trades js ses request db =
    (case err of
       Some e \<Rightarrow> Inl e
     | None \<Rightarrow> Inr
         \<lparr>rsp_status = (if rows = [] then NOT_FOUND else OK),
          rsp_connection = (if rows = [] then CLOSE else req_connection request),
          rsp_cache_control = ''no-store'', rsp_content_type = APPLICATION_JSON,
          rsp_body = ''['' @ comma_separated (map (trade_to_json js) rows) @ '']''\<rparr>)"
proof (cases err)
  case None
  with assms show ?thesis by (simp add: get_trades_def rows_response_eq response_send_def)
next
  case (Some e)
  with assms show ?thesis by (simp add: get_trades_def rows_response_def)
qed

theorem get_trades_answer_witness:
  "get_trades sample_json (sample_session\<lparr>ses_trades := \<lambda>_ _ _. ([sample_db_trade ''A1'' BUY ''t1'' 5 10], None)\<rparr>)
     (sample_request KEEP_ALIVE ''trades'') () =
   Inr \<lparr>rsp_status = OK, rsp_connection = KEEP_ALIVE, rsp_cache_control = ''no-store'',
        rsp_content_type = APPLICATION_JSON,
        rsp_body = ''['' @ trade_to_json sample_json (sample_db_trade ''A1'' BUY ''t1'' 5 10) @ '']''\<rparr>"
  by (subst get_trades_answer [where account = "[]" and start = "[]" and start_time = 0
        and rows = "[sample_db_trade ''A1'' BUY ''t1'' 5 10]" and err = None])
    (simp_all add: sample_request_def convert_to_timestamp_def)

section \<open>Timestamps and addresses\<close>

text \<open>
  Reading a timestamp inverts printing it: every printed integer is read back if it fits 64 bits
  and refused as out of range otherwise, whatever follows after the digits.
\<close>

lemma timestamp_round_trip:
  assumes "ends_number rest"
  shows "convert_to_timestamp (show_int n @ rest) =
    (if - (2 ^ 63) \<le> n \<and> n \<le> 2 ^ 63 - 1 then Inr n else Inl RangeError)"
  using from_chars_signed_show [OF assms, of "- (2 ^ 63)" "2 ^ 63 - 1" n]
  by (simp add: convert_to_timestamp_def)


text \<open>
  C38: The listen address is a port exactly if the text starts with a number up to 65535; what
  follows the number is ignored, so a dotted address such as 127.0.0.1 is the port 127. Any other
  text, a larger number included, is a path.
\<close>

theorem listen_address:
  assumes "ends_number rest"
  shows "create_network_address (show_nat n @ rest) =
      (if n \<le> 65535 then Port n else Path (show_nat n @ rest)) \<and>
    (\<forall>s. s = [] \<or> \<not> is_digit (hd s) \<longrightarrow> create_network_address s = Path s)"
proof -
  have "from_chars_unsigned 65535 s = (errc_invalid_argument, 0)" if "s = [] \<or> \<not> is_digit (hd s)" for s
    using that by (cases s) (auto simp: from_chars_unsigned_def)
  then show ?thesis
    using from_chars_unsigned_show [OF assms, of 65535 n] by (simp add: create_network_address_def)
qed

theorem listen_address_witness:
  "create_network_address (show_nat 127 @ ''.0.0.1'') = Port 127"
  using listen_address [of "''.0.0.1''" 127] by (simp add: ends_number_def is_digit_def)

section \<open>Requests\<close>

text \<open>The paths that are served, by method, after the prefix has been removed.\<close>

definition served :: "http_method \<Rightarrow> string list \<Rightarrow> bool" where
  "served method path \<longleftrightarrow>
     (method = GET \<and> path \<in> {[''accounts''], [''positions''], [''trades''], [''funds'']}) \<or>
     (method = PUT \<and> path \<in> {[''trade''], [''compress'']})"

definition without_prefix :: "string \<Rightarrow> string list \<Rightarrow> string list" where
  "without_prefix prefix path =
     (if prefix \<noteq> [] \<and> (\<exists>rest. path = prefix # rest) then tl path else path)"

lemma singleton_path: "path = [p] \<longleftrightarrow> length path = Suc 0 \<and> hd path = p"
  by (cases path) auto

lemma route_not_served: "path \<noteq> [] \<Longrightarrow> \<not> served (req_method request) path \<Longrightarrow>
    route js ses now request path db = (Inr None, db)"
  by (auto simp: route_def served_def Let_def singleton_path split: http_method.split)

lemma bind_result_Some: "bind_result r (\<lambda>x. Inr (Some x)) = Inr y \<Longrightarrow> \<exists>rsp. y = Some rsp"
  by (cases r) auto

lemma route_served:
  assumes "served (req_method request) path" "route js ses now request path db = (Inr r, db')"
  shows "\<exists>rsp. r = Some rsp"
  using assms(1) unfolding served_def
  by (elim disjE conjE insertE emptyE)
    (use assms(2) in \<open>simp add: route_def Let_def case_prod_beta, metis bind_result_Some\<close>)+

lemma route_get: "req_method request \<noteq> PUT \<Longrightarrow> snd (route js ses now request path db) = db"
  by (auto simp: route_def Let_def split: http_method.split)

lemma session_request_plain:
  assumes "req_connection request \<noteq> UPGRADE" "path = without_prefix (mgr_url_prefix m) (req_path request)"
    and "session_request js ses upgrade_throws now k request m db = (Inr outs, m', db')"
  shows "m' = m \<and> ((path = [] \<and> outs = [] \<and> db' = db) \<or>
    (path \<noteq> [] \<and>
      (\<exists>r. route js ses now request path db = (r, db') \<and>
        (case r of Inr None \<Rightarrow> outs = [] | Inr (Some x) \<Rightarrow> outs = [SendResponse x]
         | Inl _ \<Rightarrow> outs = [CloseConnection]))))"
proof -
  have "path = (if req_path request \<noteq> [] \<and> mgr_url_prefix m \<noteq> [] \<and> hd (req_path request) = mgr_url_prefix m
      then tl (req_path request) else req_path request)"
    unfolding assms(2) without_prefix_def by (cases "req_path request") auto
  with assms(1,3) show ?thesis
    by (auto simp: session_request_def Let_def
        split: if_splits prod.splits sum.splits option.splits error.splits)
qed

text \<open>
  C27: Requests that are not upgrades: those on a served path get exactly one reaction, a response or,
  after an error, a closed connection; all others get none, and no request but a PUT on a served
  path can change the database. Sessions are untouched.
\<close>

theorem requests_answered:
  assumes "req_connection request \<noteq> UPGRADE"
    and "path = without_prefix (mgr_url_prefix m) (req_path request)"
    and "session_request js ses upgrade_throws now k request m db = (Inr outs, m', db')"
  shows "m' = m \<and>
    (if served (req_method request) path then outs = [CloseConnection] \<or> (\<exists>r. outs = [SendResponse r])
     else outs = [] \<and> db' = db) \<and>
    (req_method request \<noteq> PUT \<longrightarrow> db' = db)"
proof -
  note plain = session_request_plain [OF assms]
  show ?thesis
  proof (cases "path = []")
    case True
    with plain show ?thesis by (simp add: served_def)
  next
    case False
    then obtain r where r: "route js ses now request path db = (r, db')" and m: "m' = m"
      and outs: "case r of Inr None \<Rightarrow> outs = [] | Inr (Some x) \<Rightarrow> outs = [SendResponse x]
         | Inl _ \<Rightarrow> outs = [CloseConnection]"
      using plain by auto
    have "db' = db" if "req_method request \<noteq> PUT"
      using route_get [OF that, of js ses now path db] r by simp
    moreover have "outs = [] \<and> db' = db" if "\<not> served (req_method request) path"
      using route_not_served [OF False that, of js ses now db] r outs by simp
    moreover have "outs = [CloseConnection] \<or> (\<exists>r. outs = [SendResponse r])"
      if "served (req_method request) path"
      using outs r route_served [OF that] by (cases r) fastforce+
    ultimately show ?thesis using m by simp
  qed
qed

theorem requests_answered_witness:
  "session_request sample_json sample_session (\<lambda>_. False) 0 1 (sample_request KEEP_ALIVE ''orders'')
     (manager_new ''api'') () = (Inr [], manager_new ''api'', ())"
proof -
  let ?r = "session_request sample_json sample_session (\<lambda>_. False) 0 1 (sample_request KEEP_ALIVE ''orders'')
     (manager_new ''api'') ()"
  obtain outs m' where r: "?r = (Inr outs, m', ())"
    by (simp add: session_request_def sample_request_def manager_new_def route_def)
  from requests_answered [OF _ refl r] have "m' = manager_new ''api'' \<and> outs = []"
    by (simp add: sample_request_def served_def without_prefix_def manager_new_def)
  with r show ?thesis by simp
qed


text \<open>
  The items of a correction as a client writes them, for any way to write texts, numbers and
  identifiers as JSON.
\<close>

definition correction_items ::
    "(string \<Rightarrow> 'j) \<Rightarrow> (u32 \<Rightarrow> 'j) \<Rightarrow> (double \<Rightarrow> 'j) \<Rightarrow> 'j \<Rightarrow> db_correction \<Rightarrow> (string \<times> 'j) list" where
  "correction_items str num dbl time c =
     [(''user'', str (dbc_user c)), (''strategy_id'', num (dbc_strategy_id c)),
      (''account'', str (dbc_account c)), (''exchange'', str (dbc_exchange c)),
      (''symbol'', str (dbc_symbol c)), (''side'', str (side_name (dbc_side c))),
      (''quantity'', dbl (dbc_quantity c)), (''price'', dbl (dbc_price c)),
      (''exchange_time_utc'', time), (''reason'', str (dbc_reason c))]"

text \<open>The correction \<open>d\<close> with the fields named by the keys taken from \<open>c\<close>.\<close>

definition patch :: "string set \<Rightarrow> db_correction \<Rightarrow> db_correction \<Rightarrow> db_correction" where
  "patch ks c d =
     \<lparr>dbc_user = (if ''user'' \<in> ks then dbc_user c else dbc_user d),
      dbc_strategy_id = (if ''strategy_id'' \<in> ks then dbc_strategy_id c else dbc_strategy_id d),
      dbc_account = (if ''account'' \<in> ks then dbc_account c else dbc_account d),
      dbc_exchange = (if ''exchange'' \<in> ks then dbc_exchange c else dbc_exchange d),
      dbc_symbol = (if ''symbol'' \<in> ks then dbc_symbol c else dbc_symbol d),
      dbc_side = (if ''side'' \<in> ks then dbc_side c else dbc_side d),
      dbc_quantity = (if ''quantity'' \<in> ks then dbc_quantity c else dbc_quantity d),
      dbc_price = (if ''price'' \<in> ks then dbc_price c else dbc_price d),
      dbc_exchange_time_utc = dbc_exchange_time_utc d,
      dbc_reason = (if ''reason'' \<in> ks then dbc_reason c else dbc_reason d)\<rparr>"

lemma patch_empty: "patch {} c d = d"
  by (simp add: patch_def)

lemma patch_fields:
  "dbc_user (patch ks c d) = (if ''user'' \<in> ks then dbc_user c else dbc_user d)"
  "dbc_strategy_id (patch ks c d) = (if ''strategy_id'' \<in> ks then dbc_strategy_id c else dbc_strategy_id d)"
  "dbc_account (patch ks c d) = (if ''account'' \<in> ks then dbc_account c else dbc_account d)"
  "dbc_exchange (patch ks c d) = (if ''exchange'' \<in> ks then dbc_exchange c else dbc_exchange d)"
  "dbc_symbol (patch ks c d) = (if ''symbol'' \<in> ks then dbc_symbol c else dbc_symbol d)"
  "dbc_side (patch ks c d) = (if ''side'' \<in> ks then dbc_side c else dbc_side d)"
  "dbc_quantity (patch ks c d) = (if ''quantity'' \<in> ks then dbc_quantity c else dbc_quantity d)"
  "dbc_price (patch ks c d) = (if ''price'' \<in> ks then dbc_price c else dbc_price d)"
  "dbc_reason (patch ks c d) = (if ''reason'' \<in> ks then dbc_reason c else dbc_reason d)"
  "dbc_exchange_time_utc (patch ks c d) = dbc_exchange_time_utc d"
  by (simp_all only: patch_def db_correction.simps)

lemma patch_patch: "patch ks c (patch ls c d) = patch (ls \<union> ks) c d"
  by (rule db_correction.equality) (simp_all only: patch_fields Un_iff if_True if_False split: if_split, auto)

lemma parse_key_item:
  assumes "\<forall>s. js_get_string js (str s) = Some s" "\<forall>n. js_get_uint32 js (num n) = Some n"
    "\<forall>x. js_get_double js (dbl x) = Some x"
    and "(key, value) \<in> set (correction_items str num dbl time c)"
  shows "parse_key js key value d = Inr (patch {key} c d)"
  using assms(4) unfolding correction_items_def list.set insert_iff empty_iff prod.inject
  by (elim disjE conjE FalseE; hypsubst) (simp_all add: parse_key_def patch_def or_throw_def side_cast_name assms)


datatype sample_value = Text string | Number u32 | Real double | Object "(string \<times> sample_value) list"

definition sample_reader :: "sample_value json_api" where
  "sample_reader =
     \<lparr>js_parse = (\<lambda>s. Some (Text s)), js_is_array = (\<lambda>_. False), js_elements = (\<lambda>_. []),
      js_items = (\<lambda>v. case v of Object items \<Rightarrow> Some items | _ \<Rightarrow> None), js_at = (\<lambda>_ _. None),
      js_type = (\<lambda>_. JSON_OTHER),
      js_get_string = (\<lambda>v. case v of Text s \<Rightarrow> Some s | _ \<Rightarrow> None),
      js_get_uint32 = (\<lambda>v. case v of Number n \<Rightarrow> Some n | _ \<Rightarrow> None), js_get_int64 = (\<lambda>_. None),
      js_get_double = (\<lambda>v. case v of Real x \<Rightarrow> Some x | _ \<Rightarrow> None), js_format_string = (\<lambda>s. s),
      js_format_side = side_name, js_format_number = (\<lambda>_. ''0'')\<rparr>"


end
