(* ===== verification/Controller.thy ===== *)
theory Controller
  imports Visits Config Control_Facts
begin

text \<open>
  The controller (\<^verbatim>\<open>controller.cpp\<close>): it owns the database session, the control manager, the shared
  state and one state per gateway (source), and has one handler per event of the client library.
  What it sends, risk limits to a gateway and messages to a web session, is collected as outputs.
  An exception that leaves a handler is its error. The parameters, the record \<open>env\<close>, are the roq
  functions, the database session, the JSON library, the exceptions of the web server, and the two
  cache classes of the roq library with their default values and update functions.
\<close>

section \<open>State\<close>

record source_state =
  st_session_id :: uuid
  st_seqno :: u64
  st_ready :: bool
  st_latch_by_account :: "string list"

definition default_state :: source_state where
  "default_state = \<lparr>st_session_id = 0, st_seqno = 0, st_ready = False, st_latch_by_account = []\<rparr>"

record ('cp, 'cf, 'db) controller =
  ctl_database :: 'db
  ctl_manager :: manager
  ctl_shared :: "('cp, 'cf) shared"
  ctl_last_exchange_time_utc :: nanoseconds
  ctl_state :: "source_state list"

record ('cp, 'cf, 'j, 'db) env =
  env_api :: roq_api
  env_session :: "'db database_session"
  env_json :: "'j json_api"
  env_upgrade_throws :: "request \<Rightarrow> bool"
  env_send_throws :: "u64 \<times> web_output \<Rightarrow> bool"
  env_new_position :: 'cp
  env_apply_position :: "position_update \<Rightarrow> 'cp \<Rightarrow> 'cp"
  env_new_funds :: 'cf
  env_apply_funds :: "funds_update \<Rightarrow> 'cf \<Rightarrow> 'cf"

datatype emitted = Send risk_limits u8 | Web u64 web_output

type_synonym ('cp, 'cf, 'db) handled = "error option \<times> emitted list \<times> ('cp, 'cf, 'db) controller"

text \<open>\<^verbatim>\<open>state_[source]\<close>; an index out of range is undefined.\<close>

definition state_at :: "u8 \<Rightarrow> ('cp, 'cf, 'db) controller \<Rightarrow> error + source_state" where
  "state_at source c =
     (if unat source < length (ctl_state c) then Inr (ctl_state c ! unat source)
      else Inl UndefinedBehaviour)"

definition put_state ::
    "u8 \<Rightarrow> source_state \<Rightarrow> ('cp, 'cf, 'db) controller \<Rightarrow> ('cp, 'cf, 'db) controller" where
  "put_state source state c = c\<lparr>ctl_state := (ctl_state c)[unat source := state]\<rparr>"

text \<open>A handler without outputs that leaves the state alone if it fails.\<close>

definition finish ::
    "('cp, 'cf, 'db) controller \<Rightarrow> error + ('cp, 'cf, 'db) controller \<Rightarrow> ('cp, 'cf, 'db) handled" where
  "finish c r = (case r of Inl e \<Rightarrow> (Some e, [], c) | Inr c' \<Rightarrow> (None, [], c'))"

section \<open>Construction\<close>

definition load_position ::
    "roq_api \<Rightarrow> db_position \<Rightarrow> nanoseconds \<times> ('cp, 'cf) shared \<Rightarrow> nanoseconds \<times> ('cp, 'cf) shared" where
  "load_position api position acc =
     (let (last_time, s) = acc;
          last_time = max last_time (dbp_exchange_time_utc position);
          s = (if dbp_user position \<noteq> []
               then snd (get_user (dbp_user position) (user_load (user_handler api) position) s) else s);
          s = (if dbp_account position \<noteq> []
               then snd (get_account (dbp_account position) (account_load (account_handler api) position) s)
               else s)
      in (last_time, s))"

definition load_positions ::
    "roq_api \<Rightarrow> 'db database_session \<Rightarrow> 'db \<Rightarrow> nanoseconds \<times> ('cp, 'cf) shared \<Rightarrow>
     error option \<times> nanoseconds \<times> ('cp, 'cf) shared" where
  "load_positions api ses db acc =
     (let (rows, err) = ses_positions ses db in (err, fold (load_position api) rows acc))"

text \<open>The database has been opened by the factory before.\<close>

definition controller_new ::
    "('cp, 'cf, 'j, 'db) env \<Rightarrow> config \<Rightarrow> string \<Rightarrow> nat \<Rightarrow> 'db \<Rightarrow> error + ('cp, 'cf, 'db) controller" where
  "controller_new env config control_url_prefix source_count db =
     (case load_positions (env_api env) (env_session env) db (0, shared_from_config config) of
        (Some e, _) \<Rightarrow> Inl e
      | (None, last_time, s) \<Rightarrow>
          Inr \<lparr>ctl_database = db, ctl_manager = manager_new control_url_prefix, ctl_shared = s,
               ctl_last_exchange_time_utc = last_time, ctl_state = replicate source_count default_state\<rparr>)"

section \<open>Publishing\<close>

definition risk_limit_of :: "position \<times> instrument \<Rightarrow> risk_limit" where
  "risk_limit_of call =
     (let (position, instrument) = call in
      \<lparr>rl_exchange = ins_exchange instrument,
       rl_symbol = ins_symbol instrument,
       rl_long_position = pos_long_position position,
       rl_short_position = pos_short_position position,
       rl_long_position_limit = long_position_limit position,
       rl_short_position_limit = short_position_limit position,
       rl_long_risk_exposure_limit = long_risk_exposure_limit position,
       rl_short_risk_exposure_limit = short_risk_exposure_limit position,
       rl_allow_netting = pos_allow_netting position\<rparr>)"

definition publish_account_limits ::
    "u8 \<Rightarrow> source_state \<Rightarrow> string \<Rightarrow> emitted list \<times> ('cp, 'cf) shared \<Rightarrow> emitted list \<times> ('cp, 'cf) shared" where
  "publish_account_limits source state name acc =
     (let (outs, s) = acc;
          (_, calls, s) = get_publish_by_account name s;
          risk_limits_buffer = map risk_limit_of calls
      in (if risk_limits_buffer \<noteq> [] then
            outs @ [Send \<lparr>rls_user = [], rls_strategy_id = 0, rls_account = name,
              rls_limits = risk_limits_buffer, rls_session_id = st_session_id state,
              rls_seqno = st_seqno state\<rparr> source]
          else outs, s))"

definition publish_accounts ::
    "u8 \<Rightarrow> source_state \<Rightarrow> ('cp, 'cf) shared \<Rightarrow> emitted list \<times> ('cp, 'cf) shared" where
  "publish_accounts source state s =
     fold (publish_account_limits source state) (map (grp_name \<circ> snd) (accounts s)) ([], s)"

definition publish_user_limits ::
    "u8 \<Rightarrow> source_state \<Rightarrow> string \<Rightarrow> emitted list \<times> ('cp, 'cf) shared \<Rightarrow> emitted list \<times> ('cp, 'cf) shared" where
  "publish_user_limits source state name acc =
     (let (outs, s) = acc;
          (_, calls, s) = get_publish_by_user name s;
          risk_limits_buffer = map risk_limit_of calls
      in (if risk_limits_buffer \<noteq> [] then
            outs @ [Send \<lparr>rls_user = name, rls_strategy_id = 0, rls_account = [],
              rls_limits = risk_limits_buffer, rls_session_id = st_session_id state,
              rls_seqno = st_seqno state\<rparr> source]
          else outs, s))"

definition publish_users ::
    "u8 \<Rightarrow> source_state \<Rightarrow> ('cp, 'cf) shared \<Rightarrow> emitted list \<times> ('cp, 'cf) shared" where
  "publish_users source state s =
     fold (publish_user_limits source state) (map (grp_name \<circ> snd) (users s)) ([], s)"

text \<open>One round of the loop over the sources; the index is cut to eight bits for the two calls.\<close>

definition publish_source ::
    "source_state list \<Rightarrow> nat \<Rightarrow> emitted list \<times> ('cp, 'cf) shared \<Rightarrow> emitted list \<times> ('cp, 'cf) shared" where
  "publish_source states source acc =
     (let (outs, s) = acc in
      if \<not> st_ready (states ! source) then (outs, s)
      else
        let source_8 = word_of_nat source :: u8;
            state = states ! unat source_8;
            (outs_1, s) = publish_accounts source_8 state s;
            (outs_2, s) = publish_users source_8 state s
        in (outs @ outs_1 @ outs_2, s))"

section \<open>Timer\<close>

text \<open>
  \<^verbatim>\<open>context_.drain()\<close> runs the events of the web server that have arrived, each with the time at which
  it is handled. One that the server cannot deliver, because its session is gone, is not delivered.
\<close>

fun drain ::
    "('cp, 'cf, 'j, 'db) env \<Rightarrow> (nanoseconds \<times> web_event) list \<Rightarrow> manager \<Rightarrow> 'db \<Rightarrow>
     error option \<times> emitted list \<times> manager \<times> 'db" where
  "drain env [] m db = (None, [], m, db)"
| "drain env ((now, e) # rest) m db =
     (if \<not> deliverable m e then drain env rest m db
      else
        (case web_event (env_json env) (env_session env) (env_upgrade_throws env) now e m db of
           (Inl err, m', db') \<Rightarrow> (Some err, [], m', db')
         | (Inr outs, m', db') \<Rightarrow>
             let (err, outs', m'', db'') = drain env rest m' db'
             in (err, map (\<lambda>(session_id, out). Web session_id out) outs @ outs', m'', db'')))"

definition controller_timer ::
    "('cp, 'cf, 'j, 'db) env \<Rightarrow> nanoseconds \<Rightarrow> (nanoseconds \<times> web_event) list \<Rightarrow>
     ('cp, 'cf, 'db) controller \<Rightarrow> ('cp, 'cf, 'db) handled" where
  "controller_timer env now events c =
     (let (err, outs, m, db) = drain env events (ctl_manager c) (ctl_database c) in
      case err of
        Some e \<Rightarrow> (Some e, outs, c\<lparr>ctl_manager := m, ctl_database := db\<rparr>)
      | None \<Rightarrow>
          let m = manager_timer now m;
              (outs', s) = fold (publish_source (ctl_state c)) [0..<length (ctl_state c)] ([], ctl_shared c)
          in (None, outs @ outs', c\<lparr>ctl_manager := m, ctl_database := db, ctl_shared := s\<rparr>))"

section \<open>Gateway events\<close>

definition controller_message_info ::
    "message_info \<Rightarrow> ('cp, 'cf, 'db) controller \<Rightarrow> error + ('cp, 'cf, 'db) controller" where
  "controller_message_info message_info c =
     bind_result (state_at (mi_source message_info) c) (\<lambda>state.
     Inr (put_state (mi_source message_info)
       (state\<lparr>st_session_id := mi_source_session_id message_info,
              st_seqno := mi_source_seqno message_info\<rparr>) c))"

definition controller_connected ::
    "('cp, 'cf, 'db) controller \<Rightarrow> ('cp, 'cf, 'db) handled" where
  "controller_connected c = (None, [], c)"

definition controller_disconnected ::
    "message_info \<Rightarrow> ('cp, 'cf, 'db) controller \<Rightarrow> ('cp, 'cf, 'db) handled" where
  "controller_disconnected message_info c =
     finish c (bind_result (state_at (mi_source message_info) c) (\<lambda>_.
       Inr (put_state (mi_source message_info) default_state c)))"

text \<open>The account of the event is only logged.\<close>

definition controller_download_begin ::
    "message_info \<Rightarrow> string \<Rightarrow> ('cp, 'cf, 'db) controller \<Rightarrow> ('cp, 'cf, 'db) handled" where
  "controller_download_begin message_info account c = finish c (controller_message_info message_info c)"

definition controller_download_end ::
    "message_info \<Rightarrow> string \<Rightarrow> ('cp, 'cf, 'db) controller \<Rightarrow> ('cp, 'cf, 'db) handled" where
  "controller_download_end message_info account c =
     finish c (bind_result (controller_message_info message_info c) (\<lambda>c.
       if account = [] then Inr c
       else
         bind_result (state_at (mi_source message_info) c) (\<lambda>state.
         let res = emplace account (st_latch_by_account state);
             c = put_state (mi_source message_info) (state\<lparr>st_latch_by_account := fst res\<rparr>) c
         in Inr (if snd res then c\<lparr>ctl_shared := publish_account account (ctl_shared c)\<rparr> else c))))"

definition controller_ready ::
    "message_info \<Rightarrow> ('cp, 'cf, 'db) controller \<Rightarrow> ('cp, 'cf, 'db) handled" where
  "controller_ready message_info c =
     finish c (bind_result (controller_message_info message_info c) (\<lambda>c.
       bind_result (state_at (mi_source message_info) c) (\<lambda>state.
       if st_ready state then Inr c
       else
         let c = put_state (mi_source message_info) (state\<lparr>st_ready := True\<rparr>) c
         in Inr (c\<lparr>ctl_shared :=
              get_all_users (\<lambda>user s. (user, publish_user (grp_name user) s)) (ctl_shared c)\<rparr>))))"

definition controller_reference_data ::
    "roq_api \<Rightarrow> reference_data \<Rightarrow> ('cp, 'cf, 'db) controller \<Rightarrow> ('cp, 'cf, 'db) handled" where
  "controller_reference_data api reference_data c =
     (let (instrument, s) =
            get_instrument api (rd_exchange reference_data) (rd_symbol reference_data) (ctl_shared c);
          (changed, instrument) = instrument_reference_data api reference_data instrument;
          s = s\<lparr>instruments := AList.update (ins_id instrument) instrument (instruments s)\<rparr>;
          s = (if changed then
                 get_all_users (user_reference_data (user_handler api) reference_data)
                   (get_all_accounts (account_reference_data (account_handler api) reference_data) s)
               else s)
      in (None, [], c\<lparr>ctl_shared := s\<rparr>))"

definition trade_of_fill :: "trade_update \<Rightarrow> fill \<Rightarrow> db_trade" where
  "trade_of_fill trade_update item =
     \<lparr>dbt_user = tu_user trade_update,
      dbt_strategy_id = tu_strategy_id trade_update,
      dbt_account = tu_account trade_update,
      dbt_exchange = tu_exchange trade_update,
      dbt_symbol = tu_symbol trade_update,
      dbt_side = tu_side trade_update,
      dbt_quantity = fill_quantity item,
      dbt_price = fill_price item,
      dbt_exchange_time_utc = tu_create_time_utc trade_update,
      dbt_external_account = tu_external_account trade_update,
      dbt_external_order_id = tu_external_order_id trade_update,
      dbt_external_trade_id = fill_external_trade_id item\<rparr>"

text \<open>
  The positions are updated first. The \<^verbatim>\<open>try\<close> block then sends every trade to the subscribers and
  inserts all of them at the end; an exception, from the web server or the database, is swallowed.
\<close>

definition controller_trade_update ::
    "('cp, 'cf, 'j, 'db) env \<Rightarrow> message_info \<Rightarrow> trade_update \<Rightarrow> ('cp, 'cf, 'db) controller \<Rightarrow>
     ('cp, 'cf, 'db) handled" where
  "controller_trade_update env message_info trade_update c =
     (case controller_message_info message_info c of
        Inl e \<Rightarrow> (Some e, [], c)
      | Inr c \<Rightarrow>
          if tu_create_time_utc trade_update \<le> ctl_last_exchange_time_utc c then (None, [], c)
          else
            let api = env_api env;
                s = snd (get_account (tu_account trade_update)
                      (account_trade_update api (account_handler api) trade_update) (ctl_shared c));
                s = snd (get_user (tu_user trade_update)
                      (user_trade_update api (user_handler api) trade_update) s);
                c = c\<lparr>ctl_shared := s\<rparr>;
                trades_buffer = map (trade_of_fill trade_update) (tu_fills trade_update);
                sent = concat (map (\<lambda>trade. manager_trade (env_json env) trade (ctl_manager c)) trades_buffer);
                delivered = takeWhile (\<lambda>out. \<not> env_send_throws env out) sent;
                outs = map (\<lambda>(session_id, out). Web session_id out) delivered
            in if delivered \<noteq> sent then (None, outs, c)
               else
                 let (err, db) = ses_insert_trades (env_session env) trades_buffer (ctl_database c);
                     c = c\<lparr>ctl_database := db\<rparr>
                 in (if err = Some UndefinedBehaviour \<or> err = Some FatalError then err else None, outs, c))"

text \<open>\<^verbatim>\<open>accounts_by_source[source][account]\<close>, created on first use.\<close>

definition update_cached_account ::
    "u8 \<Rightarrow> string \<Rightarrow> (('cp, 'cf) cached_account \<Rightarrow> ('cp, 'cf) cached_account) \<Rightarrow>
     ('cp, 'cf) shared \<Rightarrow> ('cp, 'cf) shared" where
  "update_cached_account source account f s =
     (let by_account = find_or [] (accounts_by_source s) source;
          cached = find_or \<lparr>ca_positions = [], ca_funds = []\<rparr> by_account account
      in s\<lparr>accounts_by_source :=
            AList.update source (AList.update account (f cached) by_account) (accounts_by_source s)\<rparr>)"

definition controller_position_update ::
    "('cp, 'cf, 'j, 'db) env \<Rightarrow> message_info \<Rightarrow> position_update \<Rightarrow> ('cp, 'cf, 'db) controller \<Rightarrow>
     ('cp, 'cf, 'db) handled" where
  "controller_position_update env message_info position_update c =
     (let f = (\<lambda>account.
            let symbols = find_or [] (ca_positions account) (pu_exchange position_update);
                position = find_or (env_new_position env) symbols (pu_symbol position_update)
            in account\<lparr>ca_positions :=
                 AList.update (pu_exchange position_update)
                   (AList.update (pu_symbol position_update)
                     (env_apply_position env position_update position) symbols)
                   (ca_positions account)\<rparr>)
      in (None, [],
          c\<lparr>ctl_shared :=
              update_cached_account (mi_source message_info) (pu_account position_update) f (ctl_shared c)\<rparr>))"

definition controller_funds_update ::
    "('cp, 'cf, 'j, 'db) env \<Rightarrow> nanoseconds \<Rightarrow> message_info \<Rightarrow> funds_update \<Rightarrow>
     ('cp, 'cf, 'db) controller \<Rightarrow> ('cp, 'cf, 'db) handled" where
  "controller_funds_update env now message_info funds_update c =
     (let funds =
            \<lparr>dbf_account = fu_account funds_update, dbf_currency = fu_currency funds_update,
             dbf_balance = fu_balance funds_update, dbf_hold = fu_hold funds_update,
             dbf_exchange_time_utc = fu_exchange_time_utc funds_update,
             dbf_external_account = fu_external_account funds_update\<rparr>;
          (err, db) = ses_insert_funds (env_session env) now [funds] (ctl_database c);
          c = c\<lparr>ctl_database := db\<rparr>;
          f = (\<lambda>account.
            account\<lparr>ca_funds :=
              AList.update (fu_currency funds_update)
                (env_apply_funds env funds_update
                  (find_or (env_new_funds env) (ca_funds account) (fu_currency funds_update)))
                (ca_funds account)\<rparr>)
      in case err of
           Some e \<Rightarrow> (Some e, [], c)
         | None \<Rightarrow>
             (None, [],
              c\<lparr>ctl_shared :=
                  update_cached_account (mi_source message_info) (fu_account funds_update) f (ctl_shared c)\<rparr>))"

section \<open>Runs\<close>

datatype event =
    Timer nanoseconds "(nanoseconds \<times> web_event) list"
  | Connected message_info
  | Disconnected message_info
  | DownloadBegin message_info string
  | DownloadEnd message_info string
  | Ready message_info
  | ReferenceData message_info reference_data
  | TradeUpdate message_info trade_update
  | PositionUpdate message_info position_update
  | FundsUpdate nanoseconds message_info funds_update

fun controller_event ::
    "('cp, 'cf, 'j, 'db) env \<Rightarrow> event \<Rightarrow> ('cp, 'cf, 'db) controller \<Rightarrow> ('cp, 'cf, 'db) handled" where
  "controller_event env (Timer now events) c = controller_timer env now events c"
| "controller_event env (Connected mi) c = controller_connected c"
| "controller_event env (Disconnected mi) c = controller_disconnected mi c"
| "controller_event env (DownloadBegin mi account) c = controller_download_begin mi account c"
| "controller_event env (DownloadEnd mi account) c = controller_download_end mi account c"
| "controller_event env (Ready mi) c = controller_ready mi c"
| "controller_event env (ReferenceData mi rd) c = controller_reference_data (env_api env) rd c"
| "controller_event env (TradeUpdate mi tu) c = controller_trade_update env mi tu c"
| "controller_event env (PositionUpdate mi pu) c = controller_position_update env mi pu c"
| "controller_event env (FundsUpdate now mi fu) c = controller_funds_update env now mi fu c"

text \<open>A run ends with the first error.\<close>

fun controller_run ::
    "('cp, 'cf, 'j, 'db) env \<Rightarrow> event list \<Rightarrow> ('cp, 'cf, 'db) controller \<Rightarrow> ('cp, 'cf, 'db) handled" where
  "controller_run env [] c = (None, [], c)"
| "controller_run env (e # es) c =
     (case controller_event env e c of
        (Some err, outs, c') \<Rightarrow> (Some err, outs, c')
      | (None, outs, c') \<Rightarrow>
          let (err, outs', c'') = controller_run env es c' in (err, outs @ outs', c''))"

end
