(* ===== verification/Controller_Shared.thy ===== *)
theory Controller_Shared
  imports Controller
begin

text \<open>
  What each handler of the controller does to the shared state: it keeps the invariant, registers at
  most one instrument, keeps the limits and the tracked names, and moves positions only by trade
  updates. The last section describes publishing: which messages go out and that the publish sets
  are empty afterwards.
\<close>

section \<open>Evolution of the shared state\<close>

definition evolves :: "nat \<Rightarrow> ('cp, 'cf) shared \<Rightarrow> ('cp, 'cf) shared \<Rightarrow> bool" where
  "evolves n s s' \<longleftrightarrow>
     shared_inv s' \<and> unat (next_instrument_id s') \<le> unat (next_instrument_id s) + n \<and>
     get_limit_by_account s' = get_limit_by_account s \<and> get_limit_by_user s' = get_limit_by_user s \<and>
     map fst (accounts s') = map fst (accounts s) \<and> map fst (users s') = map fst (users s)"

lemma evolves_refl [simp]: "shared_inv s \<Longrightarrow> evolves n s s"
  by (simp add: evolves_def)

lemma evolves_trans: "evolves n s t \<Longrightarrow> evolves m t u \<Longrightarrow> evolves (n + m) s u"
  by (simp add: evolves_def)

lemma evolvesD:
  assumes "evolves n s s'"
  shows "shared_inv s'" "unat (next_instrument_id s') \<le> unat (next_instrument_id s) + n"
    "get_limit_by_account s' = get_limit_by_account s" "get_limit_by_user s' = get_limit_by_user s"
    "map fst (accounts s') = map fst (accounts s)" "map fst (users s') = map fst (users s)"
  using assms by (simp_all add: evolves_def)

lemma room_below:
  assumes "unat (next_instrument_id s) < 2 ^ 32 - 1"
  shows "room s e y"
proof -
  have "unat (- 1 :: u32) = 2 ^ 32 - 1" by (simp add: unsigned_minus_1_eq_mask mask_eq_exp_minus_1)
  with assms have "next_instrument_id s \<noteq> - 1" by auto
  then show ?thesis by (simp add: room_def)
qed

lemma tracked_iff: "map fst m = map fst m' \<Longrightarrow> map_of m k = None \<longleftrightarrow> map_of m' k = None"
  by (metis map_of_eq_None_iff list.set_map)

text \<open>A change that leaves accounts, look-up and limits alone leaves the positions alone.\<close>

lemma account_position_cong:
  assumes "accounts s' = accounts s" "lookup_id s' = lookup_id s"
    "get_limit_by_account s' = get_limit_by_account s"
  shows "account_position s' = account_position s"
  using assms
  by (simp add: fun_eq_iff account_position_def position_at_def lookup_instrument_def split: option.split)

lemma user_position_cong:
  assumes "users s' = users s" "lookup_id s' = lookup_id s" "get_limit_by_user s' = get_limit_by_user s"
  shows "user_position s' = user_position s"
  using assms
  by (simp add: fun_eq_iff user_position_def position_at_def lookup_instrument_def split: option.split)

section \<open>Trade updates\<close>

definition apply_trade :: "roq_api \<Rightarrow> trade_update \<Rightarrow> ('cp, 'cf) shared \<Rightarrow> ('cp, 'cf) shared" where
  "apply_trade api tu s =
     snd (get_user (tu_user tu) (user_trade_update api (user_handler api) tu)
       (snd (get_account (tu_account tu) (account_trade_update api (account_handler api) tu) s)))"

lemma apply_trade_evolves:
  assumes "shared_inv s" "unat (next_instrument_id s) < 2 ^ 32 - 1"
  shows "evolves 1 s (apply_trade api tu s)"
proof -
  let ?s1 = "snd (get_account (tu_account tu) (account_trade_update api (account_handler api) tu) s)"
  note room = room_below [OF assms(2), of "tu_exchange tu" "tu_symbol tu"]
  note a = account_trade_update_shared [where k = "tu_account tu" and api = api, OF assms(1) room refl]
    and ae = account_trade_update_effect [where k = "tu_account tu" and api = api, OF assms(1) room refl]
  note u = user_trade_update_shared [where k = "tu_user tu" and api = api, OF a(1,2) refl]
    and ue = user_trade_update_effect [where k = "tu_user tu" and api = api, OF a(1,2) refl]
  have "grows api (tu_exchange tu) (tu_symbol tu) s (apply_trade api tu s)"
    unfolding apply_trade_def
    by (rule grows_trans [OF shared_inv_registry [OF assms(1)] room trade_update_grows])
  from grows_next(1) [OF shared_inv_registry [OF assms(1)] room this] u(1) ae ue show ?thesis
    by (simp add: evolves_def apply_trade_def)
qed

lemma apply_trade_position:
  assumes "shared_inv s" "unat (next_instrument_id s) < 2 ^ 32 - 1" "map_of (accounts s) k \<noteq> None"
  shows "\<exists>ins. account_position (apply_trade api tu s) k e y =
    (if (tu_account tu, tu_exchange tu, tu_symbol tu) = (k, e, y)
     then position_trade_update api tu ins (account_position s k e y) else account_position s k e y)"
proof -
  let ?s1 = "snd (get_account (tu_account tu) (account_trade_update api (account_handler api) tu) s)"
  note room = room_below [OF assms(2), of "tu_exchange tu" "tu_symbol tu"]
  note a = account_trade_update_shared [where k = "tu_account tu" and api = api, OF assms(1) room refl]
  have user: "account_position (apply_trade api tu s) = account_position ?s1"
    unfolding apply_trade_def by (rule user_trade_update_effect(1) [OF a(1,2) refl])
  show ?thesis
  proof (cases "map_of (accounts s) (tu_account tu)")
    case None
    then have "?s1 = s" by (simp add: get_account_def)
    with user None assms(3) show ?thesis by auto
  next
    case (Some g)
    obtain ins where
      1: "position_at accounts lookup_instrument ?s1 (tu_account tu) (tu_exchange tu) (tu_symbol tu) =
        Some (position_trade_update api tu ins (account_position s (tu_account tu) (tu_exchange tu) (tu_symbol tu)))"
      and 2: "\<forall>k' e' y'. (k', e', y') \<noteq> (tu_account tu, tu_exchange tu, tu_symbol tu) \<longrightarrow>
        account_position ?s1 k' e' y' = account_position s k' e' y'"
      by (rule account_trade_update_position [OF assms(1) room Some refl])
    show ?thesis
    proof (cases "(tu_account tu, tu_exchange tu, tu_symbol tu) = (k, e, y)")
      case True
      with 1 user show ?thesis by (intro exI [of _ ins]) (auto simp: account_position_def [of ?s1])
    next
      case False
      with 2 user show ?thesis by auto
    qed
  qed
qed

lemma apply_trade_user_position:
  assumes "shared_inv s" "unat (next_instrument_id s) < 2 ^ 32 - 1" "map_of (users s) k \<noteq> None"
  shows "\<exists>ins. user_position (apply_trade api tu s) k e y =
    (if (tu_user tu, tu_exchange tu, tu_symbol tu) = (k, e, y)
     then position_trade_update api tu ins (user_position s k e y) else user_position s k e y)"
proof -
  let ?s1 = "snd (get_account (tu_account tu) (account_trade_update api (account_handler api) tu) s)"
  note room = room_below [OF assms(2), of "tu_exchange tu" "tu_symbol tu"]
  note a = account_trade_update_shared [where k = "tu_account tu" and api = api, OF assms(1) room refl]
    and ae = account_trade_update_effect [where k = "tu_account tu" and api = api, OF assms(1) room refl]
  show ?thesis
  proof (cases "map_of (users s) (tu_user tu)")
    case None
    then have "apply_trade api tu s = ?s1" by (simp add: apply_trade_def get_user_def ae(2))
    with ae(1) None assms(3) show ?thesis by auto
  next
    case (Some g)
    then have g: "map_of (users ?s1) (tu_user tu) = Some g" by (simp add: ae(2))
    obtain ins where
      1: "position_at users lookup_instrument (apply_trade api tu s) (tu_user tu) (tu_exchange tu) (tu_symbol tu) =
        Some (position_trade_update api tu ins (user_position ?s1 (tu_user tu) (tu_exchange tu) (tu_symbol tu)))"
      and 2: "\<forall>k' e' y'. (k', e', y') \<noteq> (tu_user tu, tu_exchange tu, tu_symbol tu) \<longrightarrow>
        user_position (apply_trade api tu s) k' e' y' = user_position ?s1 k' e' y'"
      by (rule user_trade_update_position [OF a(1,2) g apply_trade_def])
    show ?thesis
    proof (cases "(tu_user tu, tu_exchange tu, tu_symbol tu) = (k, e, y)")
      case True
      with 1 ae(1) show ?thesis by (intro exI [of _ ins]) (auto simp: user_position_def [of "apply_trade api tu s"])
    next
      case False
      with 2 ae(1) show ?thesis by auto
    qed
  qed
qed

section \<open>Rows of the database\<close>

definition apply_row :: "roq_api \<Rightarrow> db_position \<Rightarrow> ('cp, 'cf) shared \<Rightarrow> ('cp, 'cf) shared" where
  "apply_row api row s = snd (load_position api row (0, s))"

lemma load_position_eq:
  "load_position api row (t, s) = (max t (dbp_exchange_time_utc row), apply_row api row s)"
  by (simp add: load_position_def apply_row_def Let_def)

lemma apply_row_evolves:
  assumes "shared_inv s" "unat (next_instrument_id s) < 2 ^ 32 - 1"
  shows "evolves 1 s (apply_row api row s)"
proof -
  let ?s1 = "if dbp_user row \<noteq> [] then snd (get_user (dbp_user row) (user_load (user_handler api) row) s) else s"
  let ?e = "dbp_exchange row" and ?y = "dbp_symbol row"
  note room = room_below [OF assms(2), of ?e ?y] and reg = shared_inv_registry [OF assms(1)]
  note u = user_load_shared [where k = "dbp_user row" and api = api, OF assms(1) room refl]
    and ue = user_load_effect [where k = "dbp_user row" and api = api, OF assms(1) room refl]
  have 1: "shared_inv ?s1" "room ?s1 ?e ?y" "grows api ?e ?y s ?s1"
    using u(1,2) assms(1) room load_grows(2) by auto
  note a = account_load_shared [where k = "dbp_account row" and api = api, OF 1(1,2) refl]
    and ae = account_load_effect [where k = "dbp_account row" and api = api, OF 1(1,2) refl]
  have eq: "apply_row api row s =
      (if dbp_account row \<noteq> [] then snd (get_account (dbp_account row) (account_load (account_handler api) row) ?s1)
       else ?s1)"
    by (simp add: apply_row_def load_position_def Let_def)
  have "grows api ?e ?y ?s1 (apply_row api row s)" unfolding eq using load_grows(1) by auto
  from grows_next(1) [OF reg room grows_trans [OF reg room 1(3) this]] have
    "unat (next_instrument_id (apply_row api row s)) \<le> unat (next_instrument_id s) + 1" .
  moreover have "shared_inv (apply_row api row s)" unfolding eq using a(1) 1(1) by auto
  moreover have "get_limit_by_account ?s1 = get_limit_by_account s" "get_limit_by_user ?s1 = get_limit_by_user s"
    "map fst (accounts ?s1) = map fst (accounts s)" "map fst (users ?s1) = map fst (users s)"
    using ue by auto
  ultimately show ?thesis using ae by (auto simp: evolves_def eq)
qed

lemma load_rows:
  assumes "shared_inv s" "unat (next_instrument_id s) + length rows < 2 ^ 32"
    and "fold (load_position api) rows (t, s) = (t', s')"
  shows "evolves (length rows) s s'" "\<forall>row \<in> set rows. dbp_exchange_time_utc row \<le> t'" "t \<le> t'"
proof -
  have "evolves (length rows) s s' \<and> (\<forall>row \<in> set rows. dbp_exchange_time_utc row \<le> t') \<and> t \<le> t'"
    using assms
  proof (induction rows arbitrary: t s)
    case (Cons row rows)
    have le: "unat (next_instrument_id s) < 2 ^ 32 - 1" using Cons.prems(2) by simp
    note ev = apply_row_evolves [OF Cons.prems(1) le, of api row]
    have "evolves (length rows) (apply_row api row s) s' \<and>
      (\<forall>row \<in> set rows. dbp_exchange_time_utc row \<le> t') \<and> max t (dbp_exchange_time_utc row) \<le> t'"
      using Cons.prems evolvesD(1,2) [OF ev] by (intro Cons.IH) (simp_all add: load_position_eq)
    then show ?case using evolves_trans [OF ev, of "length rows" s'] by simp
  qed simp
  then show "evolves (length rows) s s'" "\<forall>row \<in> set rows. dbp_exchange_time_utc row \<le> t'" "t \<le> t'"
    by blast+
qed

section \<open>Reference data\<close>

text \<open>Updating an instrument in place keeps its names, so the registry looks the same.\<close>

lemma shared_inv_update_instrument:
  assumes "shared_inv s" "map_of (instruments s) (ins_id ins) = Some ins"
    and "ins_id ins' = ins_id ins" "ins_exchange ins' = ins_exchange ins" "ins_symbol ins' = ins_symbol ins"
    and "s' = s\<lparr>instruments := AList.update (ins_id ins') ins' (instruments s)\<rparr>"
  shows "shared_inv s'" "known s' = known s" "lookup_id s' = lookup_id s"
proof -
  show k: "known s' = known s" using assms(2-6) by (auto simp: known_def fun_eq_iff)
  show l: "lookup_id s' = lookup_id s" by (simp add: assms(6) lookup_id_def fun_eq_iff)
  have "get_limit_by_account s' = get_limit_by_account s" "get_limit_by_user s' = get_limit_by_user s"
    "get_limit_by_strategy s' = get_limit_by_strategy s"
    by (simp_all add: assms(6) get_limit_by_account_def get_limit_by_user_def get_limit_by_strategy_def)
  moreover have "registry_inv s'"
  proof -
    note reg = shared_inv_registry [OF assms(1), unfolded registry_inv_def]
    have R: "i \<noteq> 0 \<and> ins_id x = i \<and> lookup_id s (ins_exchange x) (ins_symbol x) = i"
      if "map_of (instruments s) i = Some x" for i x
      using reg that by blast
    have "i \<noteq> 0 \<and> ins_id x = i \<and> lookup_id s (ins_exchange x) (ins_symbol x) = i"
      if x: "map_of (instruments s') i = Some x" for i x
    proof (cases "i = ins_id ins")
      case True
      with x have "x = ins'" by (simp add: assms(3,6))
      with R [OF assms(2)] True show ?thesis by (simp add: assms(3-5))
    next
      case False
      with x have "map_of (instruments s) i = Some x" by (simp add: assms(3,6))
      then show ?thesis by (rule R)
    qed
    moreover have "unique_keys (instruments s')" "next_instrument_id s' = next_instrument_id s"
      using reg by (simp_all add: assms(6))
    ultimately show ?thesis unfolding registry_inv_def k l using reg by simp
  qed
  ultimately show "shared_inv s'" using assms(1) k by (simp add: shared_inv_def assms(6))
qed

definition apply_reference_data :: "roq_api \<Rightarrow> reference_data \<Rightarrow> ('cp, 'cf) shared \<Rightarrow> ('cp, 'cf) shared" where
  "apply_reference_data api rd s =
     ctl_shared (snd (snd (controller_reference_data api rd
       \<lparr>ctl_database = (), ctl_manager = manager_new [], ctl_shared = s,
        ctl_last_exchange_time_utc = 0, ctl_state = []\<rparr>)))"

lemma controller_reference_data_eq:
  "controller_reference_data api rd c =
     (None, [], c\<lparr>ctl_shared := apply_reference_data api rd (ctl_shared c)\<rparr>)"
  by (simp add: controller_reference_data_def apply_reference_data_def Let_def split_beta)

lemma account_reference_data_effect:
  assumes "shared_inv s" "room s (rd_exchange rd) (rd_symbol rd)"
    and s': "s' = get_all_accounts (account_reference_data (account_handler api) rd) s"
  shows "account_position s' = account_position s" "users s' = users s"
    "get_limit_by_account s' = get_limit_by_account s" "get_limit_by_user s' = get_limit_by_user s"
    "map fst (accounts s') = map fst (accounts s)" "user_position s' = user_position s"
proof -
  let ?e = "rd_exchange rd" and ?y = "rd_symbol rd"
  show "account_position s' = account_position s"
    unfolding s' account_visits effective_account_position [where api = api, symmetric]
    by (intro ext account_positions.visit_all_effective assms(1,2) account_table.proper_callbackI(1))
      (simp add: position_reference_data_def)
  let ?step = "\<lambda>k s. snd (get_account k (account_reference_data (account_handler api) rd) s)"
  have "shared_inv (fold ?step ks s) \<and> users (fold ?step ks s) = users s \<and>
    get_limit_by_account (fold ?step ks s) = get_limit_by_account s \<and>
    get_limit_by_user (fold ?step ks s) = get_limit_by_user s \<and>
    map fst (accounts (fold ?step ks s)) = map fst (accounts s) \<and>
    user_position (fold ?step ks s) = user_position s" for ks
    using assms(1,2)
  proof (induction ks arbitrary: s)
    case (Cons k ks)
    note st = reference_data_step(1,2) [OF Cons.prems, where k = k and api = api]
    note fr = account_visit_frame [where callback = "\<lambda>_ _ s. s" and k = k and api = api and e = ?e and y = ?y
        and upd = "position_reference_data rd" and s = s, OF _ refl, folded account_visits(3)]
    have pos: "user_position (?step k s) = user_position s"
      unfolding account_visits
      by (rule account_visit_user_position [OF Cons.prems position_limit_reference_data _ refl]) simp
    have keys: "map fst (accounts (?step k s)) = map fst (accounts s)"
      unfolding account_visits
      by (rule account_table.visit_dispatch(5) [OF Cons.prems account_table.proper_callbackI(1)
            position_limit_reference_data refl])
    from Cons.IH [OF st] fr pos keys show ?case by simp
  qed simp
  then show "users s' = users s"
    "get_limit_by_account s' = get_limit_by_account s" "get_limit_by_user s' = get_limit_by_user s"
    "map fst (accounts s') = map fst (accounts s)" "user_position s' = user_position s"
    unfolding s' get_all_accounts_def by blast+
qed

lemma user_reference_data_effect:
  assumes "shared_inv s" "room s (rd_exchange rd) (rd_symbol rd)"
    and s': "s' = get_all_users (user_reference_data (user_handler api) rd) s"
  shows "account_position s' = account_position s" "accounts s' = accounts s"
    "get_limit_by_account s' = get_limit_by_account s" "get_limit_by_user s' = get_limit_by_user s"
    "map fst (users s') = map fst (users s)" "user_position s' = user_position s"
proof -
  let ?e = "rd_exchange rd" and ?y = "rd_symbol rd"
  show "user_position s' = user_position s"
    unfolding s' user_visits effective_user_position [where api = api, symmetric]
    by (intro ext user_positions.visit_all_effective assms(1,2) user_table.proper_callbackI(1))
      (simp add: position_reference_data_def)
  let ?step = "\<lambda>k s. snd (get_user k (user_reference_data (user_handler api) rd) s)"
  have "shared_inv (fold ?step ks s) \<and> account_position (fold ?step ks s) = account_position s \<and>
    accounts (fold ?step ks s) = accounts s \<and>
    get_limit_by_account (fold ?step ks s) = get_limit_by_account s \<and>
    get_limit_by_user (fold ?step ks s) = get_limit_by_user s \<and>
    map fst (users (fold ?step ks s)) = map fst (users s)" for ks
    using assms(1,2)
  proof (induction ks arbitrary: s)
    case (Cons k ks)
    note st = reference_data_step(3,4) [OF Cons.prems, where k = k and api = api]
    note fr = user_visit_frame [where callback = "\<lambda>_ _ s. s" and k = k and api = api and e = ?e and y = ?y
        and upd = "position_reference_data rd" and s = s, OF _ refl, folded user_visits(3)]
    have pos: "account_position (?step k s) = account_position s"
      unfolding user_visits
      by (rule user_visit_account_position [OF Cons.prems position_limit_reference_data _ refl]) simp
    have keys: "map fst (users (?step k s)) = map fst (users s)"
      unfolding user_visits
      by (rule user_table.visit_dispatch(5) [OF Cons.prems user_table.proper_callbackI(1)
            position_limit_reference_data refl])
    from Cons.IH [OF st] fr pos keys show ?case by simp
  qed simp
  then show "account_position s' = account_position s" "accounts s' = accounts s"
    "get_limit_by_account s' = get_limit_by_account s" "get_limit_by_user s' = get_limit_by_user s"
    "map fst (users s') = map fst (users s)"
    unfolding s' get_all_users_def by blast+
qed

text \<open>The instrument is found or created, updated in place, and both tables are visited.\<close>

lemma grows_known:
  assumes "registry_inv s" "lookup_id s e y \<noteq> 0" "grows api e y s t"
  shows "next_instrument_id t = next_instrument_id s"
proof -
  from get_instrument_known [OF assms(1,2), of api] have "snd (get_instrument api e y s) = s"
    by (metis snd_conv)
  with assms(3) have "registry_of t = registry_of s" by (auto simp: grows_def)
  then show ?thesis by (rule registry_of_cong(4))
qed

lemma visit_all_reference_data:
  assumes "shared_inv s" "lookup_id s (rd_exchange rd) (rd_symbol rd) \<noteq> 0"
    and "s' = get_all_users (user_reference_data (user_handler api) rd)
      (get_all_accounts (account_reference_data (account_handler api) rd) s)"
  shows "evolves 0 s s'" "account_position s' = account_position s" "user_position s' = user_position s"
proof -
  let ?e = "rd_exchange rd" and ?y = "rd_symbol rd"
  let ?s1 = "get_all_accounts (account_reference_data (account_handler api) rd) s"
  have room: "room s ?e ?y" using assms(2) by (simp add: room_def)
  note reg = shared_inv_registry [OF assms(1)]
  note a = account_reference_data_shared [OF assms(1) room refl, where api = api]
    and ae = account_reference_data_effect [OF assms(1) room refl, where api = api]
  note ue = user_reference_data_effect [OF a(1,2) assms(3)]
  have "grows api ?e ?y s s'"
    unfolding assms(3)
    by (rule grows_trans [OF reg room reference_data_grows(1) [OF assms(1) room] reference_data_grows(2) [OF a(1,2)]])
  from grows_known [OF reg assms(2) this] user_reference_data_shared(1) [OF a(1,2) assms(3)] ae ue
  show "evolves 0 s s'" "account_position s' = account_position s" "user_position s' = user_position s"
    by (simp_all add: evolves_def)
qed

lemma apply_reference_data_effect:
  assumes "shared_inv s" "unat (next_instrument_id s) < 2 ^ 32 - 1"
  shows "evolves 1 s (apply_reference_data api rd s)"
    "account_position (apply_reference_data api rd s) = account_position s"
    "user_position (apply_reference_data api rd s) = user_position s"
proof -
  let ?e = "rd_exchange rd" and ?y = "rd_symbol rd"
  note room = room_below [OF assms(2), of ?e ?y] and reg = shared_inv_registry [OF assms(1)]
  obtain ins s1 where get: "get_instrument api ?e ?y s = (ins, s1)" by fastforce
  define ins' where "ins' = snd (instrument_reference_data api rd ins)"
  define s2 where "s2 = s1\<lparr>instruments := AList.update (ins_id ins') ins' (instruments s1)\<rparr>"
  note r = get_instrument_registry [OF reg room get] and limits = get_limit_frame [OF get]
  have inv1: "shared_inv s1" by (rule shared_inv_get_instrument [OF assms(1) room get])
  have s2: "shared_inv s2" "known s2 = known s1" "lookup_id s2 = lookup_id s1"
    by (rule shared_inv_update_instrument [OF inv1 r(5) _ _ _ s2_def]; simp add: ins'_def)+
  have "accounts (snd (get_instrument api ?e ?y s)) = accounts s"
    "users (snd (get_instrument api ?e ?y s)) = users s"
    by simp_all
  then have tables: "accounts s2 = accounts s" "users s2 = users s" "next_instrument_id s2 = next_instrument_id s1"
    "get_limit_by_account s2 = get_limit_by_account s1" "get_limit_by_user s2 = get_limit_by_user s1"
    by (simp_all add: s2_def get get_limit_by_account_def get_limit_by_user_def)
  have "grows api ?e ?y s s1" by (simp add: grows_def get)
  from grows_next(1) [OF reg room this] have ev: "evolves 1 s s2"
    using s2(1) tables limits by (simp add: evolves_def)
  have "account_position s2 = account_position s"
    unfolding effective_account_position [where api = api, symmetric]
    by (intro ext account_positions.effective_mono assms(1) s2(1))
      (use r(3) tables limits in \<open>simp_all add: s2(2) handler_simps\<close>)
  moreover have "user_position s2 = user_position s"
    unfolding effective_user_position [where api = api, symmetric]
    by (intro ext user_positions.effective_mono assms(1) s2(1))
      (use r(3) tables limits in \<open>simp_all add: s2(2) handler_simps\<close>)
  ultimately have pos: "account_position s2 = account_position s" "user_position s2 = user_position s" .
  have "lookup_id s2 ?e ?y \<noteq> 0" using registry_instrument(1) [OF r(1,5)] r(4) by (simp add: s2(3))
  note visit = visit_all_reference_data [OF s2(1) this refl, where api = api]
  have "apply_reference_data api rd s = (if fst (instrument_reference_data api rd ins) then
      get_all_users (user_reference_data (user_handler api) rd)
        (get_all_accounts (account_reference_data (account_handler api) rd) s2) else s2)"
    by (simp add: apply_reference_data_def controller_reference_data_def get s2_def ins'_def Let_def split_beta)
  with ev pos visit evolves_trans [OF ev visit(1)]
  show "evolves 1 s (apply_reference_data api rd s)"
    "account_position (apply_reference_data api rd s) = account_position s"
    "user_position (apply_reference_data api rd s) = user_position s"
    by simp_all
qed

section \<open>Publishing\<close>

text \<open>The messages for one account or user, as a function of the state before publishing.\<close>

definition account_message ::
    "u8 \<Rightarrow> source_state \<Rightarrow> ('cp, 'cf) shared \<Rightarrow> string \<Rightarrow> emitted list" where
  "account_message source state s name =
     (let calls = pending_positions (accounts s) (instruments s) name (find_or [] (publish_by_account s) name) in
      if calls = [] then []
      else [Send \<lparr>rls_user = [], rls_strategy_id = 0, rls_account = name,
              rls_limits = map risk_limit_of calls, rls_session_id = st_session_id state,
              rls_seqno = st_seqno state\<rparr> source])"

definition user_message ::
    "u8 \<Rightarrow> source_state \<Rightarrow> ('cp, 'cf) shared \<Rightarrow> string \<Rightarrow> emitted list" where
  "user_message source state s name =
     (let calls = pending_positions (users s) (instruments s) name (find_or [] (publish_by_user s) name) in
      if calls = [] then []
      else [Send \<lparr>rls_user = name, rls_strategy_id = 0, rls_account = [],
              rls_limits = map risk_limit_of calls, rls_session_id = st_session_id state,
              rls_seqno = st_seqno state\<rparr> source])"

text \<open>\<open>m'\<close> is \<open>m\<close> with the sets of the given names emptied.\<close>

definition emptied :: "string list \<Rightarrow> (string, 'a list) hash_map \<Rightarrow> (string, 'a list) hash_map \<Rightarrow> bool" where
  "emptied names m m' \<longleftrightarrow> (\<forall>n. find_or [] m' n = (if n \<in> set names then [] else find_or [] m n))"

lemma emptied_Nil [simp]: "emptied [] m m"
  by (simp add: emptied_def)

lemma emptied_twice: "emptied ns m m1 \<Longrightarrow> emptied ns m1 m' \<Longrightarrow> emptied ns m m'"
  by (auto simp: emptied_def)

lemma emptied_Cons: "emptied [n] m m1 \<Longrightarrow> emptied ns m1 m' \<Longrightarrow> emptied (n # ns) m m'"
  by (auto simp: emptied_def)

lemma publish_account_limits_eq:
  "\<exists>m. publish_account_limits source state name (outs, s) =
     (outs @ account_message source state s name, s\<lparr>publish_by_account := m\<rparr>) \<and>
     emptied [name] (publish_by_account s) m"
proof (cases "map_of (publish_by_account s) name")
  case None
  then show ?thesis
    by (intro exI [of _ "publish_by_account s"])
      (auto simp: publish_account_limits_def get_publish_eq account_message_def find_or_def emptied_def Let_def)
next
  case (Some pending)
  then show ?thesis
    by (intro exI [of _ "AList.update name [] (publish_by_account s)"])
      (auto simp: publish_account_limits_def get_publish_eq account_message_def emptied_def Let_def)
qed

lemma publish_user_limits_eq:
  "\<exists>m. publish_user_limits source state name (outs, s) =
     (outs @ user_message source state s name, s\<lparr>publish_by_user := m\<rparr>) \<and>
     emptied [name] (publish_by_user s) m"
proof (cases "map_of (publish_by_user s) name")
  case None
  then show ?thesis
    by (intro exI [of _ "publish_by_user s"])
      (auto simp: publish_user_limits_def get_publish_eq user_message_def find_or_def emptied_def Let_def)
next
  case (Some pending)
  then show ?thesis
    by (intro exI [of _ "AList.update name [] (publish_by_user s)"])
      (auto simp: publish_user_limits_def get_publish_eq user_message_def emptied_def Let_def)
qed

text \<open>
  The contract of one round of a publishing loop: it appends the messages of one name, computed from
  the state before, and empties the set of that name. The whole loop then sends the messages of the
  state it started from.
\<close>

locale publisher =
  fixes step :: "string \<Rightarrow> emitted list \<times> 's \<Rightarrow> emitted list \<times> 's"
    and message :: "'s \<Rightarrow> string \<Rightarrow> emitted list"
    and pending :: "'s \<Rightarrow> (string, instrument_id list) hash_map"
    and put :: "(string, instrument_id list) hash_map \<Rightarrow> 's \<Rightarrow> 's"
    and inv :: "'s \<Rightarrow> bool"
  assumes step_eq: "\<exists>m. step n (outs, s) = (outs @ message s n, put m s) \<and> emptied [n] (pending s) m"
    and step_inv: "inv s \<Longrightarrow> inv (snd (step n (outs, s)))"
    and message_frame: "find_or [] m n = find_or [] (pending s) n \<Longrightarrow> message (put m s) n = message s n"
    and pending_put: "pending (put m s) = m"
    and put_put: "put m (put m' s) = put m s"
    and put_pending: "put (pending s) s = s"
    and message_Nil: "find_or [] (pending s) n = [] \<Longrightarrow> message s n = []"
begin

lemma publish_fold:
  assumes "distinct names" "inv s"
  shows "\<exists>m. fold step names (outs, s) = (outs @ concat (map (message s) names), put m s) \<and>
    emptied names (pending s) m \<and> inv (put m s)"
  using assms
proof (induction names arbitrary: outs s)
  case Nil
  then show ?case by (intro exI [of _ "pending s"]) (simp add: put_pending)
next
  case (Cons n names)
  obtain m1 where 1: "step n (outs, s) = (outs @ message s n, put m1 s)" "emptied [n] (pending s) m1"
    using step_eq by blast
  have inv1: "inv (put m1 s)" using step_inv [OF Cons.prems(2), of n outs] 1(1) by simp
  have "message (put m1 s) n' = message s n'" if "n' \<in> set names" for n'
    using that Cons.prems(1) 1(2) by (intro message_frame) (auto simp: emptied_def)
  then have same: "map (message (put m1 s)) names = map (message s) names" by simp
  obtain m where 2: "fold step names (outs @ message s n, put m1 s) =
      ((outs @ message s n) @ concat (map (message s) names), put m (put m1 s))"
      "emptied names m1 m" "inv (put m (put m1 s))"
    using Cons.IH [of "put m1 s" "outs @ message s n"] Cons.prems(1) inv1 unfolding same pending_put by auto
  show ?case
    using 1(1) 2 emptied_Cons [OF 1(2) 2(2)] by (intro exI [of _ m]) (simp add: put_put)
qed

lemma message_quiet: "emptied names m m' \<Longrightarrow> pending s = m' \<Longrightarrow> n \<in> set names \<Longrightarrow> message s n = []"
  by (intro message_Nil) (simp add: emptied_def)

end

interpretation account_publisher: publisher "publish_account_limits source state"
  "account_message source state" publish_by_account "\<lambda>m. publish_by_account_update (\<lambda>_. m)" shared_inv
  for source state
proof (unfold_locales, goal_cases)
  case 1 show ?case by (rule publish_account_limits_eq)
next
  case (2 s n outs)
  then show ?case
    using shared_inv_get_publish(1) [of s n] by (simp add: publish_account_limits_def split_beta Let_def)
qed (simp_all add: account_message_def)

interpretation user_publisher: publisher "publish_user_limits source state"
  "user_message source state" publish_by_user "\<lambda>m. publish_by_user_update (\<lambda>_. m)" shared_inv
  for source state
proof (unfold_locales, goal_cases)
  case 1 show ?case by (rule publish_user_limits_eq)
next
  case (2 s n outs)
  then show ?case
    using shared_inv_get_publish(2) [of s n] by (simp add: publish_user_limits_def split_beta Let_def)
qed (simp_all add: user_message_def)

text \<open>One source: the messages of all accounts, then those of all users.\<close>

lemma group_names:
  assumes "groups_ok knw lmt m"
  shows "map (grp_name \<circ> snd) m = map fst m" "distinct (map fst m)"
proof -
  have "grp_name g = k" if "(k, g) \<in> set m" for k g
    using assms that by (simp add: groups_ok_def unique_keys_map_of)
  then show "map (grp_name \<circ> snd) m = map fst m" by auto
  show "distinct (map fst m)" using assms by (simp add: groups_ok_def unique_keys_def)
qed

definition all_messages :: "u8 \<Rightarrow> source_state \<Rightarrow> ('cp, 'cf) shared \<Rightarrow> emitted list" where
  "all_messages source state s =
     concat (map (account_message source state s) (map fst (accounts s))) @
     concat (map (user_message source state s) (map fst (users s)))"

text \<open>\<open>s'\<close> is \<open>s\<close> with all publish sets emptied.\<close>

definition published :: "('cp, 'cf) shared \<Rightarrow> ('cp, 'cf) shared \<Rightarrow> bool" where
  "published s s' \<longleftrightarrow>
     (\<exists>m m'. s' = s\<lparr>publish_by_account := m, publish_by_user := m'\<rparr> \<and>
        emptied (map fst (accounts s)) (publish_by_account s) m \<and>
        emptied (map fst (users s)) (publish_by_user s) m' \<and> shared_inv s')"

lemma publish_source_ready:
  assumes "shared_inv s" "i < length states" "length states \<le> 256" "st_ready (states ! i)"
  obtains s' where "publish_source states i (outs, s) =
      (outs @ all_messages (word_of_nat i) (states ! i) s, s')" "published s s'"
proof -
  let ?src = "word_of_nat i :: u8" and ?st = "states ! i"
  have i: "unat ?src = i" using assms(2,3) by (simp add: unsigned_of_nat take_bit_nat_eq_self)
  note na = group_names [OF shared_invD(5) [OF assms(1)]] and nu = group_names [OF shared_invD(6) [OF assms(1)]]
  obtain m where 1: "publish_accounts ?src ?st s =
      (concat (map (account_message ?src ?st s) (map fst (accounts s))), s\<lparr>publish_by_account := m\<rparr>)"
    "emptied (map fst (accounts s)) (publish_by_account s) m" "shared_inv (s\<lparr>publish_by_account := m\<rparr>)"
    using account_publisher.publish_fold [OF na(2) assms(1), where outs = "[]" and source = ?src and state = ?st]
    unfolding publish_accounts_def na(1) by auto
  let ?s1 = "s\<lparr>publish_by_account := m\<rparr>"
  have msg: "user_message ?src ?st ?s1 = user_message ?src ?st s" by (simp add: user_message_def fun_eq_iff)
  have "users ?s1 = users s" by simp
  then obtain m' where 2: "publish_users ?src ?st ?s1 =
      (concat (map (user_message ?src ?st s) (map fst (users s))), ?s1\<lparr>publish_by_user := m'\<rparr>)"
    "emptied (map fst (users s)) (publish_by_user s) m'" "shared_inv (?s1\<lparr>publish_by_user := m'\<rparr>)"
    using user_publisher.publish_fold [OF nu(2) 1(3), where outs = "[]" and source = ?src and state = ?st]
    unfolding publish_users_def \<open>users ?s1 = users s\<close> nu(1) msg by auto
  show thesis
    using assms(4) 1 2
    by (intro that [of "?s1\<lparr>publish_by_user := m'\<rparr>"])
      (auto simp: publish_source_def i all_messages_def published_def Let_def)
qed

lemma published_twice:
  assumes "published s s'"
  shows "all_messages source state s' = []" "published s' s'' \<Longrightarrow> published s s''"
proof -
  obtain m m' where s': "s' = s\<lparr>publish_by_account := m, publish_by_user := m'\<rparr>"
    and e: "emptied (map fst (accounts s)) (publish_by_account s) m"
      "emptied (map fst (users s)) (publish_by_user s) m'"
    using assms by (auto simp: published_def)
  have "account_message source state s' n = []" if "n \<in> set (map fst (accounts s))" for n
    by (rule account_publisher.message_quiet [OF e(1) _ that]) (simp add: s')
  moreover have "user_message source state s' n = []" if "n \<in> set (map fst (users s))" for n
    by (rule user_publisher.message_quiet [OF e(2) _ that]) (simp add: s')
  ultimately show "all_messages source state s' = []" by (simp add: all_messages_def s')
  show "published s s''" if pub: "published s' s''"
  proof -
    obtain k k' where s'': "s'' = s\<lparr>publish_by_account := k, publish_by_user := k'\<rparr>"
      and k: "emptied (map fst (accounts s)) m k" "emptied (map fst (users s)) m' k'" "shared_inv s''"
      using pub unfolding published_def s' by auto
    with emptied_twice [OF e(1) k(1)] emptied_twice [OF e(2) k(2)] show ?thesis unfolding published_def by blast
  qed
qed

text \<open>
  The loop over the sources: the first ready source gets all messages, the following ones find the
  sets empty.
\<close>

definition ready_sources :: "source_state list \<Rightarrow> nat list \<Rightarrow> nat list" where
  "ready_sources states is = filter (\<lambda>i. st_ready (states ! i)) is"

lemma publish_sources:
  assumes "shared_inv s" "\<forall>i \<in> set is. i < length states" "length states \<le> 256"
    and "fold (publish_source states) is (outs, s) = (outs', s')"
  shows "case ready_sources states is of
      [] \<Rightarrow> outs' = outs \<and> s' = s
    | i # _ \<Rightarrow> outs' = outs @ all_messages (word_of_nat i) (states ! i) s \<and> published s s'"
  using assms
proof (induction "is" arbitrary: outs s)
  case Nil
  then show ?case by (simp add: ready_sources_def)
next
  case (Cons i "is")
  show ?case
  proof (cases "st_ready (states ! i)")
    case False
    then have "publish_source states i (outs, s) = (outs, s)" by (simp add: publish_source_def)
    with Cons False show ?thesis by (simp add: ready_sources_def)
  next
    case True
    obtain s1 where 1: "publish_source states i (outs, s) =
        (outs @ all_messages (word_of_nat i) (states ! i) s, s1)" "published s s1"
      by (rule publish_source_ready [OF Cons.prems(1) _ Cons.prems(3) True, of outs]) (use Cons.prems(2) in auto)
    have "case ready_sources states is of
      [] \<Rightarrow> outs' = outs @ all_messages (word_of_nat i) (states ! i) s \<and> s' = s1
    | j # _ \<Rightarrow> outs' = (outs @ all_messages (word_of_nat i) (states ! i) s) @
        all_messages (word_of_nat j) (states ! j) s1 \<and> published s1 s'"
      by (rule Cons.IH) (use Cons.prems 1 in \<open>auto simp: published_def\<close>)
    then have "outs' = outs @ all_messages (word_of_nat i) (states ! i) s \<and> published s s'"
      using 1(2) published_twice [OF 1(2)] by (auto split: list.splits)
    with True show ?thesis by (simp add: ready_sources_def)
  qed
qed

end
