(* ===== verification/Controller_Facts.thy ===== *)
theory Controller_Facts
  imports Controller_Shared
begin

text \<open>
  The properties of the controller over arbitrary runs of events: its invariant, the exact positions
  of accounts, and which trades are dropped.
\<close>

section \<open>The invariant\<close>

definition controller_inv :: "('cp, 'cf, 'db) controller \<Rightarrow> bool" where
  "controller_inv c \<longleftrightarrow>
     shared_inv (ctl_shared c) \<and> manager_inv (ctl_manager c) \<and> length (ctl_state c) \<le> 256"

lemma drain_inv:
  assumes "manager_inv m" "drain env es m db = (err, outs, m', db')"
  shows "manager_inv m'" "\<forall>out \<in> set outs. \<exists>k w. out = Web k w"
proof -
  have "manager_inv m' \<and> (\<forall>out \<in> set outs. \<exists>k w. out = Web k w)"
    using assms
  proof (induction es arbitrary: m db err outs)
    case (Cons x rest)
    obtain now e where x: "x = (now, e)" by fastforce
    obtain r m1 db1 where ev: "web_event (env_json env) (env_session env) (env_upgrade_throws env) now e m db =
        (r, m1, db1)" by (metis prod_cases3)
    obtain err2 outs2 m2 db2 where d: "drain env rest m1 db1 = (err2, outs2, m2, db2)" by (metis prod_cases4)
    show ?case
    proof (cases "deliverable m e")
      case True
      have inv1: "manager_inv m1" by (rule manager_inv_event [OF Cons.prems(1) True ev])
      show ?thesis using Cons.IH [OF inv1] Cons.prems(2) True x ev d inv1 by (auto split: sum.splits)
    qed (use Cons x in simp)
  qed simp
  then show "manager_inv m'" "\<forall>out \<in> set outs. \<exists>k w. out = Web k w" by blast+
qed

lemma update_same: "map_of m k = Some v \<Longrightarrow> AList.update k v m = m"
  by (induction m) auto

lemma publish_user_frame [simp]:
  "accounts (publish_user k s) = accounts s" "users (publish_user k s) = users s"
  "next_instrument_id (publish_user k s) = next_instrument_id s" "lookup_id (publish_user k s) = lookup_id s"
  "get_limit_by_account (publish_user k s) = get_limit_by_account s"
  "get_limit_by_user (publish_user k s) = get_limit_by_user s"
  by (simp_all add: publish_user_def lookup_id_def get_limit_by_account_def get_limit_by_user_def fun_eq_iff)

lemma publish_account_frame [simp]:
  "accounts (publish_account k s) = accounts s" "users (publish_account k s) = users s"
  "next_instrument_id (publish_account k s) = next_instrument_id s" "lookup_id (publish_account k s) = lookup_id s"
  "get_limit_by_account (publish_account k s) = get_limit_by_account s"
  "get_limit_by_user (publish_account k s) = get_limit_by_user s"
  by (simp_all add: publish_account_def lookup_id_def get_limit_by_account_def get_limit_by_user_def fun_eq_iff)

text \<open>Marking everything for all users.\<close>

lemma publish_all_users:
  assumes "shared_inv s" "s' = get_all_users (\<lambda>user s. (user, publish_user (grp_name user) s)) s"
  shows "evolves 0 s s'" "account_position s' = account_position s" "user_position s' = user_position s"
proof -
  let ?step = "\<lambda>name s. snd (get_user name (\<lambda>user s. (user, publish_user (grp_name user) s)) s)"
  have step: "?step name s = s \<or> (\<exists>n. ?step name s = publish_user n s)" for name and s :: "('a, 'b) shared"
  proof (cases "map_of (users s) name")
    case (Some u)
    have "(publish_user (grp_name u) s)\<lparr>users := users s\<rparr> = publish_user (grp_name u) s"
      by (simp add: publish_user_def)
    with Some have "?step name s = publish_user (grp_name u) s" by (simp add: get_user_def update_same)
    then show ?thesis by blast
  qed (simp add: get_user_def)
  have "evolves 0 s (fold ?step names s) \<and> account_position (fold ?step names s) = account_position s \<and>
    user_position (fold ?step names s) = user_position s" for names
    using assms(1)
  proof (induction names arbitrary: s)
    case (Cons name names)
    have 1: "evolves 0 s (?step name s)" "account_position (?step name s) = account_position s"
      "user_position (?step name s) = user_position s"
      using step [of name s] Cons.prems shared_inv_publish(2) [OF Cons.prems]
      by (auto simp: evolves_def intro: account_position_cong user_position_cong)
    with Cons.IH [OF evolvesD(1) [OF 1(1)]] show ?case using evolves_trans [OF 1(1)] by fastforce
  qed simp
  then show "evolves 0 s s'" "account_position s' = account_position s" "user_position s' = user_position s"
    unfolding assms(2) get_all_users_def by blast+
qed

text \<open>
  What an event does to the parts of the state: \<open>steps c c'\<close> collects the facts that hold for all of
  them.
\<close>

definition steps :: "('cp, 'cf, 'db) controller \<Rightarrow> ('cp, 'cf, 'db) controller \<Rightarrow> bool" where
  "steps c c' \<longleftrightarrow>
     evolves 1 (ctl_shared c) (ctl_shared c') \<and> manager_inv (ctl_manager c') \<and>
     length (ctl_state c') = length (ctl_state c) \<and>
     ctl_last_exchange_time_utc c' = ctl_last_exchange_time_utc c"

text \<open>The trade that an event brings, unless it is too old.\<close>

fun accepted :: "nanoseconds \<Rightarrow> event \<Rightarrow> trade_update option" where
  "accepted t (TradeUpdate mi tu) = (if t < tu_create_time_utc tu then Some tu else None)"
| "accepted t _ = None"

lemma evolves_le: "evolves 0 s s' \<Longrightarrow> evolves n s s'"
  by (simp add: evolves_def)

lemma message_info_frame:
  assumes "controller_message_info mi c = Inr c'"
  shows "ctl_shared c' = ctl_shared c" "ctl_manager c' = ctl_manager c" "ctl_database c' = ctl_database c"
    "ctl_last_exchange_time_utc c' = ctl_last_exchange_time_utc c"
    "length (ctl_state c') = length (ctl_state c)"
  using assms by (auto simp: controller_message_info_def bind_result_Inr_iff put_state_def)

lemma finish_cases:
  assumes "finish c r = (err, outs, c')"
  shows "c' = c \<or> r = Inr c'" "err = None \<Longrightarrow> r = Inr c'" "outs = []"
  using assms by (auto simp: finish_def split: sum.splits)

lemma timer_cases:
  assumes "controller_inv c" "controller_timer env now events c = (err, outs, c')"
  obtains (failed) e where "err = Some e" "ctl_shared c' = ctl_shared c" "manager_inv (ctl_manager c')"
      "\<forall>out \<in> set outs. \<exists>k w. out = Web k w" "ctl_state c' = ctl_state c"
      "ctl_last_exchange_time_utc c' = ctl_last_exchange_time_utc c"
  | (published) outs1 outs2 where "err = None" "outs = outs1 @ outs2" "\<forall>out \<in> set outs1. \<exists>k w. out = Web k w"
      "case ready_sources (ctl_state c) [0..<length (ctl_state c)] of
         [] \<Rightarrow> outs2 = [] \<and> ctl_shared c' = ctl_shared c
       | i # _ \<Rightarrow> outs2 = all_messages (word_of_nat i) (ctl_state c ! i) (ctl_shared c) \<and>
           published (ctl_shared c) (ctl_shared c')"
      "manager_inv (ctl_manager c')" "ctl_state c' = ctl_state c"
      "ctl_last_exchange_time_utc c' = ctl_last_exchange_time_utc c"
proof -
  obtain err1 outs1 m db where d: "drain env events (ctl_manager c) (ctl_database c) = (err1, outs1, m, db)"
    by (metis prod_cases4)
  obtain outs2 s where p: "fold (publish_source (ctl_state c)) [0..<length (ctl_state c)] ([], ctl_shared c) = (outs2, s)"
    by fastforce
  note inv = assms(1) [unfolded controller_inv_def]
  note di = drain_inv [OF conjunct1 [OF conjunct2 [OF inv]] d]
  show thesis
  proof (cases err1)
    case (Some e)
    with assms(2) d di show thesis by (intro failed [of e]) (auto simp: controller_timer_def)
  next
    case None
    have ps: "case ready_sources (ctl_state c) [0..<length (ctl_state c)] of
         [] \<Rightarrow> outs2 = [] \<and> s = ctl_shared c
       | i # _ \<Rightarrow> outs2 = [] @ all_messages (word_of_nat i) (ctl_state c ! i) (ctl_shared c) \<and> published (ctl_shared c) s"
      using inv by (intro publish_sources [OF _ _ _ p]) auto
    have "err = None" "outs = outs1 @ outs2"
      "c' = c\<lparr>ctl_manager := manager_timer now m, ctl_database := db, ctl_shared := s\<rparr>"
      using assms(2) d p None by (auto simp: controller_timer_def Let_def)
    with ps di show thesis
      by (intro published [of outs1 outs2]) (auto simp: manager_inv_timer split: list.splits)
  qed
qed

lemma published_evolves:
  assumes "published s s'"
  shows "evolves 0 s s'" "account_position s' = account_position s" "user_position s' = user_position s"
proof -
  obtain m m' where s': "s' = s\<lparr>publish_by_account := m, publish_by_user := m'\<rparr>" and inv: "shared_inv s'"
    using assms by (auto simp: published_def)
  show "evolves 0 s s'"
    using inv by (simp add: evolves_def s' get_limit_by_account_def get_limit_by_user_def)
  show "account_position s' = account_position s"
    by (rule account_position_cong) (simp_all add: s' lookup_id_def get_limit_by_account_def fun_eq_iff)
  show "user_position s' = user_position s"
    by (rule user_position_cong) (simp_all add: s' lookup_id_def get_limit_by_user_def fun_eq_iff)
qed

lemma cached_account_evolves:
  assumes "shared_inv s"
  shows "evolves 0 s (update_cached_account source account f s)"
    "account_position (update_cached_account source account f s) = account_position s"
    "user_position (update_cached_account source account f s) = user_position s"
proof -
  show "evolves 0 s (update_cached_account source account f s)"
    using shared_inv_update(7) [OF assms]
    by (simp add: evolves_def update_cached_account_def Let_def get_limit_by_account_def get_limit_by_user_def)
  show "account_position (update_cached_account source account f s) = account_position s"
    by (rule account_position_cong)
      (simp_all add: update_cached_account_def Let_def get_limit_by_account_def lookup_id_def fun_eq_iff)
  show "user_position (update_cached_account source account f s) = user_position s"
    by (rule user_position_cong)
      (simp_all add: update_cached_account_def Let_def get_limit_by_user_def lookup_id_def fun_eq_iff)
qed

text \<open>The handler of trade updates, by cases.\<close>

lemma trade_update_cases:
  assumes "controller_trade_update env mi tu c = (err, outs, c')"
  obtains (invalid) e where "controller_message_info mi c = Inl e" "err = Some e" "outs = []" "c' = c"
  | (old) "controller_message_info mi c = Inr c'" "tu_create_time_utc tu \<le> ctl_last_exchange_time_utc c"
      "err = None" "outs = []"
  | (applied) c1 where "controller_message_info mi c = Inr c1" "ctl_last_exchange_time_utc c < tu_create_time_utc tu"
      "ctl_shared c' = apply_trade (env_api env) tu (ctl_shared c)" "ctl_manager c' = ctl_manager c"
      "ctl_state c' = ctl_state c1" "ctl_last_exchange_time_utc c' = ctl_last_exchange_time_utc c"
proof (cases "controller_message_info mi c")
  case (Inl e)
  with assms show thesis by (intro invalid [of e]) (auto simp: controller_trade_update_def)
next
  case (Inr c1)
  note fr = message_info_frame [OF Inr]
  show thesis
  proof (cases "tu_create_time_utc tu \<le> ctl_last_exchange_time_utc c")
    case True
    with assms Inr fr show thesis by (intro old) (auto simp: controller_trade_update_def)
  next
    case False
    with assms Inr fr show thesis
      by (intro applied [of c1])
        (auto simp: controller_trade_update_def apply_trade_def Let_def split: if_splits prod.splits)
  qed
qed

text \<open>All events but the timer, by what they do to the shared state; the rest of the state they hardly touch.\<close>

fun timer_event :: "event \<Rightarrow> bool" where
  "timer_event (Timer now events) = True"
| "timer_event _ = False"

lemma event_frame:
  assumes "controller_event env ev c = (err, outs, c')" "\<not> timer_event ev"
  shows "ctl_manager c' = ctl_manager c \<and> ctl_last_exchange_time_utc c' = ctl_last_exchange_time_utc c \<and>
    length (ctl_state c') = length (ctl_state c)"
proof (cases ev)
  case (Timer now events)
  with assms(2) show ?thesis by simp
next
  case (TradeUpdate mi tu)
  with assms(1) have "controller_trade_update env mi tu c = (err, outs, c')" by simp
  then show ?thesis by (cases rule: trade_update_cases) (auto simp: message_info_frame)
next
  case (DownloadEnd mi account)
  with assms(1) show ?thesis
    unfolding DownloadEnd controller_event.simps controller_download_end_def
    by (auto dest!: finish_cases(1) simp: bind_result_Inr_iff Let_def put_state_def message_info_frame split: if_splits)
next
  case (Ready mi)
  with assms(1) show ?thesis
    unfolding Ready controller_event.simps controller_ready_def
    by (auto dest!: finish_cases(1) simp: bind_result_Inr_iff Let_def put_state_def message_info_frame split: if_splits)
qed (use assms in \<open>auto simp: controller_connected_def controller_disconnected_def controller_download_begin_def
    controller_reference_data_eq controller_position_update_def controller_funds_update_def put_state_def
    bind_result_Inr_iff Let_def message_info_frame dest!: finish_cases(1) split: prod.splits option.splits\<close>)

lemma event_shared_cases:
  assumes ev: "controller_event env ev c = (err, outs, c')" and "\<not> timer_event ev"
  obtains (same) "ctl_shared c' = ctl_shared c" "err = None \<Longrightarrow> accepted (ctl_last_exchange_time_utc c) ev = None"
  | (account) n where "ctl_shared c' = publish_account n (ctl_shared c)" "accepted (ctl_last_exchange_time_utc c) ev = None"
  | (users) "ctl_shared c' = get_all_users (\<lambda>user s. (user, publish_user (grp_name user) s)) (ctl_shared c)"
      "accepted (ctl_last_exchange_time_utc c) ev = None"
  | (reference) rd where "ctl_shared c' = apply_reference_data (env_api env) rd (ctl_shared c)"
      "accepted (ctl_last_exchange_time_utc c) ev = None"
  | (trade) tu where "ctl_shared c' = apply_trade (env_api env) tu (ctl_shared c)"
      "accepted (ctl_last_exchange_time_utc c) ev = Some tu"
  | (cached) source n f where "ctl_shared c' = update_cached_account source n f (ctl_shared c)"
      "accepted (ctl_last_exchange_time_utc c) ev = None"
proof (cases ev)
  case (Timer now events)
  with assms(2) show thesis by simp
next
  case (DownloadEnd mi n)
  have "ctl_shared c' = ctl_shared c \<or> ctl_shared c' = publish_account n (ctl_shared c)"
    using ev unfolding DownloadEnd controller_event.simps controller_download_end_def
    by (auto dest!: finish_cases(1) simp: bind_result_Inr_iff Let_def put_state_def message_info_frame split: if_splits)
  with DownloadEnd show thesis by (auto intro: same account)
next
  case (Ready mi)
  have "ctl_shared c' = ctl_shared c \<or> ctl_shared c' =
      get_all_users (\<lambda>user s. (user, publish_user (grp_name user) s)) (ctl_shared c)"
    using ev unfolding Ready controller_event.simps controller_ready_def
    by (auto dest!: finish_cases(1) simp: bind_result_Inr_iff Let_def put_state_def message_info_frame split: if_splits)
  with Ready show thesis by (auto intro: same users)
next
  case (ReferenceData mi rd)
  with ev show thesis by (intro reference [of rd]) (auto simp: controller_reference_data_eq)
next
  case (TradeUpdate mi tu)
  with ev have "controller_trade_update env mi tu c = (err, outs, c')" by simp
  then show thesis
    by (cases rule: trade_update_cases) (use TradeUpdate in \<open>auto simp: message_info_frame intro: same trade\<close>)
next
  case (PositionUpdate mi pu)
  with ev show thesis by (auto simp: controller_position_update_def Let_def intro: cached)
next
  case (FundsUpdate now mi fu)
  with ev show thesis by (auto simp: controller_funds_update_def Let_def split: prod.splits option.splits intro: same cached)
qed (use ev in \<open>auto simp: controller_connected_def controller_disconnected_def controller_download_begin_def
    put_state_def bind_result_Inr_iff message_info_frame dest!: finish_cases(1) intro: same\<close>)

lemma publish_account_effect:
  assumes "shared_inv s"
  shows "evolves 0 s (publish_account n s)" "account_position (publish_account n s) = account_position s"
    "user_position (publish_account n s) = user_position s"
  using shared_inv_publish(1) [OF assms]
  by (auto simp: evolves_def intro: account_position_cong user_position_cong)

lemma event_effect:
  assumes inv: "controller_inv c" and below: "unat (next_instrument_id (ctl_shared c)) < 2 ^ 32 - 1"
    and ev: "controller_event env e c = (err, outs, c')"
  shows "steps c c'"
    "err = None \<Longrightarrow> accepted (ctl_last_exchange_time_utc c) e = None \<Longrightarrow>
       account_position (ctl_shared c') = account_position (ctl_shared c)"
    "err = None \<Longrightarrow> accepted (ctl_last_exchange_time_utc c) e = Some tu \<Longrightarrow>
       ctl_shared c' = apply_trade (env_api env) tu (ctl_shared c)"
    "err = None \<Longrightarrow> accepted (ctl_last_exchange_time_utc c) e = None \<Longrightarrow>
       user_position (ctl_shared c') = user_position (ctl_shared c)"
proof -
  let ?t = "ctl_last_exchange_time_utc c" and ?s = "ctl_shared c" and ?s' = "ctl_shared c'"
  have s: "shared_inv ?s" and m: "manager_inv (ctl_manager c)" using inv by (simp_all add: controller_inv_def)
  have "steps c c' \<and> (err = None \<longrightarrow> (case accepted ?t e of
      None \<Rightarrow> account_position ?s' = account_position ?s \<and> user_position ?s' = user_position ?s
    | Some tu \<Rightarrow> ?s' = apply_trade (env_api env) tu ?s))"
  proof (cases "timer_event e")
    case True
    then obtain now events where e: "e = Timer now events" by (cases e) auto
    with ev have "controller_timer env now events c = (err, outs, c')" by simp
    from inv this show ?thesis
      by (cases rule: timer_cases)
        (use e s in \<open>auto simp: steps_def split: list.splits dest: published_evolves evolves_le\<close>)
  next
    case False
    note rest = event_frame [OF ev False] and pub = publish_account_effect [OF s]
      and all = publish_all_users [OF s refl] and ref = apply_reference_data_effect [OF s below]
      and cache = cached_account_evolves [OF s] and tr = apply_trade_evolves [OF s below]
    from ev False show ?thesis
      by (cases rule: event_shared_cases) (use rest s m pub all ref cache tr in \<open>auto simp: steps_def evolves_le\<close>)
  qed
  then show "steps c c'"
    "err = None \<Longrightarrow> accepted ?t e = None \<Longrightarrow> account_position ?s' = account_position ?s"
    "err = None \<Longrightarrow> accepted ?t e = Some tu \<Longrightarrow> ?s' = apply_trade (env_api env) tu ?s"
    "err = None \<Longrightarrow> accepted ?t e = None \<Longrightarrow> user_position ?s' = user_position ?s"
    by auto
qed

section \<open>Runs\<close>

lemma steps_inv: "controller_inv c \<Longrightarrow> steps c c' \<Longrightarrow> controller_inv c'"
  by (simp add: controller_inv_def steps_def evolves_def)

text \<open>
  An induction over a run: the invariant, the room in the registry and the tracked accounts are
  available at every event.
\<close>

lemma run_induct [consumes 3, case_names Nil Cons]:
  assumes "controller_inv c" "unat (next_instrument_id (ctl_shared c)) + length events < 2 ^ 32"
    and "controller_run env events c = (None, outs, c')"
    and nil: "\<And>c. controller_inv c \<Longrightarrow> P [] c [] c"
    and cons: "\<And>e es c outs1 c1 outs2 c'. controller_inv c \<Longrightarrow>
      unat (next_instrument_id (ctl_shared c)) < 2 ^ 32 - 1 \<Longrightarrow>
      controller_event env e c = (None, outs1, c1) \<Longrightarrow> steps c c1 \<Longrightarrow> controller_inv c1 \<Longrightarrow>
      controller_run env es c1 = (None, outs2, c') \<Longrightarrow> P es c1 outs2 c' \<Longrightarrow> P (e # es) c (outs1 @ outs2) c'"
  shows "P events c outs c'"
  using assms(1-3)
proof (induction events arbitrary: c outs)
  case Nil
  then show ?case using nil by simp
next
  case (Cons e es)
  obtain err1 outs1 c1 where ev: "controller_event env e c = (err1, outs1, c1)" by (metis prod_cases3)
  obtain err2 outs2 c2 where run: "controller_run env es c1 = (err2, outs2, c2)" by (metis prod_cases3)
  have "err1 = None" using Cons.prems(3) ev by (cases err1) auto
  with Cons.prems(3) ev run have eq: "err1 = None" "err2 = None" "outs = outs1 @ outs2" "c2 = c'" by auto
  have below: "unat (next_instrument_id (ctl_shared c)) < 2 ^ 32 - 1" using Cons.prems(2) by simp
  note st = event_effect(1) [OF Cons.prems(1) below ev]
  note inv1 = steps_inv [OF Cons.prems(1) st]
  have "unat (next_instrument_id (ctl_shared c1)) + length es < 2 ^ 32"
    using st Cons.prems(2) by (simp add: steps_def evolves_def)
  from Cons.IH [OF inv1 this] run eq have "P es c1 outs2 c'" by simp
  from cons [OF Cons.prems(1) below _ st inv1 _ this] ev run eq show ?case by simp
qed

lemma run_evolves:
  assumes "controller_inv c" "unat (next_instrument_id (ctl_shared c)) + length events < 2 ^ 32"
    and "controller_run env events c = (None, outs, c')"
  shows "controller_inv c'" "evolves (length events) (ctl_shared c) (ctl_shared c')"
    "ctl_last_exchange_time_utc c' = ctl_last_exchange_time_utc c" "length (ctl_state c') = length (ctl_state c)"
proof -
  from assms have "controller_inv c' \<and> evolves (length events) (ctl_shared c) (ctl_shared c') \<and>
    ctl_last_exchange_time_utc c' = ctl_last_exchange_time_utc c \<and> length (ctl_state c') = length (ctl_state c)"
  proof (induction rule: run_induct)
    case (Nil c)
    then show ?case by (simp add: controller_inv_def)
  next
    case (Cons e es c outs1 c1 outs2 c')
    then have "evolves 1 (ctl_shared c) (ctl_shared c1)" by (simp add: steps_def)
    from evolves_trans [OF this, of "length es" "ctl_shared c'"] Cons show ?case by (simp add: steps_def)
  qed
  then show "controller_inv c'" "evolves (length events) (ctl_shared c) (ctl_shared c')"
    "ctl_last_exchange_time_utc c' = ctl_last_exchange_time_utc c" "length (ctl_state c') = length (ctl_state c)"
    by blast+
qed

lemma controller_new_inv:
  fixes c :: "('cp, 'cf, 'db) controller"
  assumes "controller_new env config prefix n db = Inr c" "n \<le> 256"
    and "length (fst (ses_positions (env_session env) db)) < 2 ^ 32"
  shows "controller_inv c" "unat (next_instrument_id (ctl_shared c)) \<le> length (fst (ses_positions (env_session env) db))"
    "evolves (length (fst (ses_positions (env_session env) db))) (shared_from_config config) (ctl_shared c)"
    "\<forall>row \<in> set (fst (ses_positions (env_session env) db)). dbp_exchange_time_utc row \<le> ctl_last_exchange_time_utc c"
    "0 \<le> ctl_last_exchange_time_utc c"
proof -
  obtain rows err where q: "ses_positions (env_session env) db = (rows, err)" by fastforce
  obtain t s where l: "fold (load_position (env_api env)) rows
      (0, shared_from_config config :: ('cp, 'cf) shared) = (t, s)" by fastforce
  have c: "c = \<lparr>ctl_database = db, ctl_manager = manager_new prefix, ctl_shared = s,
      ctl_last_exchange_time_utc = t, ctl_state = replicate n default_state\<rparr>"
    using assms(1) q l by (auto simp: controller_new_def load_positions_def split: option.splits)
  have new: "shared_inv (shared_from_config config :: ('cp, 'cf) shared)"
    "next_instrument_id (shared_from_config config :: ('cp, 'cf) shared) = 0"
    by (simp_all add: shared_from_config_def shared_inv_new) (simp add: shared_new_def)
  note r = load_rows [OF new(1) _ l]
  have "evolves (length rows) (shared_from_config config) s" "\<forall>row \<in> set rows. dbp_exchange_time_utc row \<le> t" "0 \<le> t"
    using r assms(3) by (simp_all add: new(2) q)
  with assms(2) new(2) show "controller_inv c"
    "unat (next_instrument_id (ctl_shared c)) \<le> length (fst (ses_positions (env_session env) db))"
    "evolves (length (fst (ses_positions (env_session env) db))) (shared_from_config config) (ctl_shared c)"
    "\<forall>row \<in> set (fst (ses_positions (env_session env) db)). dbp_exchange_time_utc row \<le> ctl_last_exchange_time_utc c"
    "0 \<le> ctl_last_exchange_time_utc c"
    by (simp_all add: c q controller_inv_def manager_inv_new evolves_def)
qed

definition sample_env :: "'db database_session \<Rightarrow> (unit, unit, string, 'db) env" where
  "sample_env ses =
     \<lparr>env_api = sample_api, env_session = ses, env_json = sample_json, env_upgrade_throws = (\<lambda>_. False),
      env_send_throws = (\<lambda>_. False), env_new_position = (), env_apply_position = (\<lambda>_ _. ()),
      env_new_funds = (), env_apply_funds = (\<lambda>_ _. ())\<rparr>"

definition sample_mi :: message_info where
  "sample_mi = \<lparr>mi_source = 0, mi_source_session_id = 7, mi_source_seqno = 3\<rparr>"

definition sample_controller :: "(unit, unit, unit) controller" where
  "sample_controller =
     \<lparr>ctl_database = (), ctl_manager = manager_new [], ctl_shared = shared_from_config sample_config_file,
      ctl_last_exchange_time_utc = 0, ctl_state = [default_state]\<rparr>"

lemma sample_controller_new:
  "controller_new (sample_env sample_session) sample_config_file [] 1 () = Inr sample_controller"
  by (simp add: controller_new_def load_positions_def sample_env_def sample_session_def sample_controller_def)

lemma sample_rows [simp]: "fst (ses_positions (env_session (sample_env sample_session)) ()) = []"
  by (simp add: sample_env_def sample_session_def)

lemma sample_trade_runs:
  assumes "length (ctl_state c) = 1"
  shows "fst (controller_event (sample_env sample_session) (TradeUpdate sample_mi tu) c) = None"
  using assms
  by (auto simp: controller_trade_update_def controller_message_info_def sample_mi_def state_at_def
      sample_env_def sample_session_def Let_def)

lemma sample_run:
  assumes "controller_inv c" "unat (next_instrument_id (ctl_shared c)) + length tus < 2 ^ 32"
    and "length (ctl_state c) = 1"
  obtains outs c' where "controller_run (sample_env sample_session) (map (TradeUpdate sample_mi) tus) c = (None, outs, c')"
proof -
  have "\<exists>outs c'. controller_run (sample_env sample_session) (map (TradeUpdate sample_mi) tus) c = (None, outs, c')"
    using assms
  proof (induction tus arbitrary: c)
    case (Cons tu tus)
    obtain outs c1 where ev: "controller_event (sample_env sample_session) (TradeUpdate sample_mi tu) c = (None, outs, c1)"
      using sample_trade_runs [OF Cons.prems(3), of tu] by (metis fst_conv prod.collapse)
    have st: "steps c c1" using Cons.prems by (intro event_effect(1) [OF _ _ ev]) simp_all
    then have "controller_inv c1" "unat (next_instrument_id (ctl_shared c1)) + length tus < 2 ^ 32"
      "length (ctl_state c1) = 1"
      using Cons.prems steps_inv [OF Cons.prems(1) st] by (auto simp: steps_def evolves_def)
    from Cons.IH [OF this] ev show ?case by auto
  qed simp
  then show thesis using that by blast
qed

text \<open>
  C2: The invariant of the whole program: after construction and any run of fewer than $2^{32}$ events,
  counting the rows loaded at start-up, the shared state and the control manager are consistent, and
  neither the limits in force, nor the tracked accounts and users, nor the number of sources have
  changed.
\<close>

theorem controller_invariant:
  fixes c :: "('cp, 'cf, 'db) controller" and s0 :: "('cp, 'cf) shared"
  assumes "controller_new env config prefix n db = Inr c" "n \<le> 256"
    and "length (fst (ses_positions (env_session env) db)) + length events < 2 ^ 32"
    and "controller_run env events c = (None, outs, c')"
    and "s = ctl_shared c'" "s0 = shared_from_config config"
  shows "shared_inv s \<and> manager_inv (ctl_manager c') \<and> length (ctl_state c') = n \<and>
    get_limit_by_account s = get_limit_by_account s0 \<and> get_limit_by_user s = get_limit_by_user s0 \<and>
    map fst (accounts s) = map fst (accounts s0) \<and> map fst (users s) = map fst (users s0)"
proof -
  note new = controller_new_inv [OF assms(1,2)]
  have c: "controller_inv c" "unat (next_instrument_id (ctl_shared c)) + length events < 2 ^ 32"
    "evolves (length (fst (ses_positions (env_session env) db))) (shared_from_config config) (ctl_shared c)"
    using new(1-3) assms(3) by simp_all
  note run = run_evolves [OF c(1,2) assms(4)]
  have "length (ctl_state c) = n"
    using assms(1) by (auto simp: controller_new_def split: prod.splits option.splits)
  then show ?thesis
    using run evolves_trans [OF c(3) run(2)] by (simp add: controller_inv_def evolves_def assms(5,6))
qed

lemma sample_controller_inv: "controller_inv sample_controller" "next_instrument_id (ctl_shared sample_controller) = 0"
  by (simp_all add: sample_controller_def controller_inv_def manager_inv_new shared_from_config_def shared_inv_new)
    (simp add: shared_new_def)

theorem controller_invariant_witness:
  "\<exists>outs c'. controller_run (sample_env sample_session)
       (map (TradeUpdate sample_mi) [sample_trade BUY ''t1'' 5 10]) sample_controller = (None, outs, c') \<and>
     shared_inv (ctl_shared c')"
proof -
  let ?tus = "[sample_trade BUY ''t1'' 5 10]"
  have *: "unat (next_instrument_id (ctl_shared sample_controller)) + length ?tus < 2 ^ 32"
    "length (ctl_state sample_controller) = 1"
    by (simp_all add: sample_controller_inv) (simp add: sample_controller_def)
  obtain outs c' where run: "controller_run (sample_env sample_session) (map (TradeUpdate sample_mi) ?tus)
      sample_controller = (None, outs, c')"
    by (rule sample_run [OF sample_controller_inv(1) *])
  from controller_invariant [OF sample_controller_new _ _ run refl refl] run show ?thesis by auto
qed

section \<open>Old trades\<close>

text \<open>
  C14: Trades that the database has already counted are not counted again: an update that is not newer
  than some position row loaded at start-up changes neither positions nor publish sets, reaches
  neither the subscribers nor the database, however long the program has been running.
\<close>

theorem old_trade_dropped:
  assumes "controller_new env config prefix n db = Inr c" "n \<le> 256"
    and "length (fst (ses_positions (env_session env) db)) + length events < 2 ^ 32"
    and "controller_run env events c = (None, outs, c1)"
    and "row \<in> set (fst (ses_positions (env_session env) db))" "tu_create_time_utc tu \<le> dbp_exchange_time_utc row"
    and "controller_event env (TradeUpdate mi tu) c1 = (err, outs', c2)"
  shows "outs' = [] \<and> ctl_shared c2 = ctl_shared c1 \<and> ctl_database c2 = ctl_database c1 \<and>
    ctl_manager c2 = ctl_manager c1"
proof -
  note new = controller_new_inv [OF assms(1,2)]
  have c: "controller_inv c" "unat (next_instrument_id (ctl_shared c)) + length events < 2 ^ 32"
    "dbp_exchange_time_utc row \<le> ctl_last_exchange_time_utc c"
    using new(1,2,4) assms(3,5) by simp_all
  have old: "tu_create_time_utc tu \<le> ctl_last_exchange_time_utc c1"
    using run_evolves(3) [OF c(1,2) assms(4)] c(3) assms(6) by simp
  have "controller_trade_update env mi tu c1 = (err, outs', c2)" using assms(7) by simp
  then show ?thesis
    by (cases rule: trade_update_cases) (use old in \<open>auto dest: message_info_frame\<close>)
qed

definition sample_row :: db_position where
  "sample_row =
     \<lparr>dbp_user = [], dbp_strategy_id = 0, dbp_account = ''A1'', dbp_exchange = ''deribit'',
      dbp_symbol = ''BTC-PERPETUAL'', dbp_long_quantity = grid one_exp 3, dbp_short_quantity = zero_double,
      dbp_exchange_time_utc = 5\<rparr>"

definition sample_restart :: "(unit, unit, string, unit) env" where
  "sample_restart = sample_env (sample_session\<lparr>ses_positions := \<lambda>_. ([sample_row], None)\<rparr>)"

theorem old_trade_dropped_witness:
  "\<exists>c. controller_new sample_restart sample_config_file [] 1 () = Inr c \<and>
     ctl_shared (snd (snd (controller_event sample_restart (TradeUpdate sample_mi (sample_trade BUY ''t1'' 5 4)) c))) =
     ctl_shared c"
proof -
  let ?ev = "controller_event sample_restart (TradeUpdate sample_mi (sample_trade BUY ''t1'' 5 4))"
  have rows: "ses_positions (env_session sample_restart) () = ([sample_row], None)"
    by (simp add: sample_restart_def sample_env_def)
  then obtain c where c: "controller_new sample_restart sample_config_file [] 1 () = Inr c"
    by (simp add: controller_new_def load_positions_def split_beta)
  have run: "controller_run sample_restart [] c = (None, [], c)" by simp
  have old: "tu_create_time_utc (sample_trade BUY ''t1'' 5 4) \<le> dbp_exchange_time_utc sample_row"
    by (simp add: sample_trade_def sample_row_def)
  obtain err outs c2 where ev: "?ev c = (err, outs, c2)" by (metis prod_cases3)
  have "ctl_shared c2 = ctl_shared c" using old_trade_dropped [OF c _ _ run _ old ev] by (simp add: rows)
  with c ev show ?thesis by auto
qed

section \<open>Exact positions\<close>

text \<open>The accepted trade updates of one account or user, as \<open>name_of\<close> says, in one instrument.\<close>

definition trades_for ::
    "(trade_update \<Rightarrow> string) \<Rightarrow> nanoseconds \<Rightarrow> string \<Rightarrow> string \<Rightarrow> string \<Rightarrow> event list \<Rightarrow> trade_update list" where
  "trades_for name_of t k e y events =
     filter (\<lambda>tu. (name_of tu, tu_exchange tu, tu_symbol tu) = (k, e, y)) (List.map_filter (accepted t) events)"

lemma trades_for_Cons:
  "trades_for name_of t k e y (ev # events) =
     (case accepted t ev of
        None \<Rightarrow> trades_for name_of t k e y events
      | Some tu \<Rightarrow>
          if (name_of tu, tu_exchange tu, tu_symbol tu) = (k, e, y) then tu # trades_for name_of t k e y events
          else trades_for name_of t k e y events)"
  by (simp add: trades_for_def List.map_filter_simps split: option.split)

lemma trades_for_append:
  "trades_for name_of t k e y (xs @ ys) = trades_for name_of t k e y xs @ trades_for name_of t k e y ys"
  by (simp add: trades_for_def List.map_filter_def)

text \<open>
  The positions of a table over a run: the table keeps its names, an accepted trade update moves the
  position of the name it carries in the traded instrument, and no other event moves a position. Both
  tables of the controller are like this, so whatever trade updates keep is kept by a run.
\<close>

locale tracked_positions =
  fixes env :: "('cp, 'cf, 'j, 'db) env"
    and groups :: "('cp, 'cf) shared \<Rightarrow> (string, string group) hash_map"
    and position_of :: "('cp, 'cf) shared \<Rightarrow> string \<Rightarrow> string \<Rightarrow> string \<Rightarrow> position"
    and name_of :: "trade_update \<Rightarrow> string"
  assumes names_stay: "evolves n s s' \<Longrightarrow> map fst (groups s') = map fst (groups s)"
    and trade_moves:
      "shared_inv s \<Longrightarrow> unat (next_instrument_id s) < 2 ^ 32 - 1 \<Longrightarrow> map_of (groups s) k \<noteq> None \<Longrightarrow>
         \<exists>ins. position_of (apply_trade (env_api env) tu s) k e y =
           (if (name_of tu, tu_exchange tu, tu_symbol tu) = (k, e, y)
            then position_trade_update (env_api env) tu ins (position_of s k e y) else position_of s k e y)"
    and event_stays:
      "controller_inv c \<Longrightarrow> unat (next_instrument_id (ctl_shared c)) < 2 ^ 32 - 1 \<Longrightarrow>
         controller_event env ev c = (None, outs, c') \<Longrightarrow> accepted (ctl_last_exchange_time_utc c) ev = None \<Longrightarrow>
         position_of (ctl_shared c') = position_of (ctl_shared c)"
begin

lemma tracked_stays: "steps c c1 \<Longrightarrow> map_of (groups (ctl_shared c)) k \<noteq> None \<Longrightarrow> map_of (groups (ctl_shared c1)) k \<noteq> None"
  using tracked_iff [OF names_stay, of 1 "ctl_shared c" "ctl_shared c1" k] by (simp add: steps_def)

lemma event_on_ledger:
  assumes "controller_inv c" "unat (next_instrument_id (ctl_shared c)) < 2 ^ 32 - 1"
    and "controller_event env ev c = (None, outs, c')"
    and "sign_law (env_api env)" "j \<le> 2044" "map_of (groups (ctl_shared c)) k \<noteq> None"
    and "on_ledger j (position_of (ctl_shared c) k e y) seen net"
    and "tus = trades_for name_of (ctl_last_exchange_time_utc c) k e y [ev]"
    and "on_grid j lots tus" "\<bar>net\<bar> + gross (ledger lots tus) \<le> 2 ^ 53"
  shows "on_ledger j (position_of (ctl_shared c') k e y) (map fst (rev (ledger lots tus)) @ seen)
    (net + count_once seen (ledger lots tus))"
proof (cases "accepted (ctl_last_exchange_time_utc c) ev")
  case None
  then have "tus = []" by (simp add: assms(8) trades_for_def List.map_filter_simps)
  with assms(7) event_stays [OF assms(1-3) None] show ?thesis by (simp add: ledger_def)
next
  case (Some tu)
  let ?p = "position_of (ctl_shared c) k e y"
  have inv: "shared_inv (ctl_shared c)" using assms(1) by (simp add: controller_inv_def)
  obtain ins where pos: "position_of (ctl_shared c') k e y =
      (if (name_of tu, tu_exchange tu, tu_symbol tu) = (k, e, y)
       then position_trade_update (env_api env) tu ins ?p else ?p)"
    using trade_moves [OF inv assms(2,6), of tu e y] event_effect(3) [OF assms(1-3) refl Some] by auto
  show ?thesis
  proof (cases "(name_of tu, tu_exchange tu, tu_symbol tu) = (k, e, y)")
    case False
    have "tus = []" unfolding assms(8) trades_for_Cons Some option.case if_not_P [OF False]
      by (simp add: trades_for_def List.map_filter_simps)
    moreover have "position_of (ctl_shared c') k e y = ?p" using pos unfolding if_not_P [OF False] .
    ultimately show ?thesis using assms(7) by (simp add: ledger_def)
  next
    case True
    have tus: "tus = [tu]" unfolding assms(8) trades_for_Cons Some option.case if_P [OF True]
      by (simp add: trades_for_def List.map_filter_simps)
    have "on_ledger j (run (\<lambda>tu. position_trade_update (env_api env) tu ins) [tu] ?p)
        (map fst (rev (ledger lots [tu])) @ seen) (net + count_once seen (ledger lots [tu]))"
      by (intro on_ledger_run assms(4,5,7)) (use assms(9,10) tus in simp_all)
    with pos True tus show ?thesis by simp
  qed
qed

lemma run_on_ledger:
  assumes "controller_inv c" "unat (next_instrument_id (ctl_shared c)) + length events < 2 ^ 32"
    and "controller_run env events c = (None, outs, c')"
    and "sign_law (env_api env)" "j \<le> 2044" "map_of (groups (ctl_shared c)) k \<noteq> None"
    and "on_ledger j (position_of (ctl_shared c) k e y) seen net"
    and "on_grid j lots (trades_for name_of (ctl_last_exchange_time_utc c) k e y events)"
    and "\<bar>net\<bar> + gross (ledger lots (trades_for name_of (ctl_last_exchange_time_utc c) k e y events)) \<le> 2 ^ 53"
  shows "\<exists>seen'. on_ledger j (position_of (ctl_shared c') k e y) seen'
    (net + count_once seen (ledger lots (trades_for name_of (ctl_last_exchange_time_utc c) k e y events)))"
  using assms(1-3,6-)
proof (induction arbitrary: seen net rule: run_induct)
  case (Nil c)
  then show ?case by (auto simp: trades_for_def List.map_filter_simps ledger_def)
next
  case (Cons ev es c outs1 c1 outs2 c')
  let ?t = "ctl_last_exchange_time_utc c"
  let ?fs = "ledger lots (trades_for name_of ?t k e y [ev])" and ?rest = "ledger lots (trades_for name_of ?t k e y es)"
  have t1: "ctl_last_exchange_time_utc c1 = ?t" using Cons(4) by (simp add: steps_def)
  have split: "trades_for name_of ?t k e y (ev # es) = trades_for name_of ?t k e y [ev] @ trades_for name_of ?t k e y es"
    using trades_for_append [of name_of ?t k e y "[ev]" es] by simp
  have both: "ledger lots (trades_for name_of ?t k e y (ev # es)) = ?fs @ ?rest" by (simp add: split ledger_def)
  have grid: "on_grid j lots (trades_for name_of ?t k e y [ev])" "on_grid j lots (trades_for name_of ?t k e y es)"
    using Cons(10) unfolding split on_grid_def set_append by blast+
  have le: "\<bar>net\<bar> + gross ?fs + gross ?rest \<le> 2 ^ 53" using Cons(11) by (simp add: both)
  have led: "on_ledger j (position_of (ctl_shared c1) k e y) (map fst (rev ?fs) @ seen) (net + count_once seen ?fs)"
    using le gross_nonneg [of ?rest]
    by (intro event_on_ledger [OF Cons(1-3) assms(4,5) Cons(8,9) refl grid(1)]) simp
  have "\<bar>net + count_once seen ?fs\<bar> + gross ?rest \<le> 2 ^ 53" using le count_once_bound [of seen ?fs] by simp
  from Cons(7) [OF tracked_stays [OF Cons(4,8)] led, unfolded t1, OF grid(2) this] show ?case
    using count_once_cong [of "map fst (rev ?fs) @ seen" "map fst ?fs @ seen" ?rest]
    by (simp add: both count_once_append add.assoc)
qed

lemma run_exact:
  assumes "controller_inv c" "unat (next_instrument_id (ctl_shared c)) + length events < 2 ^ 32"
    and "controller_run env events c = (None, outs, c')"
    and "sign_law (env_api env)" "j \<le> 2044" "map_of (groups (ctl_shared c)) k \<noteq> None"
    and "position_of (ctl_shared c) k e y = position_new l"
    and "tus = trades_for name_of (ctl_last_exchange_time_utc c) k e y events"
    and "on_grid j lots tus" "gross (ledger lots tus) \<le> 2 ^ 53" "net = count_once [] (ledger lots tus)"
    and "p = position_of (ctl_shared c') k e y"
  shows "pos_quantity p = grid j net" "same_value (pos_long_position p) (grid j (max net 0))"
    "same_value (pos_short_position p) (grid j (max (- net) 0))"
proof -
  have "on_ledger j (position_of (ctl_shared c) k e y) [] 0" by (simp add: assms(7) on_ledger_new)
  from run_on_ledger [OF assms(1-6) this] assms(8-11) obtain seen' where
    "on_ledger j p seen' net" by (auto simp: assms(12))
  then have "pos_quantity p = grid j net" and "netted p" by (simp_all add: on_ledger_def)
  then show "pos_quantity p = grid j net" "same_value (pos_long_position p) (grid j (max net 0))"
    "same_value (pos_short_position p) (grid j (max (- net) 0))"
    using same_value_trans [OF _ cut_grid_neg] by (simp_all add: netted_def cut_grid)
qed

text \<open>What every trade update keeps of a position is kept by a run.\<close>

lemma run_keeps:
  assumes "controller_inv c" "unat (next_instrument_id (ctl_shared c)) + length events < 2 ^ 32"
    and "controller_run env events c = (None, outs, c')" "map_of (groups (ctl_shared c)) k \<noteq> None"
    and "\<And>tu ins p. P p \<Longrightarrow> P (position_trade_update (env_api env) tu ins p)"
    and "P (position_of (ctl_shared c) k e y)"
  shows "P (position_of (ctl_shared c') k e y)"
  using assms(1-4,6)
proof (induction rule: run_induct)
  case (Cons ev es c outs1 c1 outs2 c')
  have k1: "map_of (groups (ctl_shared c1)) k \<noteq> None" by (rule tracked_stays [OF Cons(4,8)])
  from Cons(1) have inv: "shared_inv (ctl_shared c)" by (simp add: controller_inv_def)
  have "P (position_of (ctl_shared c1) k e y)"
  proof (cases "accepted (ctl_last_exchange_time_utc c) ev")
    case None
    with event_stays [OF Cons(1-3)] Cons(9) show ?thesis by simp
  next
    case (Some tu)
    with trade_moves [OF inv Cons(2,8), of tu e y] event_effect(3) [OF Cons(1-3) refl Some] Cons(9) assms(5)
    show ?thesis by auto
  qed
  with Cons(7) k1 show ?case by simp
qed

end

interpretation account_runs: tracked_positions env accounts account_position tu_account for env
proof (unfold_locales, goal_cases)
  case 1 then show ?case by (rule evolvesD)
next
  case 2 then show ?case by (rule apply_trade_position)
next
  case 3 from event_effect(2) [OF 3(1-3) refl 3(4)] show ?case .
qed

interpretation user_runs: tracked_positions env users user_position tu_user for env
proof (unfold_locales, goal_cases)
  case 1 then show ?case by (rule evolvesD)
next
  case 2 then show ?case by (rule apply_trade_user_position)
next
  case 3 from event_effect(4) [OF 3(1-3) refl 3(4)] show ?case .
qed

text \<open>
  C1: End-to-end exactness of the positions. Take any run of the controller, with trade updates of all
  accounts, reference data, downloads, timers and web requests interleaved. The position of an account
  in an instrument that starts from nothing is the signed sum over the distinct fills of the updates
  for that account, exchange and symbol that are newer than the start-up time, computed without
  rounding error as long as the fills are whole lots of a dyadic size and add up to at most $2^{53}$
  lots; the long position is its positive part and the short position its negative part.
\<close>

theorem account_positions_exact:
  assumes "controller_inv c" "unat (next_instrument_id (ctl_shared c)) + length events < 2 ^ 32"
    and "controller_run env events c = (None, outs, c')"
    and "sign_law (env_api env)" "j \<le> 2044" "map_of (accounts (ctl_shared c)) k \<noteq> None"
    and "account_position (ctl_shared c) k e y = position_new l"
    and "tus = trades_for tu_account (ctl_last_exchange_time_utc c) k e y events"
    and "on_grid j lots tus" "gross (ledger lots tus) \<le> 2 ^ 53" "net = count_once [] (ledger lots tus)"
    and "p = account_position (ctl_shared c') k e y"
  shows "pos_quantity p = grid j net \<and> same_value (pos_long_position p) (grid j (max net 0)) \<and>
    same_value (pos_short_position p) (grid j (max (- net) 0))"
  using account_runs.run_exact [OF assms] by blast

lemma sample_account: "map_of (accounts (ctl_shared sample_controller)) ''A1'' = Some (group_new ''A1'')"
  by (simp add: sample_controller_def shared_from_config_def shared_new_def map_of_create_config
      sample_config_file_def sample_config_def)

lemma sample_user: "map_of (users (ctl_shared sample_controller)) ''trader'' = Some (group_new ''trader'')"
  by (simp add: sample_controller_def shared_from_config_def shared_new_def map_of_create_config sample_config_file_def)

lemma sample_no_position:
  "account_position (ctl_shared sample_controller) k e y =
     position_new (get_limit_by_account (ctl_shared sample_controller) k e y)"
  "user_position (ctl_shared sample_controller) k e y =
     position_new (get_limit_by_user (ctl_shared sample_controller) k e y)"
proof -
  have "group_get_position i (group_new k) = None" for i by (simp add: group_get_position_def group_new_def)
  then show "account_position (ctl_shared sample_controller) k e y =
     position_new (get_limit_by_account (ctl_shared sample_controller) k e y)"
    "user_position (ctl_shared sample_controller) k e y =
     position_new (get_limit_by_user (ctl_shared sample_controller) k e y)"
    by (auto simp: account_position_def user_position_def position_at_def sample_controller_def shared_from_config_def shared_new_def
        map_of_create_config split: option.split)
qed

theorem account_positions_exact_witness:
  "\<exists>outs c'. controller_run (sample_env sample_session) (map (TradeUpdate sample_mi)
       [sample_trade BUY ''t1'' 5 10, sample_trade SELL ''t2'' 7 11, sample_trade BUY ''t1'' 5 12])
       sample_controller = (None, outs, c') \<and>
     pos_quantity (account_position (ctl_shared c') ''A1'' ''deribit'' ''BTC-PERPETUAL'') = grid one_exp (- 2)"
proof -
  let ?tus = "[sample_trade BUY ''t1'' 5 10, sample_trade SELL ''t2'' 7 11, sample_trade BUY ''t1'' 5 12]"
  let ?lots = "\<lambda>f. if fill_external_trade_id f = ''t1'' then 5 else 7 :: int"
  have *: "unat (next_instrument_id (ctl_shared sample_controller)) + length ?tus < 2 ^ 32"
    "length (ctl_state sample_controller) = 1"
    by (simp_all add: sample_controller_inv) (simp add: sample_controller_def)
  obtain outs c' where run: "controller_run (sample_env sample_session) (map (TradeUpdate sample_mi) ?tus)
      sample_controller = (None, outs, c')"
    by (rule sample_run [OF sample_controller_inv(1) *])
  have tus: "?tus = trades_for tu_account (ctl_last_exchange_time_utc sample_controller) ''A1'' ''deribit'' ''BTC-PERPETUAL''
      (map (TradeUpdate sample_mi) ?tus)"
    by (simp add: trades_for_def List.map_filter_simps sample_controller_def sample_trade_def)
  have 1: "on_grid one_exp ?lots ?tus" by (simp add: on_grid_def sample_trade_def sample_fill_def)
  have 2: "gross (ledger ?lots ?tus) \<le> 2 ^ 53" and 3: "- 2 = count_once [] (ledger ?lots ?tus)"
    by (simp_all add: ledger_def signed_lots_def sample_trade_def sample_fill_def)
  have api: "sign_law (env_api (sample_env sample_session))" by (simp add: sample_env_def)
  have "unat (next_instrument_id (ctl_shared sample_controller)) + length (map (TradeUpdate sample_mi) ?tus) < 2 ^ 32"
    by (simp add: sample_controller_inv)
  from account_positions_exact [OF sample_controller_inv(1) this run api one_exp_le _ sample_no_position(1) tus 1 2 3 refl]
    run sample_account show ?thesis by auto
qed

text \<open>
  C8: The positions of users are exact in the same way: after any run the position of a user in an
  instrument that starts from nothing is the signed sum over the distinct fills of the accepted trade
  updates with that user, over all accounts, without rounding error within the same bounds, split into
  its positive and its negative part.
\<close>

theorem user_positions_exact:
  assumes "controller_inv c" "unat (next_instrument_id (ctl_shared c)) + length events < 2 ^ 32"
    and "controller_run env events c = (None, outs, c')"
    and "sign_law (env_api env)" "j \<le> 2044" "map_of (users (ctl_shared c)) k \<noteq> None"
    and "user_position (ctl_shared c) k e y = position_new l"
    and "tus = trades_for tu_user (ctl_last_exchange_time_utc c) k e y events"
    and "on_grid j lots tus" "gross (ledger lots tus) \<le> 2 ^ 53" "net = count_once [] (ledger lots tus)"
    and "p = user_position (ctl_shared c') k e y"
  shows "pos_quantity p = grid j net \<and> same_value (pos_long_position p) (grid j (max net 0)) \<and>
    same_value (pos_short_position p) (grid j (max (- net) 0))"
  using user_runs.run_exact [OF assms] by blast

theorem user_positions_exact_witness:
  "\<exists>outs c'. controller_run (sample_env sample_session) (map (TradeUpdate sample_mi)
       [sample_trade BUY ''t1'' 5 10, sample_trade SELL ''t2'' 7 11, sample_trade BUY ''t1'' 5 12])
       sample_controller = (None, outs, c') \<and>
     pos_quantity (user_position (ctl_shared c') ''trader'' ''deribit'' ''BTC-PERPETUAL'') = grid one_exp (- 2)"
proof -
  let ?tus = "[sample_trade BUY ''t1'' 5 10, sample_trade SELL ''t2'' 7 11, sample_trade BUY ''t1'' 5 12]"
  let ?lots = "\<lambda>f. if fill_external_trade_id f = ''t1'' then 5 else 7 :: int"
  have *: "unat (next_instrument_id (ctl_shared sample_controller)) + length ?tus < 2 ^ 32"
    "length (ctl_state sample_controller) = 1"
    by (simp_all add: sample_controller_inv) (simp add: sample_controller_def)
  obtain outs c' where run: "controller_run (sample_env sample_session) (map (TradeUpdate sample_mi) ?tus)
      sample_controller = (None, outs, c')"
    by (rule sample_run [OF sample_controller_inv(1) *])
  have tus: "?tus = trades_for tu_user (ctl_last_exchange_time_utc sample_controller) ''trader'' ''deribit'' ''BTC-PERPETUAL''
      (map (TradeUpdate sample_mi) ?tus)"
    by (simp add: trades_for_def List.map_filter_simps sample_controller_def sample_trade_def)
  have 1: "on_grid one_exp ?lots ?tus" by (simp add: on_grid_def sample_trade_def sample_fill_def)
  have 2: "gross (ledger ?lots ?tus) \<le> 2 ^ 53" and 3: "- 2 = count_once [] (ledger ?lots ?tus)"
    by (simp_all add: ledger_def signed_lots_def sample_trade_def sample_fill_def)
  have api: "sign_law (env_api (sample_env sample_session))" by (simp add: sample_env_def)
  have "unat (next_instrument_id (ctl_shared sample_controller)) + length (map (TradeUpdate sample_mi) ?tus) < 2 ^ 32"
    by (simp add: sample_controller_inv)
  from user_positions_exact [OF sample_controller_inv(1) this run api one_exp_le _ sample_no_position(2) tus 1 2 3 refl]
    run sample_user show ?thesis by auto
qed

end
