(* ===== verification/Controller_Publish.thy ===== *)
theory Controller_Publish
  imports Controller_Facts
begin

text \<open>
  What the controller sends to the gateways: a position that is due stays due until a timer event
  finds a ready source, and is then sent; fills, downloads and gateways that become ready make
  positions due. The contracts \<open>marked_table\<close> and \<open>published_table\<close> are the same for accounts and users.
\<close>

section \<open>Positions that are due\<close>

text \<open>The group has a position in the instrument and the instrument is in its publish set.\<close>

definition due_in ::
    "(('cp, 'cf) shared \<Rightarrow> (string, string group) hash_map) \<Rightarrow>
     (('cp, 'cf) shared \<Rightarrow> (string, instrument_id list) hash_map) \<Rightarrow>
     ('cp, 'cf) shared \<Rightarrow> string \<Rightarrow> string \<Rightarrow> string \<Rightarrow> bool" where
  "due_in groups pending s k e y \<longleftrightarrow>
     (\<exists>i g. map_of (groups s) k = Some g \<and> group_get_position i g \<noteq> None \<and>
        known s i = Some (e, y) \<and> i \<in> set (find_or [] (pending s) k))"

abbreviation account_due :: "('cp, 'cf) shared \<Rightarrow> string \<Rightarrow> string \<Rightarrow> string \<Rightarrow> bool" where
  "account_due \<equiv> due_in accounts publish_by_account"

abbreviation user_due :: "('cp, 'cf) shared \<Rightarrow> string \<Rightarrow> string \<Rightarrow> string \<Rightarrow> bool" where
  "user_due \<equiv> due_in users publish_by_user"

lemma due_mono:
  assumes "due_in groups pending s k e y" "groups s' = groups s"
    and "set (find_or [] (pending s) k) \<subseteq> set (find_or [] (pending s') k)"
    and "\<And>i ey. known s i = Some ey \<Longrightarrow> known s' i = Some ey"
  shows "due_in groups pending s' k e y"
proof -
  obtain i g where "map_of (groups s) k = Some g" "group_get_position i g \<noteq> None"
    "known s i = Some (e, y)" "i \<in> set (find_or [] (pending s) k)"
    using assms(1) by (auto simp: due_in_def)
  with assms(2) assms(4) [of i "(e, y)"] subsetD [OF assms(3), of i] show ?thesis
    unfolding due_in_def by (intro exI [of _ i] exI [of _ g]) simp
qed

text \<open>Visits of accounts add positions and marks of accounts, take none away, and leave the users alone.\<close>

lemma account_visit_due:
  assumes "shared_inv s" "room s e y" "\<And>ins p. position_limit (upd ins p) = position_limit p"
    and cb: "\<And>g. callback g = (\<lambda>_ s. s) \<or> callback g = publish_account_instrument (grp_name g)"
    and s': "s' = snd (get_account k (\<lambda>g. group_dispatch (account_handler api) e y upd (callback g) g) s)"
  shows "account_due s k' e' y' \<Longrightarrow> account_due s' k' e' y'" "user_due s k' e' y' \<Longrightarrow> user_due s' k' e' y'"
proof -
  have "account_table.proper_callback api (callback g)" for g
    unfolding account_table.proper_callback_def handler_simps using cb [of g] by auto
  note known = account_table.visit_dispatch(4) [OF assms(1,2) this assms(3) s']
  obtain ins s1 where get: "get_instrument api e y s = (ins, s1)" by fastforce
  then have s1: "accounts s1 = accounts s" "publish_by_account s1 = publish_by_account s"
    "publish_by_user s1 = publish_by_user s"
    using get_instrument_frame [of api e y s] by simp_all
  show "account_due s' k' e' y'" if due: "account_due s k' e' y'"
  proof (cases "map_of (accounts s) k")
    case None
    with due show ?thesis by (simp add: s' get_account_def)
  next
    case (Some g)
    obtain i a where i: "map_of (accounts s) k' = Some a" "group_get_position i a \<noteq> None"
      "known s i = Some (e', y')" "i \<in> set (find_or [] (publish_by_account s) k')"
      using due by (auto simp: due_in_def)
    have "\<exists>g'. map_of (accounts s') k' = Some g' \<and> group_get_position i g' \<noteq> None"
      using i(1,2) Some get s1 cb [of g]
      by (auto simp: s' get_account_def group_dispatch_def handler_simps group_get_position_def
          publish_account_instrument_def Let_def)
    moreover have "i \<in> set (find_or [] (publish_by_account s') k')"
      using i(4) Some get s1 cb [of g]
      by (auto simp: s' get_account_def group_dispatch_def handler_simps publish_account_instrument_def Let_def)
    ultimately show ?thesis using known [OF i(3)] by (auto simp: due_in_def)
  qed
  have "publish_by_user s' = publish_by_user s"
  proof (cases "map_of (accounts s) k")
    case (Some g)
    with get s1 cb [of g] show ?thesis
      by (auto simp: s' get_account_def group_dispatch_def handler_simps publish_account_instrument_def Let_def)
  qed (simp add: s' get_account_def)
  then show "user_due s' k' e' y'" if "user_due s k' e' y'"
    using account_visit_frame(1) [OF cb s'] known by (intro due_mono [OF that]) simp_all
qed

lemma user_visit_due:
  assumes "shared_inv s" "room s e y" "\<And>ins p. position_limit (upd ins p) = position_limit p"
    and cb: "\<And>g. callback g = (\<lambda>_ s. s) \<or> callback g = publish_user_instrument (grp_name g)"
    and s': "s' = snd (get_user k (\<lambda>g. group_dispatch (user_handler api) e y upd (callback g) g) s)"
  shows "account_due s k' e' y' \<Longrightarrow> account_due s' k' e' y'" "user_due s k' e' y' \<Longrightarrow> user_due s' k' e' y'"
proof -
  have "user_table.proper_callback api (callback g)" for g
    unfolding user_table.proper_callback_def handler_simps using cb [of g] by auto
  note known = user_table.visit_dispatch(4) [OF assms(1,2) this assms(3) s']
  obtain ins s1 where get: "get_instrument api e y s = (ins, s1)" by fastforce
  then have s1: "users s1 = users s" "publish_by_account s1 = publish_by_account s"
    "publish_by_user s1 = publish_by_user s"
    using get_instrument_frame [of api e y s] by simp_all
  show "user_due s' k' e' y'" if due: "user_due s k' e' y'"
  proof (cases "map_of (users s) k")
    case None
    with due show ?thesis by (simp add: s' get_user_def)
  next
    case (Some g)
    obtain i a where i: "map_of (users s) k' = Some a" "group_get_position i a \<noteq> None"
      "known s i = Some (e', y')" "i \<in> set (find_or [] (publish_by_user s) k')"
      using due by (auto simp: due_in_def)
    have "\<exists>g'. map_of (users s') k' = Some g' \<and> group_get_position i g' \<noteq> None"
      using i(1,2) Some get s1 cb [of g]
      by (auto simp: s' get_user_def group_dispatch_def handler_simps group_get_position_def
          publish_user_instrument_def Let_def)
    moreover have "i \<in> set (find_or [] (publish_by_user s') k')"
      using i(4) Some get s1 cb [of g]
      by (auto simp: s' get_user_def group_dispatch_def handler_simps publish_user_instrument_def Let_def)
    ultimately show ?thesis using known [OF i(3)] by (auto simp: due_in_def)
  qed
  have "publish_by_account s' = publish_by_account s"
  proof (cases "map_of (users s) k")
    case (Some g)
    with get s1 cb [of g] show ?thesis
      by (auto simp: s' get_user_def group_dispatch_def handler_simps publish_user_instrument_def Let_def)
  qed (simp add: s' get_user_def)
  then show "account_due s' k' e' y'" if "account_due s k' e' y'"
    using user_visit_frame(1) [OF cb s'] known by (intro due_mono [OF that]) simp_all
qed

section \<open>Between two timer events\<close>

text \<open>
  The contract of a table with its publish set: visits of either table and changes that only add
  marks keep what is due. Then no event but a timer event takes a mark away.
\<close>

locale marked_table =
  fixes groups :: "('cp, 'cf) shared \<Rightarrow> (string, string group) hash_map"
    and pending :: "('cp, 'cf) shared \<Rightarrow> (string, instrument_id list) hash_map"
  assumes account_visit:
      "shared_inv s \<Longrightarrow> room s e y \<Longrightarrow> (\<And>ins p. position_limit (upd ins p) = position_limit p) \<Longrightarrow>
         (\<And>g. callback g = (\<lambda>_ s. s) \<or> callback g = publish_account_instrument (grp_name g)) \<Longrightarrow>
         due_in groups pending s k' e' y' \<Longrightarrow>
         due_in groups pending (snd (get_account k (\<lambda>g. group_dispatch (account_handler api) e y upd (callback g) g) s)) k' e' y'"
    and user_visit:
      "shared_inv s \<Longrightarrow> room s e y \<Longrightarrow> (\<And>ins p. position_limit (upd ins p) = position_limit p) \<Longrightarrow>
         (\<And>g. callback g = (\<lambda>_ s. s) \<or> callback g = publish_user_instrument (grp_name g)) \<Longrightarrow>
         due_in groups pending s k' e' y' \<Longrightarrow>
         due_in groups pending (snd (get_user k (\<lambda>g. group_dispatch (user_handler api) e y upd (callback g) g) s)) k' e' y'"
    and frame:
      "due_in groups pending s k e y \<Longrightarrow> accounts s' = accounts s \<Longrightarrow> users s' = users s \<Longrightarrow>
         (\<And>n. set (find_or [] (publish_by_account s) n) \<subseteq> set (find_or [] (publish_by_account s') n)) \<Longrightarrow>
         (\<And>n. set (find_or [] (publish_by_user s) n) \<subseteq> set (find_or [] (publish_by_user s') n)) \<Longrightarrow>
         (\<And>i ey. known s i = Some ey \<Longrightarrow> known s' i = Some ey) \<Longrightarrow> due_in groups pending s' k e y"
begin

abbreviation due :: "('cp, 'cf) shared \<Rightarrow> string \<Rightarrow> string \<Rightarrow> string \<Rightarrow> bool" where
  "due \<equiv> due_in groups pending"

lemma due_publish_account: "due s k e y \<Longrightarrow> due (publish_account n s) k e y"
  by (erule frame) (auto simp: publish_account_def)

lemma due_publish_user: "due s k e y \<Longrightarrow> due (publish_user n s) k e y"
  by (erule frame) (auto simp: publish_user_def)

lemma trade_update_due:
  assumes "shared_inv s" "room s (tu_exchange tu) (tu_symbol tu)" "due s k' e' y'"
  shows "due (snd (get_account k (account_trade_update api (account_handler api) tu) s)) k' e' y'"
    "due (snd (get_user k (user_trade_update api (user_handler api) tu) s)) k' e' y'"
  unfolding account_visits user_visits
  by (rule account_visit [OF assms(1,2) position_limit_trade_update _ assms(3)]
      user_visit [OF assms(1,2) position_limit_trade_update _ assms(3)],
      simp add: handler_simps)+

lemma reference_data_due:
  assumes "shared_inv s" "room s (rd_exchange rd) (rd_symbol rd)" "due s k' e' y'"
  shows "due (snd (get_account k (account_reference_data (account_handler api) rd) s)) k' e' y'"
    "due (snd (get_user k (user_reference_data (user_handler api) rd) s)) k' e' y'"
  unfolding account_visits user_visits
  by (rule account_visit [OF assms(1,2) position_limit_reference_data _ assms(3)]
      user_visit [OF assms(1,2) position_limit_reference_data _ assms(3)], simp)+

lemma apply_trade_due:
  assumes "shared_inv s" "unat (next_instrument_id s) < 2 ^ 32 - 1" "due s k e y"
  shows "due (apply_trade api tu s) k e y"
proof -
  note room = room_below [OF assms(2), of "tu_exchange tu" "tu_symbol tu"]
  note a = account_trade_update_shared [where k = "tu_account tu" and api = api, OF assms(1) room refl]
  show ?thesis
    unfolding apply_trade_def by (intro trade_update_due(2) [OF a(1,2)] trade_update_due(1) assms(1,3) room)
qed

lemma all_reference_data_due:
  assumes "shared_inv s" "room s (rd_exchange rd) (rd_symbol rd)" "due s k e y"
  shows "due (get_all_users (user_reference_data (user_handler api) rd)
    (get_all_accounts (account_reference_data (account_handler api) rd) s)) k e y"
proof -
  let ?P = "\<lambda>s. shared_inv s \<and> room s (rd_exchange rd) (rd_symbol rd) \<and> due s k e y"
  let ?a = "account_reference_data (account_handler api) rd" and ?u = "user_reference_data (user_handler api) rd"
  have step: "?P (snd (get_account n ?a s))" "?P (snd (get_user n ?u s))" if "?P s" for n s
    using that reference_data_step [of s rd] reference_data_due [of s rd k e y] by blast+
  have "?P (get_all_accounts ?a s)"
    unfolding get_all_accounts_def
    by (rule fold_invariant [where Q = "\<lambda>_. True"]) (use assms step(1) in simp_all)
  then have "?P (get_all_users ?u (get_all_accounts ?a s))"
    unfolding get_all_users_def by (rule fold_invariant [where Q = "\<lambda>_. True", rotated]) (rule TrueI step(2), assumption?)+
  then show ?thesis by blast
qed

lemma apply_reference_data_due:
  assumes "shared_inv s" "unat (next_instrument_id s) < 2 ^ 32 - 1" "due s k e y"
  shows "due (apply_reference_data api rd s) k e y"
proof -
  let ?e = "rd_exchange rd" and ?y = "rd_symbol rd"
  note room = room_below [OF assms(2), of ?e ?y] and reg = shared_inv_registry [OF assms(1)]
  obtain ins s1 where get: "get_instrument api ?e ?y s = (ins, s1)" by fastforce
  define ins' where "ins' = snd (instrument_reference_data api rd ins)"
  define s2 where "s2 = s1\<lparr>instruments := AList.update (ins_id ins') ins' (instruments s1)\<rparr>"
  note r = get_instrument_registry [OF reg room get]
  have inv1: "shared_inv s1" by (rule shared_inv_get_instrument [OF assms(1) room get])
  have s2: "shared_inv s2" "known s2 = known s1" "lookup_id s2 = lookup_id s1"
    by (rule shared_inv_update_instrument [OF inv1 r(5) _ _ _ s2_def]; simp add: ins'_def)+
  have "accounts s1 = accounts s" "users s1 = users s" "publish_by_account s1 = publish_by_account s"
    "publish_by_user s1 = publish_by_user s"
    using get_instrument_frame [of api ?e ?y s] get by simp_all
  then have due: "due s2 k e y" using r(3) by (intro frame [OF assms(3)]) (simp_all add: s2_def s2(2) [unfolded s2_def])
  have "room s2 ?e ?y" using registry_instrument(1) [OF r(1,5)] r(4) by (simp add: room_def s2(3))
  note all = all_reference_data_due [OF s2(1) this due]
  have "apply_reference_data api rd s = (if fst (instrument_reference_data api rd ins) then
      get_all_users (user_reference_data (user_handler api) rd)
        (get_all_accounts (account_reference_data (account_handler api) rd) s2) else s2)"
    by (simp add: apply_reference_data_def controller_reference_data_def get s2_def ins'_def Let_def split_beta)
  with due all show ?thesis by simp
qed

lemma all_users_due:
  assumes "due s k e y"
  shows "due (get_all_users (\<lambda>user s. (user, publish_user (grp_name user) s)) s) k e y"
proof -
  have "due (snd (get_user n (\<lambda>user s. (user, publish_user (grp_name user) s)) s)) k e y"
    if "due s k e y" for n s
    using that by (rule frame) (auto simp: get_user_def publish_user_def update_same split: option.splits)
  with assms show ?thesis
    unfolding get_all_users_def by (intro fold_invariant [where Q = "\<lambda>_. True" and P = "\<lambda>s. due s k e y"]) simp_all
qed

lemma event_due:
  assumes "controller_inv c" "unat (next_instrument_id (ctl_shared c)) < 2 ^ 32 - 1"
    and "controller_event env ev c = (err, outs, c')"
    and "\<not> timer_event ev" and due: "due (ctl_shared c) k e y"
  shows "due (ctl_shared c') k e y"
proof -
  have inv: "shared_inv (ctl_shared c)" using assms(1) by (simp add: controller_inv_def)
  have cached: "due (update_cached_account source n f (ctl_shared c)) k e y" for source n f
    using due by (rule frame) (simp_all add: update_cached_account_def Let_def)
  from assms(3,4) show ?thesis
    by (cases rule: event_shared_cases)
      (use due cached in \<open>auto intro: due_publish_account all_users_due apply_reference_data_due [OF inv assms(2)]
        apply_trade_due [OF inv assms(2)]\<close>)
qed

lemma run_due:
  assumes "controller_inv c" "unat (next_instrument_id (ctl_shared c)) + length events < 2 ^ 32"
    and "controller_run env events c = (None, outs, c')"
    and "\<forall>ev \<in> set events. \<not> timer_event ev" "due (ctl_shared c) k e y"
  shows "due (ctl_shared c') k e y"
  using assms
proof (induction rule: run_induct)
  case (Cons ev es c outs1 c1 outs2 c')
  from Cons(8) event_due [OF Cons(1-3) _ Cons(9)] Cons(7) show ?case by simp
qed

end

interpretation account_marks: marked_table accounts publish_by_account
proof (unfold_locales, goal_cases)
  case 1 then show ?case by (rule account_visit_due(1) [OF _ _ _ _ refl])
next
  case 2 then show ?case by (rule user_visit_due(1) [OF _ _ _ _ refl])
next
  case 3 then show ?case by (auto elim!: due_mono)
qed

interpretation user_marks: marked_table users publish_by_user
proof (unfold_locales, goal_cases)
  case 1 then show ?case by (rule account_visit_due(2) [OF _ _ _ _ refl])
next
  case 2 then show ?case by (rule user_visit_due(2) [OF _ _ _ _ refl])
next
  case 3 then show ?case by (auto elim!: due_mono)
qed

section \<open>Timer events\<close>

text \<open>The risk limit that describes a position.\<close>

definition risk_limit_for :: "string \<Rightarrow> string \<Rightarrow> position \<Rightarrow> risk_limit" where
  "risk_limit_for e y p =
     \<lparr>rl_exchange = e, rl_symbol = y, rl_long_position = pos_long_position p,
      rl_short_position = pos_short_position p, rl_long_position_limit = long_position_limit p,
      rl_short_position_limit = short_position_limit p,
      rl_long_risk_exposure_limit = long_risk_exposure_limit p,
      rl_short_risk_exposure_limit = short_risk_exposure_limit p, rl_allow_netting = pos_allow_netting p\<rparr>"

lemma risk_limit_of_eq: "risk_limit_of (p, ins) = risk_limit_for (ins_exchange ins) (ins_symbol ins) p"
  by (simp add: risk_limit_of_def risk_limit_for_def)

lemma due_call:
  assumes "due_in groups pending s k e y"
  obtains i g p ins where "map_of (groups s) k = Some g" "known s i = Some (e, y)" "group_get_position i g = Some p"
    "(p, ins) \<in> set (pending_positions (groups s) (instruments s) k (find_or [] (pending s) k))"
    "risk_limit_of (p, ins) = risk_limit_for e y p"
proof -
  obtain i g p where g: "map_of (groups s) k = Some g" and p: "group_get_position i g = Some p"
    and i: "known s i = Some (e, y)" "i \<in> set (find_or [] (pending s) k)"
    using assms by (auto simp: due_in_def)
  obtain ins where ins: "map_of (instruments s) i = Some ins" "ins_exchange ins = e" "ins_symbol ins = y"
    using i(1) by (auto simp: known_def)
  have "(p, ins) \<in> set (pending_positions (groups s) (instruments s) k (find_or [] (pending s) k))"
    unfolding set_pending_positions [OF g] using i(2) p ins(1) by blast
  then show thesis by (rule that [OF g i(1) p]) (simp add: risk_limit_of_eq ins)
qed

lemma account_due_message:
  assumes "shared_inv s" "account_due s k e y"
  shows "\<exists>rls. Send rls source \<in> set (all_messages source state s) \<and> rls_account rls = k \<and>
    rls_session_id rls = st_session_id state \<and> risk_limit_for e y (account_position s k e y) \<in> set (rls_limits rls)"
proof -
  let ?calls = "pending_positions (accounts s) (instruments s) k (find_or [] (publish_by_account s) k)"
  obtain i g p ins where g: "map_of (accounts s) k = Some g" "known s i = Some (e, y)" "group_get_position i g = Some p"
    and call: "(p, ins) \<in> set ?calls" "risk_limit_of (p, ins) = risk_limit_for e y p"
    by (rule due_call [OF assms(2)])
  have "position_at accounts lookup_instrument s k e y = Some p"
    unfolding account_positions.position_at_iff [OF assms(1)] using g by blast
  then have pos: "account_position s k e y = p" by (simp add: account_position_def)
  let ?rls = "\<lparr>rls_user = [], rls_strategy_id = 0, rls_account = k, rls_limits = map risk_limit_of ?calls,
    rls_session_id = st_session_id state, rls_seqno = st_seqno state\<rparr>"
  have "Send ?rls source \<in> set (account_message source state s k)"
    using call(1) by (auto simp: account_message_def Let_def)
  moreover have "k \<in> set (map fst (accounts s))" using g(1) by (force dest: map_of_SomeD)
  ultimately have "Send ?rls source \<in> set (all_messages source state s)" by (auto simp: all_messages_def)
  moreover have "risk_limit_for e y p \<in> set (rls_limits ?rls)"
    using imageI [OF call(1), of risk_limit_of] by (simp add: call(2))
  ultimately show ?thesis by (intro exI [of _ ?rls]) (simp add: pos)
qed

lemma user_due_message:
  assumes "shared_inv s" "user_due s k e y"
  shows "\<exists>rls. Send rls source \<in> set (all_messages source state s) \<and> rls_user rls = k \<and>
    rls_session_id rls = st_session_id state \<and> risk_limit_for e y (user_position s k e y) \<in> set (rls_limits rls)"
proof -
  let ?calls = "pending_positions (users s) (instruments s) k (find_or [] (publish_by_user s) k)"
  obtain i g p ins where g: "map_of (users s) k = Some g" "known s i = Some (e, y)" "group_get_position i g = Some p"
    and call: "(p, ins) \<in> set ?calls" "risk_limit_of (p, ins) = risk_limit_for e y p"
    by (rule due_call [OF assms(2)])
  have "position_at users lookup_instrument s k e y = Some p"
    unfolding user_positions.position_at_iff [OF assms(1)] using g by blast
  then have pos: "user_position s k e y = p" by (simp add: user_position_def)
  let ?rls = "\<lparr>rls_user = k, rls_strategy_id = 0, rls_account = [], rls_limits = map risk_limit_of ?calls,
    rls_session_id = st_session_id state, rls_seqno = st_seqno state\<rparr>"
  have "Send ?rls source \<in> set (user_message source state s k)"
    using call(1) by (auto simp: user_message_def Let_def)
  moreover have "k \<in> set (map fst (users s))" using g(1) by (force dest: map_of_SomeD)
  ultimately have "Send ?rls source \<in> set (all_messages source state s)" by (auto simp: all_messages_def)
  moreover have "risk_limit_for e y p \<in> set (rls_limits ?rls)"
    using imageI [OF call(1), of risk_limit_of] by (simp add: call(2))
  ultimately show ?thesis by (intro exI [of _ ?rls]) (simp add: pos)
qed

text \<open>
  A table whose due positions are in the messages: what an event makes due is sent by the next timer
  event.
\<close>

locale published_table = marked_table groups pending
  for groups :: "('cp, 'cf) shared \<Rightarrow> (string, string group) hash_map"
    and pending :: "('cp, 'cf) shared \<Rightarrow> (string, instrument_id list) hash_map" +
  fixes position_of :: "('cp, 'cf) shared \<Rightarrow> string \<Rightarrow> string \<Rightarrow> string \<Rightarrow> position"
    and addressee :: "risk_limits \<Rightarrow> string"
  assumes due_message:
    "shared_inv s \<Longrightarrow> due_in groups pending s k e y \<Longrightarrow>
       \<exists>rls. Send rls source \<in> set (all_messages source state s) \<and> addressee rls = k \<and>
         rls_session_id rls = st_session_id state \<and> risk_limit_for e y (position_of s k e y) \<in> set (rls_limits rls)"
begin

lemma due_sent:
  assumes "controller_inv c" "controller_timer env now events c = (None, outs, c')"
    and "ready_sources (ctl_state c) [0..<length (ctl_state c)] = i # is" "due (ctl_shared c) k e y"
  shows "\<exists>rls. Send rls (word_of_nat i) \<in> set outs \<and> addressee rls = k \<and>
    rls_session_id rls = st_session_id (ctl_state c ! i) \<and>
    risk_limit_for e y (position_of (ctl_shared c) k e y) \<in> set (rls_limits rls)"
proof -
  have inv: "shared_inv (ctl_shared c)" using assms(1) by (simp add: controller_inv_def)
  from assms(1,2) have "set (all_messages (word_of_nat i) (ctl_state c ! i) (ctl_shared c)) \<subseteq> set outs"
    by (cases rule: timer_cases) (simp_all add: assms(3))
  with due_message [OF inv assms(4), of "word_of_nat i" "ctl_state c ! i"] show ?thesis by blast
qed

lemma due_run_sent:
  assumes "controller_inv c" "unat (next_instrument_id (ctl_shared c)) + length (ev # others) < 2 ^ 32"
    and "controller_run env (ev # others) c = (None, outs, c1)" "\<forall>ev \<in> set others. \<not> timer_event ev"
    and "ready_sources (ctl_state c1) [0..<length (ctl_state c1)] = i # more_sources"
    and "controller_timer env now events c1 = (None, outs2, c2)"
    and due: "\<And>outs c'. controller_event env ev c = (None, outs, c') \<Longrightarrow> due (ctl_shared c') k e y"
  shows "\<exists>rls. Send rls (word_of_nat i) \<in> set outs2 \<and> addressee rls = k \<and>
    rls_session_id rls = st_session_id (ctl_state c1 ! i) \<and>
    risk_limit_for e y (position_of (ctl_shared c1) k e y) \<in> set (rls_limits rls)"
proof -
  obtain err outs0 c0 where ev: "controller_event env ev c = (err, outs0, c0)" by (metis prod_cases3)
  have "err = None" using assms(3) ev by (cases err) auto
  note ev = ev [unfolded this]
  from assms(3) ev obtain outs' where run: "controller_run env others c0 = (None, outs', c1)"
    by (auto split: prod.splits)
  have st: "steps c c0" using assms(2) by (intro event_effect(1) [OF assms(1) _ ev]) simp
  note inv0 = steps_inv [OF assms(1) st]
  have room: "unat (next_instrument_id (ctl_shared c0)) + length others < 2 ^ 32"
    using st assms(2) by (simp add: steps_def evolves_def)
  note due1 = run_due [OF inv0 room run assms(4) due [OF ev]]
  show ?thesis by (rule due_sent [OF run_evolves(1) [OF inv0 room run] assms(6,5) due1])
qed

end

interpretation account_published: published_table accounts publish_by_account account_position rls_account
  by unfold_locales (rule account_due_message)

interpretation user_published: published_table users publish_by_user user_position rls_user
  by unfold_locales (rule user_due_message)

fun send_of :: "emitted \<Rightarrow> (risk_limits \<times> u8) option" where
  "send_of (Send rls source) = Some (rls, source)"
| "send_of (Web k out) = None"

lemma map_filter_append: "List.map_filter f (xs @ ys) = List.map_filter f xs @ List.map_filter f ys"
  by (simp add: List.map_filter_def)

lemma map_filter_Web: "\<forall>out \<in> set outs. \<exists>k w. out = Web k w \<Longrightarrow> List.map_filter send_of outs = []"
  by (induction outs) (auto simp: List.map_filter_simps)

lemma all_messages_source: "out \<in> set (all_messages source state s) \<Longrightarrow> \<exists>rls. out = Send rls source"
  by (auto simp: all_messages_def account_message_def user_message_def Let_def split: if_splits)

text \<open>
  C9: A timer event that ends without an error sends the risk limits of all marked positions of all
  accounts, then of all users, to the first source that is ready, and to no other source. The publish
  sets are empty afterwards: a timer event that follows sends nothing, to whichever source. Without a
  ready source nothing is sent and everything stays marked.
\<close>

theorem timer_publishes:
  assumes "controller_inv c" "controller_timer env now events c = (None, outs, c')"
    and "controller_timer env now' events' c' = (None, outs', c'')"
  shows "case ready_sources (ctl_state c) [0..<length (ctl_state c)] of
      [] \<Rightarrow> List.map_filter send_of outs = [] \<and> ctl_shared c' = ctl_shared c
    | i # _ \<Rightarrow>
        List.map_filter send_of outs =
          List.map_filter send_of (all_messages (word_of_nat i) (ctl_state c ! i) (ctl_shared c)) \<and>
        (\<forall>rls source. Send rls source \<in> set outs \<longrightarrow> source = word_of_nat i) \<and>
        List.map_filter send_of outs' = []"
proof -
  let ?ready = "ready_sources (ctl_state c) [0..<length (ctl_state c)]"
  from assms(1,2) obtain outs1 outs2 where outs: "outs = outs1 @ outs2" "\<forall>out \<in> set outs1. \<exists>k w. out = Web k w"
    and sent: "case ?ready of [] \<Rightarrow> outs2 = [] \<and> ctl_shared c' = ctl_shared c
      | i # _ \<Rightarrow> outs2 = all_messages (word_of_nat i) (ctl_state c ! i) (ctl_shared c) \<and>
          published (ctl_shared c) (ctl_shared c')"
    and c': "manager_inv (ctl_manager c')" "ctl_state c' = ctl_state c"
    by (cases rule: timer_cases) auto
  show ?thesis
  proof (cases ?ready)
    case Nil
    with outs sent show ?thesis by (simp add: map_filter_Web)
  next
    case (Cons i "is")
    with sent have i: "outs2 = all_messages (word_of_nat i) (ctl_state c ! i) (ctl_shared c)"
      "published (ctl_shared c) (ctl_shared c')" by simp_all
    have inv: "controller_inv c'"
      using assms(1) c' evolvesD(1) [OF published_evolves(1) [OF i(2)]] by (simp add: controller_inv_def)
    from inv assms(3) have "List.map_filter send_of outs' = []"
      by (cases rule: timer_cases) (simp_all add: c'(2) Cons published_twice(1) [OF i(2)] map_filter_Web)
    moreover have "source = word_of_nat i" if "Send rls source \<in> set outs" for rls source
      using that outs all_messages_source [of "Send rls source" "word_of_nat i"] i(1) by auto
    ultimately show ?thesis using outs i(1) Cons by (simp add: map_filter_Web map_filter_append)
  qed
qed

text \<open>Two sources, both of them ready.\<close>

definition sample_live :: "(unit, unit, unit) controller" where
  "sample_live = sample_controller\<lparr>ctl_state := replicate 2 (default_state\<lparr>st_ready := True\<rparr>)\<rparr>"

lemma sample_live_inv: "controller_inv sample_live" "next_instrument_id (ctl_shared sample_live) = 0"
  "map_of (accounts (ctl_shared sample_live)) ''A1'' = Some (group_new ''A1'')"
  "map_of (users (ctl_shared sample_live)) ''trader'' = Some (group_new ''trader'')"
  "ctl_last_exchange_time_utc sample_live = 0" "length (ctl_state sample_live) = 2"
  using sample_controller_inv sample_account sample_user
  by (simp_all add: sample_live_def controller_inv_def) (simp add: sample_controller_def)

lemma quiet_timer:
  obtains outs s where "controller_timer env now [] c =
    (None, outs, c\<lparr>ctl_manager := manager_timer now (ctl_manager c), ctl_shared := s\<rparr>)"
  by (simp add: controller_timer_def Let_def split_beta)

lemma sample_live_ready: "ready_sources (ctl_state sample_live) [0..<length (ctl_state sample_live)] = [0, 1]"
  by (simp add: ready_sources_def sample_live_def upt_rec)

theorem timer_publishes_witness:
  "\<exists>outs c' outs' c''. controller_timer (sample_env sample_session) 1 [] sample_live = (None, outs, c') \<and>
     controller_timer (sample_env sample_session) 2 [] c' = (None, outs', c'') \<and>
     List.map_filter send_of outs' = []"
proof -
  let ?timer = "controller_timer (sample_env sample_session)"
  obtain outs s where 1: "?timer 1 [] sample_live =
      (None, outs, sample_live\<lparr>ctl_manager := manager_timer 1 (ctl_manager sample_live), ctl_shared := s\<rparr>)"
    by (rule quiet_timer)
  let ?c = "sample_live\<lparr>ctl_manager := manager_timer 1 (ctl_manager sample_live), ctl_shared := s\<rparr>"
  obtain outs' s' where 2: "?timer 2 [] ?c =
      (None, outs', ?c\<lparr>ctl_manager := manager_timer 2 (ctl_manager ?c), ctl_shared := s'\<rparr>)"
    by (rule quiet_timer)
  from timer_publishes [OF sample_live_inv(1) 1 2, unfolded sample_live_ready] 1 2 show ?thesis
    unfolding list.case by blast
qed

section \<open>Fills\<close>

lemma trade_makes_due:
  assumes "shared_inv s" "unat (next_instrument_id s) < 2 ^ 32 - 1"
  shows "map_of (accounts s) (tu_account tu) \<noteq> None \<Longrightarrow>
      account_due (apply_trade api tu s) (tu_account tu) (tu_exchange tu) (tu_symbol tu)"
    "map_of (users s) (tu_user tu) \<noteq> None \<Longrightarrow>
      user_due (apply_trade api tu s) (tu_user tu) (tu_exchange tu) (tu_symbol tu)"
proof -
  let ?e = "tu_exchange tu" and ?y = "tu_symbol tu"
  let ?s1 = "snd (get_account (tu_account tu) (account_trade_update api (account_handler api) tu) s)"
  note room = room_below [OF assms(2), of ?e ?y]
  note a = account_trade_update_shared [where k = "tu_account tu" and api = api, OF assms(1) room refl]
    and ae = account_trade_update_effect [where k = "tu_account tu" and api = api, OF assms(1) room refl]
  show "account_due (apply_trade api tu s) (tu_account tu) ?e ?y" if tracked: "map_of (accounts s) (tu_account tu) \<noteq> None"
  proof -
    obtain g where g: "map_of (accounts s) (tu_account tu) = Some g" using tracked by blast
    have name: "grp_name g = tu_account tu" using shared_invD(5) [OF assms(1)] g by (simp add: groups_ok_def)
    obtain ins s0 where get: "get_instrument api ?e ?y s = (ins, s0)" by fastforce
    note known = get_instrument_registry(2) [OF shared_inv_registry [OF assms(1)] room get]
    have "account_due ?s1 (tu_account tu) ?e ?y"
      unfolding due_in_def using g name get known
      by (intro exI [of _ "ins_id ins"])
        (simp add: get_account_def account_visits group_dispatch_def handler_simps group_get_position_def
          publish_account_instrument_def Let_def)
    then show ?thesis unfolding apply_trade_def by (rule account_marks.trade_update_due(2) [OF a(1,2)])
  qed
  show "user_due (apply_trade api tu s) (tu_user tu) ?e ?y" if tracked: "map_of (users s) (tu_user tu) \<noteq> None"
  proof -
    obtain g where g: "map_of (users ?s1) (tu_user tu) = Some g" using tracked ae(2) by auto
    have name: "grp_name g = tu_user tu" using shared_invD(6) [OF a(1)] g by (simp add: groups_ok_def)
    obtain ins s0 where get: "get_instrument api ?e ?y ?s1 = (ins, s0)" by fastforce
    note known = get_instrument_registry(2) [OF shared_inv_registry [OF a(1)] a(2) get]
    show ?thesis
      unfolding due_in_def apply_trade_def using g name get known
      by (intro exI [of _ "ins_id ins"])
        (simp add: get_user_def user_visits group_dispatch_def handler_simps group_get_position_def
          publish_user_instrument_def Let_def)
  qed
qed

text \<open>
  C3: Every fill reaches the gateway. After a trade update that is newer than the start-up time, and
  whatever events follow before the next timer event, that timer event sends the positions of the
  tracked account and of the tracked user in the traded instrument, as they are by then and with their
  limits, to the first ready source, in messages for the account and for the user under the session of
  that source.
\<close>

theorem fill_reaches_gateway:
  assumes "controller_inv c" "unat (next_instrument_id (ctl_shared c)) + length (TradeUpdate mi tu # others) < 2 ^ 32"
    and "controller_run env (TradeUpdate mi tu # others) c = (None, outs, c1)"
    and "\<forall>ev \<in> set others. \<not> timer_event ev"
    and "ready_sources (ctl_state c1) [0..<length (ctl_state c1)] = i # more_sources"
    and "controller_timer env now events c1 = (None, outs2, c2)"
    and "ctl_last_exchange_time_utc c < tu_create_time_utc tu"
    and "e = tu_exchange tu" "y = tu_symbol tu"
  shows "(map_of (accounts (ctl_shared c)) (tu_account tu) \<noteq> None \<longrightarrow>
      (\<exists>rls. Send rls (word_of_nat i) \<in> set outs2 \<and> rls_account rls = tu_account tu \<and>
        rls_session_id rls = st_session_id (ctl_state c1 ! i) \<and>
        risk_limit_for e y (account_position (ctl_shared c1) (tu_account tu) e y) \<in> set (rls_limits rls))) \<and>
    (map_of (users (ctl_shared c)) (tu_user tu) \<noteq> None \<longrightarrow>
      (\<exists>rls. Send rls (word_of_nat i) \<in> set outs2 \<and> rls_user rls = tu_user tu \<and>
        rls_session_id rls = st_session_id (ctl_state c1 ! i) \<and>
        risk_limit_for e y (user_position (ctl_shared c1) (tu_user tu) e y) \<in> set (rls_limits rls)))"
proof -
  have below: "unat (next_instrument_id (ctl_shared c)) < 2 ^ 32 - 1" using assms(2) by simp
  have inv: "shared_inv (ctl_shared c)" using assms(1) by (simp add: controller_inv_def)
  have sh: "ctl_shared c' = apply_trade (env_api env) tu (ctl_shared c)"
    if "controller_event env (TradeUpdate mi tu) c = (None, outs', c')" for outs' c'
    by (rule event_effect(3) [OF assms(1) below that refl]) (simp add: assms(7))
  show ?thesis
    unfolding assms(8,9)
    by (intro conjI impI account_published.due_run_sent [OF assms(1-6)] user_published.due_run_sent [OF assms(1-6)])
      (simp_all only: sh trade_makes_due [OF inv below] not_False_eq_True)
qed

definition sample_states :: "source_state list" where
  "sample_states =
     [default_state\<lparr>st_ready := True, st_session_id := 7, st_seqno := 3\<rparr>, default_state\<lparr>st_ready := True\<rparr>]"

lemma sample_states_ready: "ready_sources sample_states [0..<length sample_states] = [0, 1]"
  by (simp add: ready_sources_def sample_states_def upt_rec)

lemma sample_live_info: "controller_message_info sample_mi sample_live = Inr (sample_live\<lparr>ctl_state := sample_states\<rparr>)"
  by (simp add: controller_message_info_def state_at_def put_state_def sample_mi_def sample_live_def
      sample_states_def numeral_2_eq_2)

lemma sample_live_trade:
  obtains outs c1 where "controller_run (sample_env sample_session)
      [TradeUpdate sample_mi (sample_trade BUY ''t1'' 5 10), Connected sample_mi] sample_live = (None, outs, c1)"
    "ctl_state c1 = sample_states" "controller_inv c1" "unat (next_instrument_id (ctl_shared c1)) \<le> 2"
    "account_due (ctl_shared c1) ''A1'' ''deribit'' ''BTC-PERPETUAL''"
proof -
  let ?env = "sample_env sample_session" and ?tu = "sample_trade BUY ''t1'' 5 10"
  obtain err outs c1 where ev: "controller_trade_update ?env sample_mi ?tu sample_live = (err, outs, c1)"
    by (metis prod_cases3)
  have ok: "err = None"
    using ev sample_live_info
    by (auto simp: controller_trade_update_def sample_env_def sample_session_def Let_def split: if_splits)
  have new: "ctl_last_exchange_time_utc sample_live < tu_create_time_utc ?tu"
    by (simp add: sample_live_inv sample_trade_def)
  from ev have st: "ctl_state c1 = sample_states"
    and sh: "ctl_shared c1 = apply_trade (env_api ?env) ?tu (ctl_shared sample_live)"
    by (cases rule: trade_update_cases; use sample_live_info new in auto)+
  have run: "controller_run ?env [TradeUpdate sample_mi ?tu, Connected sample_mi] sample_live = (None, outs, c1)"
    using ev ok by (simp add: controller_connected_def)
  have room: "unat (next_instrument_id (ctl_shared sample_live)) +
      length [TradeUpdate sample_mi ?tu, Connected sample_mi] < 2 ^ 32" by (simp add: sample_live_inv)
  note evo = run_evolves [OF sample_live_inv(1) room run]
  have "account_due (ctl_shared c1) (tu_account ?tu) (tu_exchange ?tu) (tu_symbol ?tu)"
    unfolding sh using sample_live_inv by (intro trade_makes_due(1)) (simp_all add: controller_inv_def sample_trade_def)
  then show thesis
    using run st evo sample_live_inv(2) by (intro that [of outs c1]) (auto simp: evolves_def sample_trade_def)
qed

theorem fill_reaches_gateway_witness:
  "\<exists>outs c1 outs2 c2 rls rls'. controller_run (sample_env sample_session)
      [TradeUpdate sample_mi (sample_trade BUY ''t1'' 5 10), Connected sample_mi] sample_live = (None, outs, c1) \<and>
     controller_timer (sample_env sample_session) 1 [] c1 = (None, outs2, c2) \<and>
     Send rls 0 \<in> set outs2 \<and> rls_account rls = ''A1'' \<and> rls_session_id rls = 7 \<and>
     Send rls' 0 \<in> set outs2 \<and> rls_user rls' = ''trader''"
proof -
  let ?env = "sample_env sample_session" and ?tu = "sample_trade BUY ''t1'' 5 10"
  obtain outs c1 where run: "controller_run ?env [TradeUpdate sample_mi ?tu, Connected sample_mi] sample_live = (None, outs, c1)"
    and st: "ctl_state c1 = sample_states"
    by (rule sample_live_trade)
  obtain outs2 s where t: "controller_timer ?env 1 [] c1 =
      (None, outs2, c1\<lparr>ctl_manager := manager_timer 1 (ctl_manager c1), ctl_shared := s\<rparr>)"
    by (rule quiet_timer)
  note ready = sample_states_ready [folded st]
  have "map_of (accounts (ctl_shared sample_live)) (tu_account ?tu) \<noteq> None"
    "map_of (users (ctl_shared sample_live)) (tu_user ?tu) \<noteq> None"
    by (simp_all add: sample_live_inv sample_trade_def)
  moreover have "unat (next_instrument_id (ctl_shared sample_live)) +
      length [TradeUpdate sample_mi ?tu, Connected sample_mi] < 2 ^ 32"
    "ctl_last_exchange_time_utc sample_live < tu_create_time_utc ?tu"
    by (simp_all add: sample_live_inv) (simp add: sample_trade_def)
  note fill_reaches_gateway [OF sample_live_inv(1) this(1) run _ ready t this(2) refl refl]
  ultimately obtain rls rls' where "Send rls 0 \<in> set outs2" "rls_account rls = tu_account ?tu"
    "rls_session_id rls = st_session_id (ctl_state c1 ! 0)" "Send rls' 0 \<in> set outs2" "rls_user rls' = tu_user ?tu"
    by auto
  then show ?thesis using run t by (auto simp: sample_trade_def st sample_states_def)
qed

section \<open>Downloads\<close>

lemma publish_account_due:
  assumes "shared_inv s" "position_at accounts lookup_instrument s k e y \<noteq> None"
  shows "account_due (publish_account k s) k e y"
proof -
  obtain i g p where i: "map_of (accounts s) k = Some g" "known s i = Some (e, y)" "group_get_position i g = Some p"
    using assms(2) account_positions.position_at_iff [OF assms(1), of k e y] by auto
  have "i \<in> set (map fst (instruments s))" using i(2) by (force simp: known_def dest: map_of_SomeD)
  moreover have "known (publish_account k s) = known s" by (simp add: publish_account_def)
  ultimately show ?thesis unfolding due_in_def using i by (intro exI [of _ i]) (auto simp: publish_account_def)
qed

text \<open>
  C10: The first download of an account on a connection publishes everything. After the download of an
  account has ended on a source that has not seen it end before, whatever events follow before the
  next timer event, that timer event sends every position the account has, in whichever instrument, to
  the first ready source.
\<close>

theorem download_publishes_account:
  assumes "controller_inv c" "unat (next_instrument_id (ctl_shared c)) + length (DownloadEnd mi k # others) < 2 ^ 32"
    and "k \<noteq> []" "unat (mi_source mi) < length (ctl_state c)"
    and "k \<notin> set (st_latch_by_account (ctl_state c ! unat (mi_source mi)))"
    and "position_at accounts lookup_instrument (ctl_shared c) k e y \<noteq> None"
    and "controller_run env (DownloadEnd mi k # others) c = (None, outs, c1)"
    and "\<forall>ev \<in> set others. \<not> timer_event ev"
    and "ready_sources (ctl_state c1) [0..<length (ctl_state c1)] = i # more_sources"
    and "controller_timer env now events c1 = (None, outs2, c2)"
    and "p = account_position (ctl_shared c1) k e y"
  shows "\<exists>rls. Send rls (word_of_nat i) \<in> set outs2 \<and> rls_account rls = k \<and>
    rls_session_id rls = st_session_id (ctl_state c1 ! i) \<and> risk_limit_for e y p \<in> set (rls_limits rls)"
  unfolding assms(11)
proof (rule account_published.due_run_sent [OF assms(1,2,7-10)])
  fix outs' c'
  assume "controller_event env (DownloadEnd mi k) c = (None, outs', c')"
  then have "ctl_shared c' = publish_account k (ctl_shared c)"
    using assms(3-5)
    by (auto simp: controller_download_end_def controller_message_info_def state_at_def put_state_def finish_def
        Let_def)
  then show "account_due (ctl_shared c') k e y"
    using publish_account_due [OF _ assms(6)] assms(1) by (simp add: controller_inv_def)
qed

lemma due_position: "shared_inv s \<Longrightarrow> account_due s k e y \<Longrightarrow> position_at accounts lookup_instrument s k e y \<noteq> None"
  using account_positions.position_at_iff [of s k e y] by (auto simp: due_in_def)

definition sample_latched :: "source_state list" where
  "sample_latched = sample_states[0 := (sample_states ! 0)\<lparr>st_latch_by_account := [''A1'']\<rparr>]"

lemma sample_latched_ready: "ready_sources sample_latched [0..<length sample_latched] = [0, 1]"
  by (simp add: ready_sources_def sample_latched_def sample_states_def upt_rec)

lemma sample_download:
  fixes c :: "(unit, unit, unit) controller"
  assumes "ctl_state c = sample_states"
  shows "controller_run (sample_env sample_session) [DownloadEnd sample_mi ''A1'', Connected sample_mi] c =
    (None, [], c\<lparr>ctl_state := sample_latched, ctl_shared := publish_account ''A1'' (ctl_shared c)\<rparr>)"
  using assms
  by (simp add: controller_download_end_def controller_message_info_def state_at_def put_state_def finish_def
      controller_connected_def sample_latched_def sample_states_def sample_mi_def default_state_def Let_def
      emplace_def)

theorem download_publishes_account_witness:
  "\<exists>outs0 c c1 outs2 c2 rls. controller_run (sample_env sample_session)
      [TradeUpdate sample_mi (sample_trade BUY ''t1'' 5 10), Connected sample_mi] sample_live = (None, outs0, c) \<and>
     controller_run (sample_env sample_session)
      [DownloadEnd sample_mi ''A1'', Connected sample_mi] c = (None, [], c1) \<and>
     controller_timer (sample_env sample_session) 1 [] c1 = (None, outs2, c2) \<and>
     Send rls 0 \<in> set outs2 \<and> rls_account rls = ''A1''"
proof -
  let ?env = "sample_env sample_session"
  obtain outs0 c where live: "controller_run ?env
      [TradeUpdate sample_mi (sample_trade BUY ''t1'' 5 10), Connected sample_mi] sample_live = (None, outs0, c)"
    and c: "ctl_state c = sample_states" "controller_inv c"
      "unat (next_instrument_id (ctl_shared c)) \<le> 2" "account_due (ctl_shared c) ''A1'' ''deribit'' ''BTC-PERPETUAL''"
    by (rule sample_live_trade)
  define c1 where "c1 = c\<lparr>ctl_state := sample_latched, ctl_shared := publish_account ''A1'' (ctl_shared c)\<rparr>"
  note run = sample_download [OF c(1), folded c1_def]
  have st: "ready_sources (ctl_state c1) [0..<length (ctl_state c1)] = [0, 1]"
    by (simp add: c1_def sample_latched_ready)
  obtain outs2 s where t: "controller_timer ?env 1 [] c1 =
      (None, outs2, c1\<lparr>ctl_manager := manager_timer 1 (ctl_manager c1), ctl_shared := s\<rparr>)"
    by (rule quiet_timer)
  have pos: "position_at accounts lookup_instrument (ctl_shared c) ''A1'' ''deribit'' ''BTC-PERPETUAL'' \<noteq> None"
    using c(2,4) by (intro due_position) (simp_all add: controller_inv_def)
  have room: "unat (next_instrument_id (ctl_shared c)) +
      length [DownloadEnd sample_mi ''A1'', Connected sample_mi] < 2 ^ 32" using c(3) by simp
  have "''A1'' \<noteq> []" "unat (mi_source sample_mi) < length (ctl_state c)"
    "''A1'' \<notin> set (st_latch_by_account (ctl_state c ! unat (mi_source sample_mi)))"
    "\<forall>ev \<in> set [Connected sample_mi]. \<not> timer_event ev"
    by (simp_all add: c(1) sample_mi_def sample_states_def default_state_def)
  from download_publishes_account [OF c(2) room this(1-3) pos run this(4) st t refl]
  obtain rls where "Send rls 0 \<in> set outs2" "rls_account rls = ''A1''" by auto
  then show ?thesis using live run t by blast
qed

section \<open>Gateways that become ready\<close>

lemma publish_users_step:
  "\<exists>m. snd (get_user n (\<lambda>user s. (user, publish_user (grp_name user) s)) s) = s\<lparr>publish_by_user := m\<rparr>"
proof (cases "map_of (users s) n")
  case None
  then show ?thesis by (intro exI [of _ "publish_by_user s"]) (simp add: get_user_def)
next
  case (Some u)
  then show ?thesis by (simp add: get_user_def publish_user_def update_same) (metis shared.surjective shared.update_convs)
qed

lemma all_users_marked:
  assumes "shared_inv s" "position_at users lookup_instrument s k e y \<noteq> None"
  shows "user_due (get_all_users (\<lambda>user s. (user, publish_user (grp_name user) s)) s) k e y"
proof -
  let ?step = "\<lambda>n s. snd (get_user n (\<lambda>user s. (user, publish_user (grp_name user) s)) s)"
  obtain i g p where i: "map_of (users s) k = Some g" "known s i = Some (e, y)" "group_get_position i g = Some p"
    using assms(2) user_positions.position_at_iff [OF assms(1), of k e y] by auto
  have name: "grp_name g = k" using shared_invD(6) [OF assms(1)] i(1) by (simp add: groups_ok_def)
  have marked: "i \<in> set (map fst (instruments s))" using i(2) by (force simp: known_def dest: map_of_SomeD)
  have only: "\<exists>m. fold ?step names s = s\<lparr>publish_by_user := m\<rparr>" for names and s :: "('a, 'b) shared"
  proof (induction names arbitrary: s)
    case Nil
    show ?case by (intro exI [of _ "publish_by_user s"]) simp
  next
    case (Cons n names)
    obtain m where m: "?step n s = s\<lparr>publish_by_user := m\<rparr>" using publish_users_step by blast
    with Cons.IH [of "s\<lparr>publish_by_user := m\<rparr>"] show ?case by auto
  qed
  obtain before after where names: "map fst (users s) = before @ k # after"
    using i(1) by (metis in_set_conv_decomp map_of_SomeD fst_conv image_eqI list.set_map)
  obtain m where m: "fold ?step before s = s\<lparr>publish_by_user := m\<rparr>" using only by blast
  have "user_due (?step k (s\<lparr>publish_by_user := m\<rparr>)) k e y"
    unfolding due_in_def using i name marked
    by (intro exI [of _ i] exI [of _ g]) (auto simp: get_user_def publish_user_def update_same known_def)
  moreover have "user_due (?step n t) k e y" if "user_due t k e y" for n and t :: "('a, 'b) shared"
    using that by (rule user_marks.frame) (auto simp: get_user_def publish_user_def update_same split: option.splits)
  ultimately have "user_due (fold ?step after (?step k (s\<lparr>publish_by_user := m\<rparr>))) k e y"
    by (intro fold_invariant [where Q = "\<lambda>_. True" and P = "\<lambda>s. user_due s k e y"]) simp_all
  then show ?thesis by (simp add: get_all_users_def names m)
qed

text \<open>
  C11: A gateway that becomes ready is sent everything about the users. When a source that was not
  ready reports that it is, whatever events follow before the next timer event, that timer event sends
  every position every user has, in whichever instrument, to the first ready source.
\<close>

theorem ready_publishes_users:
  assumes "controller_inv c" "unat (next_instrument_id (ctl_shared c)) + length (Ready mi # others) < 2 ^ 32"
    and "unat (mi_source mi) < length (ctl_state c)" "\<not> st_ready (ctl_state c ! unat (mi_source mi))"
    and "position_at users lookup_instrument (ctl_shared c) k e y \<noteq> None"
    and "controller_run env (Ready mi # others) c = (None, outs, c1)"
    and "\<forall>ev \<in> set others. \<not> timer_event ev"
    and "ready_sources (ctl_state c1) [0..<length (ctl_state c1)] = i # more_sources"
    and "controller_timer env now events c1 = (None, outs2, c2)"
    and "p = user_position (ctl_shared c1) k e y"
  shows "\<exists>rls. Send rls (word_of_nat i) \<in> set outs2 \<and> rls_user rls = k \<and>
    rls_session_id rls = st_session_id (ctl_state c1 ! i) \<and> risk_limit_for e y p \<in> set (rls_limits rls)"
  unfolding assms(10)
proof (rule user_published.due_run_sent [OF assms(1,2,6-9)])
  fix outs' c'
  assume "controller_event env (Ready mi) c = (None, outs', c')"
  then have "ctl_shared c' = get_all_users (\<lambda>user s. (user, publish_user (grp_name user) s)) (ctl_shared c)"
    using assms(3,4)
    by (auto simp: controller_ready_def controller_message_info_def state_at_def put_state_def finish_def Let_def)
  then show "user_due (ctl_shared c') k e y"
    using all_users_marked [OF _ assms(5)] assms(1) by (simp add: controller_inv_def)
qed

text \<open>One source, not ready, that has delivered a fill.\<close>

definition sample_waiting :: source_state where
  "sample_waiting = default_state\<lparr>st_session_id := 7, st_seqno := 3\<rparr>"

lemma sample_waiting_trade:
  obtains outs c where "controller_event (sample_env sample_session)
      (TradeUpdate sample_mi (sample_trade BUY ''t1'' 5 10)) sample_controller = (None, outs, c)"
    "ctl_state c = [sample_waiting]" "controller_inv c" "unat (next_instrument_id (ctl_shared c)) \<le> 1"
    "position_at users lookup_instrument (ctl_shared c) ''trader'' ''deribit'' ''BTC-PERPETUAL'' \<noteq> None"
proof -
  let ?env = "sample_env sample_session" and ?tu = "sample_trade BUY ''t1'' 5 10"
  have below: "unat (next_instrument_id (ctl_shared sample_controller)) < 2 ^ 32 - 1" by (simp add: sample_controller_inv)
  have inv: "shared_inv (ctl_shared sample_controller)" using sample_controller_inv by (simp add: controller_inv_def)
  have info: "controller_message_info sample_mi sample_controller = Inr (sample_controller\<lparr>ctl_state := [sample_waiting]\<rparr>)"
    by (simp add: controller_message_info_def state_at_def put_state_def sample_mi_def sample_controller_def sample_waiting_def)
  obtain err outs c where ev: "controller_trade_update ?env sample_mi ?tu sample_controller = (err, outs, c)"
    by (metis prod_cases3)
  then have ok: "controller_event ?env (TradeUpdate sample_mi ?tu) sample_controller = (None, outs, c)"
    using info by (auto simp: controller_trade_update_def sample_env_def sample_session_def Let_def split: if_splits)
  from ev have c: "ctl_state c = [sample_waiting]" "ctl_shared c = apply_trade (env_api ?env) ?tu (ctl_shared sample_controller)"
    by (cases rule: trade_update_cases; use info in \<open>auto simp: sample_controller_def sample_trade_def\<close>)+
  note st = event_effect(1) [OF sample_controller_inv(1) below ok]
  have inv': "controller_inv c" by (rule steps_inv [OF sample_controller_inv(1) st])
  have "user_due (ctl_shared c) (tu_user ?tu) (tu_exchange ?tu) (tu_symbol ?tu)"
    unfolding c(2) by (rule trade_makes_due(2) [OF inv below]) (simp add: sample_user sample_trade_def)
  then have "user_due (ctl_shared c) ''trader'' ''deribit'' ''BTC-PERPETUAL''" by (simp add: sample_trade_def)
  then have "position_at users lookup_instrument (ctl_shared c) ''trader'' ''deribit'' ''BTC-PERPETUAL'' \<noteq> None"
    using inv' user_positions.position_at_iff [of "ctl_shared c"] by (auto simp: due_in_def controller_inv_def)
  with ok c(1) inv' st show thesis by (intro that [of outs c]) (simp_all add: steps_def evolves_def sample_controller_inv)
qed

theorem ready_publishes_users_witness:
  "\<exists>outs0 c outs c1 outs2 c2 rls. controller_event (sample_env sample_session)
      (TradeUpdate sample_mi (sample_trade BUY ''t1'' 5 10)) sample_controller = (None, outs0, c) \<and>
     controller_run (sample_env sample_session) [Ready sample_mi] c = (None, outs, c1) \<and>
     controller_timer (sample_env sample_session) 1 [] c1 = (None, outs2, c2) \<and>
     Send rls 0 \<in> set outs2 \<and> rls_user rls = ''trader''"
proof -
  let ?env = "sample_env sample_session"
  obtain outs0 c where trade: "controller_event ?env (TradeUpdate sample_mi (sample_trade BUY ''t1'' 5 10))
      sample_controller = (None, outs0, c)"
    and c: "ctl_state c = [sample_waiting]" "controller_inv c" "unat (next_instrument_id (ctl_shared c)) \<le> 1"
      "position_at users lookup_instrument (ctl_shared c) ''trader'' ''deribit'' ''BTC-PERPETUAL'' \<noteq> None"
    by (rule sample_waiting_trade)
  obtain s where run: "controller_run ?env [Ready sample_mi] c =
      (None, [], c\<lparr>ctl_state := [sample_waiting\<lparr>st_ready := True\<rparr>], ctl_shared := s\<rparr>)"
    using c(1) by (simp add: controller_ready_def controller_message_info_def state_at_def put_state_def finish_def
        sample_mi_def sample_waiting_def default_state_def Let_def)
  let ?c1 = "c\<lparr>ctl_state := [sample_waiting\<lparr>st_ready := True\<rparr>], ctl_shared := s\<rparr>"
  have ready: "ready_sources (ctl_state ?c1) [0..<length (ctl_state ?c1)] = [0]" by (simp add: ready_sources_def)
  obtain outs2 s2 where t: "controller_timer ?env 1 [] ?c1 =
      (None, outs2, ?c1\<lparr>ctl_manager := manager_timer 1 (ctl_manager ?c1), ctl_shared := s2\<rparr>)"
    by (rule quiet_timer)
  have "unat (mi_source sample_mi) < length (ctl_state c)" "\<not> st_ready (ctl_state c ! unat (mi_source sample_mi))"
    "unat (next_instrument_id (ctl_shared c)) + length [Ready sample_mi] < 2 ^ 32"
    using c(3) by (simp_all add: c(1) sample_mi_def sample_waiting_def default_state_def)
  from ready_publishes_users [OF c(2) this(3,1,2) c(4) run _ ready t refl]
  obtain rls where "Send rls 0 \<in> set outs2" "rls_user rls = ''trader''" by auto
  then show ?thesis using trade run t by blast
qed

end
