(* ===== verification/Controller_Store.thy ===== *)
theory Controller_Store
  imports Controller_Publish Database_Facts
begin

text \<open>
  What the controller stores: the controller as a client of the interface \<open>trade_store\<close>, instantiated
  with the SQLite session.
\<close>

text \<open>What a trade update sends to the subscribers.\<close>

definition broadcast ::
    "('cp, 'cf, 'j, 'db) env \<Rightarrow> ('cp, 'cf, 'db) controller \<Rightarrow> db_trade list \<Rightarrow> (u64 \<times> web_output) list" where
  "broadcast env c trades = concat (map (\<lambda>trade. manager_trade (env_json env) trade (ctl_manager c)) trades)"

lemma trade_update_stores:
  assumes "controller_trade_update env mi tu c = (err, outs, c')" "unat (mi_source mi) < length (ctl_state c)"
    and "ctl_last_exchange_time_utc c < tu_create_time_utc tu"
    and "trades = map (trade_of_fill tu) (tu_fills tu)"
    and "ses_insert_trades (env_session env) trades (ctl_database c) = (e, db)"
  shows "if \<exists>out \<in> set (broadcast env c trades). env_send_throws env out
    then err = None \<and> ctl_database c' = ctl_database c
    else err = (if e = Some UndefinedBehaviour \<or> e = Some FatalError then e else None) \<and>
      ctl_database c' = db \<and> outs = map (\<lambda>(k, out). Web k out) (broadcast env c trades)"
proof -
  obtain c1 where c1: "controller_message_info mi c = Inr c1"
    using assms(2) by (simp add: controller_message_info_def state_at_def)
  note fr = message_info_frame [OF c1]
  let ?sent = "broadcast env c trades" and ?P = "\<lambda>out. \<not> env_send_throws env out"
  let ?c2 = "c1\<lparr>ctl_shared := apply_trade (env_api env) tu (ctl_shared c)\<rparr>"
  let ?outs = "map (\<lambda>(k, out). Web k out) (takeWhile ?P ?sent)"
  have ins: "ses_insert_trades (env_session env) (map (trade_of_fill tu) (tu_fills tu)) (ctl_database c) = (e, db)"
    using assms(5) by (simp add: assms(4))
  have eq: "controller_trade_update env mi tu c =
      (if takeWhile ?P ?sent \<noteq> ?sent then (None, ?outs, ?c2)
       else (if e = Some UndefinedBehaviour \<or> e = Some FatalError then e else None, ?outs, ?c2\<lparr>ctl_database := db\<rparr>))"
    using assms(3) fr ins
    by (simp add: controller_trade_update_def c1 broadcast_def apply_trade_def assms(4) Let_def del: takeWhile_eq_all_conv)
  show ?thesis
  proof (cases "\<exists>out \<in> set ?sent. env_send_throws env out")
    case True
    then have "takeWhile ?P ?sent \<noteq> ?sent" unfolding takeWhile_eq_all_conv by blast
    then have "err = None" "c' = ?c2" using assms(1) unfolding eq by simp_all
    with True fr(3) show ?thesis by simp
  next
    case False
    then have "takeWhile ?P ?sent = ?sent" unfolding takeWhile_eq_all_conv by blast
    with assms(1) False show ?thesis unfolding eq by auto
  qed
qed

lemma trade_of_fill_key:
  assumes "distinct (map fill_external_trade_id fills)"
  shows "distinct (map (trade_key api) (map (trade_of_fill tu) fills))"
proof -
  let ?keys = "map (trade_key api) (map (trade_of_fill tu) fills)"
  have "map (\<lambda>(_, _, _, _, _, _, x, _). x) ?keys = map fill_external_trade_id fills"
    by (simp add: trade_key_def trades_key_def trade_values_def trade_of_fill_def)
  with assms have "distinct (map (\<lambda>(_, _, _, _, _, _, x, _). x) ?keys)" by (simp only:)
  then show ?thesis unfolding distinct_map [of _ ?keys] by (rule conjunct1)
qed

text \<open>
  C4: A trade update is stored as a whole or not at all. While the database is up and the numbers of
  the fills are finite, every fill of an update that is newer than the start-up time is in the table
  afterwards, under its own key, and no other row has changed. The exception: if sending to a single
  web session fails, nothing of the update is stored, although the positions have been updated.
\<close>

theorem trade_persisted:
  assumes "controller_event env (TradeUpdate mi tu) c = (err, outs, c')"
    and "unat (mi_source mi) < length (ctl_state c)" "ctl_last_exchange_time_utc c < tu_create_time_utc tu"
    and "env_session env = sqlite_session api (execute eng)" "engine_up eng (ctl_database c)"
    and "trades = map (trade_of_fill tu) (tu_fills tu)"
    and "\<forall>trade \<in> set trades. storable api trade \<and> fits_row trade"
    and "distinct (map fill_external_trade_id (tu_fills tu))"
  shows "err = None \<and>
    (if \<exists>out \<in> set (broadcast env c trades). env_send_throws env out
     then ctl_database c' = ctl_database c
     else (\<forall>trade \<in> set trades. trades_map (ctl_database c') (trade_key api trade) = Some (stored_row api eng trade)) \<and>
       (\<forall>k. k \<notin> trade_key api ` set trades \<longrightarrow> trades_map (ctl_database c') k = trades_map (ctl_database c) k) \<and>
       outs = map (\<lambda>(k, out). Web k out) (broadcast env c trades))"
proof -
  obtain e db where ins: "ses_insert_trades (sqlite_session api (execute eng)) trades (ctl_database c) = (e, db)"
    by fastforce
  have valid: "\<And>x. x \<in> set trades \<Longrightarrow> storable api x \<and> fits_row x" "\<And>x. x \<in> set trades \<Longrightarrow> storable api x"
    using assms(7) by blast+
  have e: "e = None" using sqlite_store.insert_up [OF valid(1) assms(5) ins] by simp
  note ins = ins [unfolded e]
  have "distinct (map (trade_key api) trades)" unfolding assms(6) by (rule trade_of_fill_key [OF assms(8)])
  note found = sqlite_store.insert_found [OF valid(2) ins this] and keeps = sqlite_store.insert_keeps [OF valid(2) ins]
  have "controller_trade_update env mi tu c = (err, outs, c')" using assms(1) by simp
  note st = trade_update_stores [OF this assms(2,3,6) ins [folded assms(4)]]
  show ?thesis
  proof (cases "\<exists>out \<in> set (broadcast env c trades). env_send_throws env out")
    case True
    from st show ?thesis unfolding if_P [OF True] by simp
  next
    case False
    from st have "err = None" "ctl_database c' = db" "outs = map (\<lambda>(k, out). Web k out) (broadcast env c trades)"
      unfolding if_not_P [OF False] by simp_all
    with found keeps show ?thesis unfolding if_not_P [OF False] by simp
  qed
qed

definition sample_sqlite :: "(unit, unit, string, tables) env" where
  "sample_sqlite = sample_env (sqlite_session sample_api (execute sample_engine))"

definition sample_recorder :: "(unit, unit, tables) controller" where
  "sample_recorder =
     \<lparr>ctl_database = sample_tables, ctl_manager = manager_new [], ctl_shared = shared_from_config sample_config_file,
      ctl_last_exchange_time_utc = 0, ctl_state = [default_state]\<rparr>"

lemma sample_recorder_simps [simp]:
  "env_session sample_sqlite = sqlite_session sample_api (execute sample_engine)"
  "ctl_database sample_recorder = sample_tables" "length (ctl_state sample_recorder) = 1"
  "ctl_last_exchange_time_utc sample_recorder = 0" "broadcast sample_sqlite sample_recorder trades = []"
  by (simp_all add: sample_sqlite_def sample_recorder_def sample_env_def broadcast_def manager_trade_def manager_new_def)

theorem trade_persisted_witness:
  "\<exists>err outs c'. controller_event sample_sqlite (TradeUpdate sample_mi (sample_trade BUY ''t1'' 5 10)) sample_recorder =
       (err, outs, c') \<and>
     trades_map (ctl_database c') (trade_key sample_api (trade_of_fill (sample_trade BUY ''t1'' 5 10) (sample_fill ''t1'' 5))) =
       Some (stored_row sample_api sample_engine (trade_of_fill (sample_trade BUY ''t1'' 5 10) (sample_fill ''t1'' 5)))"
proof -
  let ?tu = "sample_trade BUY ''t1'' 5 10" and ?trade = "trade_of_fill (sample_trade BUY ''t1'' 5 10) (sample_fill ''t1'' 5)"
  obtain err outs c' where ev: "controller_event sample_sqlite (TradeUpdate sample_mi ?tu) sample_recorder = (err, outs, c')"
    by (metis prod_cases3)
  have fills: "tu_fills ?tu = [sample_fill ''t1'' 5]" by (simp add: sample_trade_def)
  have "storable sample_api ?trade \<and> fits_row ?trade"
    by (simp add: storable_def fits_row_def trade_values_def trade_of_fill_def sample_trade_def sample_fill_def
        sample_api_def plain_text_def)
  then have ok: "\<forall>trade \<in> set [?trade]. storable sample_api trade \<and> fits_row trade" by simp
  have up: "engine_up sample_engine (ctl_database sample_recorder)" by (simp add: engine_up_def sample_tables_def)
  have "unat (mi_source sample_mi) < length (ctl_state sample_recorder)"
    "ctl_last_exchange_time_utc sample_recorder < tu_create_time_utc ?tu"
    "[?trade] = map (trade_of_fill ?tu) (tu_fills ?tu)" "distinct (map fill_external_trade_id (tu_fills ?tu))"
    by (simp_all add: fills sample_mi_def) (simp add: sample_trade_def)
  from trade_persisted [OF ev this(1,2) sample_recorder_simps(1) up this(3) ok this(4)] ev show ?thesis by simp
qed

end
