(* ===== verification/Database_Queries.thy ===== *)
theory Database_Queries
  imports Database_Facts
begin

text \<open>
  What the queries of the SQLite session return: the three position queries give one row each,
  correct for a table with a single position and a mixture of all positions otherwise; the funds
  query gives the latest row of each account and currency.
  Also the fate of corrections that share a key and of trades without a number.
\<close>

section \<open>Positions\<close>

lemma select_None:
  assumes "plain_sql q" "finite_sql q" "select_rows (execute eng) q decode t = (xs, None)"
  shows "map decode (query_rows eng q t) = map Inr xs"
proof -
  have "tables_exist q t" "eng_failure eng q t = None"
    using assms
    by (auto simp: select_rows_def execute_def refused_def statement_new_def fetch_failure
        split: if_splits option.splits)
  then have "fetch decode \<lparr>stm_next = query_rows eng q t, stm_failure = None, stm_row = []\<rparr> = (xs, None)"
    using assms by (simp add: select_rows_def statement_new_def execute_def)
  then show ?thesis by (rule fetch_None [THEN conjunct2])
qed

lemma query_positions_shape:
  "\<exists>c rest. query_positions eng q t name cols name_cell rows = [cols c @ rest]"
  unfolding query_positions_def Let_def by (auto split: prod.split)

lemma query_positions_single: "\<exists>row. query_positions eng q t name cols name_cell rows = [row]"
  using query_positions_shape by blast

lemma positions_of_session:
  assumes "ses_positions (sqlite_session api (execute eng)) t = (ps, None)"
  obtains u g a where "ps = [u, g, a]" "map decode_position (select_positions_by_user eng t) = [Inr u]"
    "map decode_position (select_positions_by_strategy eng t) = [Inr g]"
    "map decode_position (select_positions_by_account eng t) = [Inr a]"
proof -
  let ?sel = "\<lambda>q. select_rows (execute eng) q decode_position t"
  obtain us gs as where sel: "?sel SELECT_POSITIONS_BY_USER = (us, None)"
    "?sel SELECT_POSITIONS_BY_STRATEGY = (gs, None)" "?sel SELECT_POSITIONS_BY_ACCOUNT = (as, None)"
    "ps = us @ gs @ as"
    using assms
    by (auto simp: sqlite_session_def trades_select_positions_def split: prod.splits option.splits)
  have one: "\<exists>x. xs = [x]" if "map decode_position rows = map Inr xs" "\<exists>row. rows = [row]" for rows xs
    using that by (cases xs) auto
  have "map decode_position (select_positions_by_user eng t) = map Inr us"
    "map decode_position (select_positions_by_strategy eng t) = map Inr gs"
    "map decode_position (select_positions_by_account eng t) = map Inr as"
    using sel(1-3) [THEN select_None [rotated 2]] by simp_all
  moreover from this one have "\<exists>u. us = [u]" "\<exists>g. gs = [g]" "\<exists>a. as = [a]"
    unfolding select_positions_by_user_def select_positions_by_strategy_def
      select_positions_by_account_def
    using query_positions_single by metis+
  ultimately show thesis using sel(4) that by auto
qed

lemma decode_position_fixed:
  "decode_position ([c, SQL_INTEGER 0, SQL_TEXT []] @ rest) = Inr p \<Longrightarrow> dbp_account p = []"
  "decode_position ([SQL_TEXT [], c, SQL_TEXT []] @ rest) = Inr p \<Longrightarrow> dbp_account p = [] \<and> dbp_user p = []"
  "decode_position ([SQL_TEXT [], SQL_INTEGER 0, c] @ rest) = Inr p \<Longrightarrow> dbp_user p = []"
  by (auto simp: decode_position_def bind_result_Inr_iff get_string_def column_def)

lemma positions_names:
  assumes "ses_positions (sqlite_session api (execute eng)) t = (ps, None)"
  obtains u g a where "ps = [u, g, a]" "dbp_account u = []" "dbp_user g = []" "dbp_account g = []" "dbp_user a = []"
proof -
  obtain u g a where ps: "ps = [u, g, a]"
    and rows: "map decode_position (select_positions_by_user eng t) = [Inr u]"
      "map decode_position (select_positions_by_strategy eng t) = [Inr g]"
      "map decode_position (select_positions_by_account eng t) = [Inr a]"
    by (rule positions_of_session [OF assms])
  obtain c1 r1 c2 r2 c3 r3 where shapes:
    "select_positions_by_user eng t = [[c1, SQL_INTEGER 0, SQL_TEXT []] @ r1]"
    "select_positions_by_strategy eng t = [[SQL_TEXT [], c2, SQL_TEXT []] @ r2]"
    "select_positions_by_account eng t = [[SQL_TEXT [], SQL_INTEGER 0, c3] @ r3]"
    unfolding select_positions_by_user_def select_positions_by_strategy_def
      select_positions_by_account_def
    using query_positions_shape by meson
  have "decode_position ([c1, SQL_INTEGER 0, SQL_TEXT []] @ r1) = Inr u"
    "decode_position ([SQL_TEXT [], c2, SQL_TEXT []] @ r2) = Inr g"
    "decode_position ([SQL_TEXT [], SQL_INTEGER 0, c3] @ r3) = Inr a"
    using rows unfolding shapes by simp_all
  from decode_position_fixed(1) [OF this(1)] decode_position_fixed(2) [OF this(2)]
    decode_position_fixed(3) [OF this(3)] ps
  show thesis by (intro that [of u g a]) simp_all
qed

text \<open>
  C33: The positions the database reports to the program are exactly three, whatever the table
  holds: one with at most a user, one with neither, one with at most an account. The positions of
  several users or accounts are not reported one by one.
\<close>

theorem positions_one_row_per_query:
  assumes "ses_positions (sqlite_session api (execute eng)) t = (ps, None)"
  shows "\<exists>u g a. ps = [u, g, a] \<and> dbp_account u = [] \<and> dbp_user g = [] \<and> dbp_account g = [] \<and>
    dbp_user a = []"
  using positions_names [OF assms] by metis

lemma remdups_const: "\<forall>x \<in> set xs. x = k \<Longrightarrow> remdups xs = (if xs = [] then [] else [k])"
proof (induction xs)
  case (Cons x xs)
  then show ?case by (cases xs) auto
qed simp

lemma side_groups_Nil: "filter (\<lambda>r. trw_side r = side) rows = [] \<Longrightarrow> side_groups eng name side rows = []"
  by (simp add: side_groups_def)

lemma side_groups_single:
  assumes "\<forall>r \<in> set rows. position_key name r = k" "g = filter (\<lambda>r. trw_side r = side) rows" "g \<noteq> []"
  shows "side_groups eng name side rows =
    [(k, eng_sum eng (map trw_quantity g), Max (set (map trw_exchange_time_utc g)))]"
proof -
  have keys: "\<forall>r \<in> set g. position_key name r = k" using assms(1,2) by auto
  then have "remdups (map (position_key name) g) = [k]" using assms(3) by (subst remdups_const) auto
  moreover have "filter (\<lambda>r. position_key name r = k) g = g" using keys by (simp add: filter_id_conv)
  moreover have "{r \<in> set g. position_key name r = k} = set g" using keys by auto
  ultimately show ?thesis by (simp add: side_groups_def Let_def assms(2) [symmetric])
qed

lemma decode_account_row:
  "decode_position [SQL_TEXT [], SQL_INTEGER 0, SQL_TEXT a, SQL_TEXT e, SQL_TEXT y,
     real_cell l, real_cell s, SQL_INTEGER time] =
   Inr \<lparr>dbp_user = [], dbp_strategy_id = 0, dbp_account = a, dbp_exchange = e, dbp_symbol = y,
        dbp_long_quantity = l, dbp_short_quantity = s, dbp_exchange_time_utc = time\<rparr>"
  by (cases l; cases s) (simp_all add: decode_position_def get_defs real_cell_def isnan_def)

text \<open>
  Where the table holds the trades of a single account in a single instrument, at least one of them a
  buy, the account position is right: the bought quantity long, the sold quantity short, and the time
  of the latest trade.
\<close>

lemma single_account_position:
  assumes "ses_positions (sqlite_session api (execute eng)) t = (ps, None)"
    and "\<forall>r \<in> set (trades_of t). trw_account r = a \<and> trw_exchange r = e \<and> trw_symbol r = y"
    and "buys = filter (\<lambda>r. trw_side r = ''BUY'') (trades_of t)" "buys \<noteq> []"
    and "sells = filter (\<lambda>r. trw_side r = ''SELL'') (trades_of t)"
  shows "ps ! 2 = \<lparr>dbp_user = [], dbp_strategy_id = 0, dbp_account = a, dbp_exchange = e, dbp_symbol = y,
    dbp_long_quantity = eng_sum eng [eng_sum eng (map trw_quantity buys)],
    dbp_short_quantity =
      eng_sum eng [if sells = [] then zero_double else eng_sum eng (map trw_quantity sells)],
    dbp_exchange_time_utc = max (Max (set (map trw_exchange_time_utc buys)))
      (if sells = [] then 0 else Max (set (map trw_exchange_time_utc sells)))\<rparr>"
proof -
  obtain u g p where ps: "ps = [u, g, p]"
    and "map decode_position (select_positions_by_user eng t) = [Inr u]"
      "map decode_position (select_positions_by_strategy eng t) = [Inr g]"
    and row: "map decode_position (select_positions_by_account eng t) = [Inr p]"
    by (rule positions_of_session [OF assms(1)])
  have keys: "\<forall>r \<in> set (trades_of t). position_key trw_account r = (a, e, y)"
    using assms(2) by (simp add: position_key_def)
  note t1 = side_groups_single [OF keys assms(3,4), of eng]
  have "select_positions_by_account eng t =
    [[SQL_TEXT [], SQL_INTEGER 0, SQL_TEXT a, SQL_TEXT e, SQL_TEXT y,
      real_cell (eng_sum eng [eng_sum eng (map trw_quantity buys)]),
      real_cell (eng_sum eng [if sells = [] then zero_double else eng_sum eng (map trw_quantity sells)]),
      SQL_INTEGER (max (Max (set (map trw_exchange_time_utc buys)))
        (if sells = [] then 0 else Max (set (map trw_exchange_time_utc sells))))]]"
  proof (cases "sells = []")
    case True
    then have "side_groups eng trw_account ''SELL'' (trades_of t) = []"
      using assms(5) by (intro side_groups_Nil) simp
    with True t1 show ?thesis
      by (simp add: select_positions_by_account_def query_positions_def full_outer_join_def
          bare_row_def coalesce_quantity_def coalesce_time_def)
  next
    case False
    note t2 = side_groups_single [OF keys assms(5) False, of eng]
    from False t1 t2 show ?thesis
      by (simp add: select_positions_by_account_def query_positions_def full_outer_join_def
          bare_row_def coalesce_quantity_def coalesce_time_def)
  qed
  with row have "Inr p = decode_position [SQL_TEXT [], SQL_INTEGER 0, SQL_TEXT a, SQL_TEXT e, SQL_TEXT y,
      real_cell (eng_sum eng [eng_sum eng (map trw_quantity buys)]),
      real_cell (eng_sum eng [if sells = [] then zero_double else eng_sum eng (map trw_quantity sells)]),
      SQL_INTEGER (max (Max (set (map trw_exchange_time_utc buys)))
        (if sells = [] then 0 else Max (set (map trw_exchange_time_utc sells))))]"
    by simp
  then show ?thesis by (simp add: ps decode_account_row)
qed

section \<open>The position queries succeed\<close>

definition text_cell :: "cell \<Rightarrow> bool" where
  "text_cell c \<longleftrightarrow> c = SQL_NULL \<or> (\<exists>s. c = SQL_TEXT s)"

lemma decode_position_total:
  assumes "text_cell c0" "text_cell c2" "text_cell c3" "text_cell c4"
    and "c1 = SQL_NULL \<or> (\<exists>n. c1 = SQL_INTEGER n \<and> 0 \<le> n \<and> n < 2 ^ 32)"
    and "c5 = SQL_NULL \<or> (\<exists>x. c5 = SQL_FLOAT x)" "c6 = SQL_NULL \<or> (\<exists>x. c6 = SQL_FLOAT x)"
  shows "\<exists>p. decode_position [c0, c1, c2, c3, c4, c5, c6, SQL_INTEGER k] = Inr p"
  using assms by (auto simp: text_cell_def decode_position_def get_defs)

lemma side_groups_key:
  "(k, x) \<in> set (side_groups eng name side rows) \<Longrightarrow> \<exists>r \<in> set rows. k = position_key name r"
  by (auto simp: side_groups_def Let_def)

lemma bare_row_key:
  assumes "bare_row eng q t (full_outer_join (side_groups eng name s1 rows) t2) = (Some (k, x), y)"
  shows "\<exists>r \<in> set rows. k = position_key name r"
proof -
  let ?joined = "full_outer_join (side_groups eng name s1 rows) t2"
  have "?joined \<noteq> []" using assms by (auto simp: bare_row_def)
  then have "(Some (k, x), y) \<in> set ?joined"
    using assms by (metis bare_row_def length_greater_0_conv mod_less_divisor nth_mem)
  then show ?thesis using side_groups_key by (fastforce simp: full_outer_join_def)
qed

lemma query_positions_cells:
  obtains c e y l s k where "query_positions eng q t name cols name_cell rows = [cols c @ [e, y, l, s, SQL_INTEGER k]]"
    "c = SQL_NULL \<or> (\<exists>r \<in> set rows. c = name_cell (name r))" "text_cell e" "text_cell y"
    "l = SQL_NULL \<or> (\<exists>x. l = SQL_FLOAT x)" "s = SQL_NULL \<or> (\<exists>x. s = SQL_FLOAT x)"
proof -
  let ?joined = "full_outer_join (side_groups eng name ''BUY'' rows) (side_groups eng name ''SELL'' rows)"
  define sum where "sum = (\<lambda>quantities. if ?joined = [] then SQL_NULL else real_cell (eng_sum eng quantities))"
  obtain t1 t2 where bare: "bare_row eng q t ?joined = (t1, t2)" by fastforce
  let ?cells = "case t1 of None \<Rightarrow> (SQL_NULL, SQL_NULL, SQL_NULL)
    | Some ((n, exchange, symbol), _) \<Rightarrow> (name_cell n, SQL_TEXT exchange, SQL_TEXT symbol)"
  have sum: "sum xs = SQL_NULL \<or> (\<exists>x. sum xs = SQL_FLOAT x)" for xs
    by (simp add: sum_def real_cell_def)
  have row: "query_positions eng q t name cols name_cell rows = [cols (fst ?cells) @
      [fst (snd ?cells), snd (snd ?cells), sum (map (coalesce_quantity \<circ> fst) ?joined),
       sum (map (coalesce_quantity \<circ> snd) ?joined), SQL_INTEGER (max (coalesce_time t1) (coalesce_time t2))]]"
    unfolding query_positions_def Let_def bare sum_def by simp
  have "fst ?cells = SQL_NULL \<or> (\<exists>r \<in> set rows. fst ?cells = name_cell (name r))"
  proof (cases t1)
    case (Some g)
    obtain n e y x where g: "g = ((n, e, y), x)" by (metis surj_pair)
    from bare_row_key [OF bare [unfolded Some g]] show ?thesis
      by (auto simp: Some g position_key_def split: prod.splits)
  qed simp
  moreover have "text_cell (fst (snd ?cells))" "text_cell (snd (snd ?cells))"
    by (auto simp: text_cell_def split: option.split)
  ultimately show thesis using that [OF row] sum by blast
qed

lemma query_positions_decode:
  assumes "\<And>c e y l s k. c = SQL_NULL \<or> (\<exists>r \<in> set rows. c = name_cell (name r)) \<Longrightarrow> text_cell e \<Longrightarrow>
    text_cell y \<Longrightarrow> l = SQL_NULL \<or> (\<exists>x. l = SQL_FLOAT x) \<Longrightarrow> s = SQL_NULL \<or> (\<exists>x. s = SQL_FLOAT x) \<Longrightarrow>
    \<exists>p. decode_position (cols c @ [e, y, l, s, SQL_INTEGER k]) = Inr p"
  shows "\<forall>row \<in> set (query_positions eng q t name cols name_cell rows).
    decode_position row = Inr (projr (decode_position row))"
proof (rule query_positions_cells [of eng q t name cols name_cell rows], goal_cases)
  case (1 c e y l s k)
  from assms [OF 1(2-6), of k] 1(1) show ?case by auto
qed

lemma positions_decode:
  "\<forall>row \<in> set (select_positions_by_user eng t). decode_position row = Inr (projr (decode_position row))"
  "\<forall>row \<in> set (select_positions_by_account eng t). decode_position row = Inr (projr (decode_position row))"
  "\<forall>r \<in> set (trades_of t). trw_strategy_id r < 2 ^ 32 \<Longrightarrow>
   \<forall>row \<in> set (select_positions_by_strategy eng t). decode_position row = Inr (projr (decode_position row))"
  unfolding select_positions_by_user_def select_positions_by_strategy_def select_positions_by_account_def
  by (rule query_positions_decode, simp, rule decode_position_total; auto simp: text_cell_def)+

lemma ses_positions_total:
  assumes "\<And>q. eng_failure eng q t = None" "tbl_trades t \<noteq> None"
    and "\<forall>r \<in> set (trades_of t). trw_strategy_id r < 2 ^ 32"
  shows "\<exists>ps. ses_positions (sqlite_session api (execute eng)) t = (ps, None)"
proof -
  have ok: "select_rows (execute eng) q decode_position t =
      (map (projr \<circ> decode_position) (query_rows eng q t), None)"
    if "q \<in> {SELECT_POSITIONS_BY_USER, SELECT_POSITIONS_BY_STRATEGY, SELECT_POSITIONS_BY_ACCOUNT}" for q
    by (rule sqlite_select_ok)
      (use that assms positions_decode(1,2) [where t = t and eng = eng] positions_decode(3) [OF assms(3), of eng]
        in auto)
  obtain us gs as where "select_rows (execute eng) SELECT_POSITIONS_BY_USER decode_position t = (us, None)"
    "select_rows (execute eng) SELECT_POSITIONS_BY_STRATEGY decode_position t = (gs, None)"
    "select_rows (execute eng) SELECT_POSITIONS_BY_ACCOUNT decode_position t = (as, None)"
    using ok by blast
  then show ?thesis by (simp add: sqlite_session_def trades_select_positions_def)
qed

definition sample_positions_tables :: tables where
  "sample_positions_tables =
     \<lparr>tbl_trades = Some (map (stored_row sample_api sample_engine)
        [sample_db_trade ''A1'' BUY ''t1'' 5 10, sample_db_trade ''A2'' BUY ''t2'' 7 11]),
      tbl_funds = Some []\<rparr>"

theorem positions_one_row_per_query_witness:
  "\<exists>ps. ses_positions (sqlite_session sample_api (execute sample_engine)) sample_positions_tables =
      (ps, None) \<and> length ps = 3"
proof -
  have "\<exists>ps. ses_positions (sqlite_session sample_api (execute sample_engine)) sample_positions_tables = (ps, None)"
    by (rule ses_positions_total)
      (simp_all add: sample_positions_tables_def trades_of_def stored_row_def store_trade_def
        trade_values_def sample_db_trade_def)
  then obtain ps where "ses_positions (sqlite_session sample_api (execute sample_engine))
      sample_positions_tables = (ps, None)" by blast
  with positions_one_row_per_query [OF this] show ?thesis by auto
qed

section \<open>Positions without a buy\<close>

lemma bare_row_no_buys:
  assumes "filter (\<lambda>r. trw_side r = ''BUY'') rows = []"
  shows "fst (bare_row eng q t (full_outer_join (side_groups eng name ''BUY'' rows) t2)) = None"
proof -
  have "full_outer_join (side_groups eng name ''BUY'' rows) t2 = map (\<lambda>row. (None, Some row)) t2"
    by (simp add: side_groups_Nil [OF assms] full_outer_join_def filter_id_conv)
  then show ?thesis by (simp add: bare_row_def)
qed

lemma query_positions_no_buys:
  assumes "filter (\<lambda>r. trw_side r = ''BUY'') rows = []"
  shows "\<exists>rest. query_positions eng q t name cols name_cell rows = [cols SQL_NULL @ rest]"
  using bare_row_no_buys [OF assms, of eng q t name "side_groups eng name ''SELL'' rows"]
  by (auto simp: query_positions_def Let_def split: prod.split)

text \<open>
  C34: Without a single buy in the table every position is reported without a name: the names come
  from the buying side of the join, so a short position is not attributed to its user or account.
\<close>

theorem positions_without_buys_have_no_name:
  assumes "ses_positions (sqlite_session api (execute eng)) t = (ps, None)"
    and "filter (\<lambda>r. trw_side r = ''BUY'') (trades_of t) = []"
  shows "\<forall>p \<in> set ps. dbp_user p = [] \<and> dbp_account p = [] \<and> dbp_strategy_id p = 0"
proof -
  obtain u g a where ps: "ps = [u, g, a]"
    and rows: "map decode_position (select_positions_by_user eng t) = [Inr u]"
      "map decode_position (select_positions_by_strategy eng t) = [Inr g]"
      "map decode_position (select_positions_by_account eng t) = [Inr a]"
    by (rule positions_of_session [OF assms(1)])
  have nb: "filter (\<lambda>r. trw_side r = ''BUY'') (filter (\<lambda>r. trw_strategy_id r > 0) (trades_of t)) = []"
    using assms(2) by (auto simp: filter_empty_conv)
  obtain r1 where "select_positions_by_user eng t = [[SQL_NULL, SQL_INTEGER 0, SQL_TEXT []] @ r1]"
    using query_positions_no_buys [OF assms(2), of eng SELECT_POSITIONS_BY_USER t trw_user
        "\<lambda>user. [user, SQL_INTEGER 0, SQL_TEXT []]" SQL_TEXT]
    by (auto simp: select_positions_by_user_def)
  moreover obtain r2 where "select_positions_by_strategy eng t = [[SQL_TEXT [], SQL_NULL, SQL_TEXT []] @ r2]"
    using query_positions_no_buys [OF nb, of eng SELECT_POSITIONS_BY_STRATEGY t trw_strategy_id
        "\<lambda>strategy_id. [SQL_TEXT [], strategy_id, SQL_TEXT []]" SQL_INTEGER]
    by (auto simp: select_positions_by_strategy_def)
  moreover obtain r3 where "select_positions_by_account eng t = [[SQL_TEXT [], SQL_INTEGER 0, SQL_NULL] @ r3]"
    using query_positions_no_buys [OF assms(2), of eng SELECT_POSITIONS_BY_ACCOUNT t trw_account
        "\<lambda>account. [SQL_TEXT [], SQL_INTEGER 0, account]" SQL_TEXT]
    by (auto simp: select_positions_by_account_def)
  ultimately have "decode_position ([SQL_NULL, SQL_INTEGER 0, SQL_TEXT []] @ r1) = Inr u"
    "decode_position ([SQL_TEXT [], SQL_NULL, SQL_TEXT []] @ r2) = Inr g"
    "decode_position ([SQL_TEXT [], SQL_INTEGER 0, SQL_NULL] @ r3) = Inr a"
    using rows by simp_all
  then show ?thesis
    by (auto simp: ps decode_position_def bind_result_Inr_iff get_string_def get_uint32_def column_def)
qed

theorem positions_without_buys_have_no_name_witness:
  "\<exists>ps. ses_positions (sqlite_session sample_api (execute sample_engine))
      \<lparr>tbl_trades = Some [stored_row sample_api sample_engine (sample_db_trade ''A1'' SELL ''t1'' 5 10)],
       tbl_funds = Some []\<rparr> = (ps, None) \<and> (\<forall>p \<in> set ps. dbp_account p = [])"
proof -
  let ?t = "\<lparr>tbl_trades = Some [stored_row sample_api sample_engine (sample_db_trade ''A1'' SELL ''t1'' 5 10)],
    tbl_funds = Some []\<rparr>"
  note row = stored_row_def store_trade_def trade_values_def sample_db_trade_def sample_api_def trades_of_def
  have "\<exists>ps. ses_positions (sqlite_session sample_api (execute sample_engine)) ?t = (ps, None)"
    by (rule ses_positions_total) (simp_all add: row)
  then obtain ps where ps: "ses_positions (sqlite_session sample_api (execute sample_engine)) ?t = (ps, None)"
    by blast
  have "filter (\<lambda>r. trw_side r = ''BUY'') (trades_of ?t) = []" by (simp add: row)
  from positions_without_buys_have_no_name [OF ps this] ps show ?thesis by blast
qed

section \<open>Corrections and numbers\<close>

text \<open>
  C35: Corrections of one request that agree in user, strategy, account, exchange and symbol and
  carry no time share the time of the request and the empty trade id, hence the primary key: only
  the last of them is kept.
\<close>

theorem corrections_collide:
  assumes "\<forall>c \<in> set cs. storable_correction api now c \<and> dbc_exchange_time_utc c = 0 \<and>
      dbc_user c = u \<and> dbc_strategy_id c = g \<and> dbc_account c = a \<and> dbc_exchange c = e \<and> dbc_symbol c = y"
    and "cs \<noteq> []"
    and "ses_insert_corrections (sqlite_session api (execute eng)) now cs t = (None, t')"
  shows "filter (\<lambda>r. trades_key r = trades_key (correction_values api now (last cs))) (trades_of t') =
      [store_trade eng (correction_values api now (last cs))] \<and>
    length (trades_of t') \<le> length (trades_of t) + 1"
proof -
  let ?row = "correction_values api now"
  let ?k = "trades_key (?row (last cs))"
  have key: "trades_key (?row c) = (u, uint g, a, e, y, now, [], type_name MANUAL)" if "c \<in> set cs" for c
    using assms(1) that by (simp add: correction_values_def trades_key_def)
  have "trades_of t' = filter (\<lambda>r. trades_key r \<noteq> ?k) (trades_of t) @ [store_trade eng (?row (last cs))]"
    if "insert_all (execute eng) (\<lambda>c. INSERT_TRADES (?row c)) xs t = (None, t')" "xs \<noteq> []"
      "set xs \<subseteq> set cs" "last xs = last cs" for xs t
    using that
  proof (induction xs arbitrary: t)
    case (Cons c xs)
    let ?t1 = "update_tables eng (INSERT_TRADES (?row c)) t"
    have plain: "plain_sql (INSERT_TRADES (?row c))"
      using assms(1) Cons.prems(3) by (simp add: storable_correction_def)
    have rest: "insert_all (execute eng) (\<lambda>c. INSERT_TRADES (?row c)) xs ?t1 = (None, t')"
      using Cons.prems(1) step_once_execute [OF plain, of eng t]
      by (auto split: if_splits simp del: update_tables.simps plain_sql.simps)
    have k: "trades_key (?row c) = ?k" using key Cons.prems(3) assms(2) by simp
    have t1: "trades_of ?t1 = filter (\<lambda>r. trades_key r \<noteq> ?k) (trades_of t) @ [store_trade eng (?row c)]"
      by (simp add: insert_or_replace_def k del: update_tables.simps)
    show ?case
    proof (cases "xs = []")
      case True
      with rest Cons.prems(4) t1 show ?thesis by simp
    next
      case False
      then have "trades_of t' = filter (\<lambda>r. trades_key r \<noteq> ?k) (trades_of ?t1) @ [store_trade eng (?row (last cs))]"
        using Cons.prems by (intro Cons.IH [OF rest]) auto
      then show ?thesis unfolding t1 by (simp add: k)
    qed
  qed simp
  from this [of cs t] assms(2,3) show ?thesis
    by (simp add: sqlite_session_def corrections_insert_def)
qed

definition sample_correction :: "side \<Rightarrow> int \<Rightarrow> db_correction" where
  "sample_correction s n =
     \<lparr>dbc_user = ''trader'', dbc_strategy_id = 0, dbc_account = ''A1'', dbc_exchange = ''deribit'',
      dbc_symbol = ''BTC-PERPETUAL'', dbc_side = s, dbc_quantity = grid one_exp n,
      dbc_price = grid one_exp 100, dbc_exchange_time_utc = 0, dbc_reason = ''fix''\<rparr>"

theorem corrections_collide_witness:
  "\<exists>t'. ses_insert_corrections (sqlite_session sample_api (execute sample_engine)) 77
      [sample_correction BUY 5, sample_correction SELL 3] sample_tables = (None, t') \<and>
     length (trades_of t') \<le> 1"
proof -
  let ?ses = "sqlite_session sample_api (execute sample_engine)"
  let ?cs = "[sample_correction BUY 5, sample_correction SELL 3]"
  have plain: "\<forall>c \<in> set ?cs. storable_correction sample_api 77 c \<and> dbc_exchange_time_utc c = 0 \<and>
      dbc_user c = ''trader'' \<and> dbc_strategy_id c = 0 \<and> dbc_account c = ''A1'' \<and>
      dbc_exchange c = ''deribit'' \<and> dbc_symbol c = ''BTC-PERPETUAL''"
    by (simp add: sample_correction_def storable_correction_def correction_values_def sample_api_def
        plain_text_def)
  have step: "step_once (execute sample_engine) (INSERT_TRADES (correction_values sample_api 77 c)) t =
      (Inr False, update_tables sample_engine (INSERT_TRADES (correction_values sample_api 77 c)) t)"
    if "c \<in> set ?cs" "tbl_trades t \<noteq> None" for c t
  proof -
    have p: "plain_sql (INSERT_TRADES (correction_values sample_api 77 c))"
      using plain that(1) unfolding storable_correction_def by blast
    have f: "finite_sql (INSERT_TRADES (correction_values sample_api 77 c))"
      using that(1) by (auto simp: sample_correction_def correction_values_def)
    show ?thesis using that(2) f by (simp add: step_once_execute [OF p] del: update_tables.simps finite_sql.simps)
  qed
  have "\<exists>t'. ses_insert_corrections ?ses 77 ?cs sample_tables = (None, t')"
    by (simp add: sqlite_session_def corrections_insert_def step sample_tables_def)
  then obtain t' where run: "ses_insert_corrections ?ses 77 ?cs sample_tables = (None, t')" ..
  from corrections_collide [OF plain _ run] run show ?thesis
    by (auto simp: sample_tables_def trades_of_def)
qed

text \<open>
  C36: A trade whose quantity or price is not a number the database can hold (NaN or infinite) is
  refused with an error; the table stays as it is and the rest of the batch is not stored either.
\<close>

theorem trade_without_number_refused:
  assumes "storable api item" "\<not> (is_finite (dbt_quantity item) \<and> is_finite (dbt_price item))"
  shows "ses_insert_trades (sqlite_session api (execute eng)) (item # items) t = (Some RuntimeError, t)"
proof -
  have "\<not> finite_sql (INSERT_TRADES (trade_values api item))"
    using assms(2) by (simp add: trade_values_def)
  then show ?thesis
    using assms(1) step_once_execute [of "INSERT_TRADES (trade_values api item)" eng t]
    by (simp add: sqlite_session_def trades_insert_def storable_def del: plain_sql.simps finite_sql.simps)
qed

theorem trade_without_number_refused_witness:
  "ses_insert_trades (sqlite_session sample_api (execute sample_engine))
     [sample_db_trade ''A1'' BUY ''t1'' 5 10\<lparr>dbt_price := NaN\<rparr>, sample_db_trade ''A1'' BUY ''t2'' 5 11]
     sample_tables = (Some RuntimeError, sample_tables)"
  by (rule trade_without_number_refused)
    (simp_all add: storable_def trade_values_def sample_db_trade_def sample_api_def plain_text_def)

section \<open>Funds\<close>

definition funds_record :: "funds_row \<Rightarrow> db_funds" where
  "funds_record r =
     \<lparr>dbf_account = fnr_account r, dbf_currency = fnr_currency r, dbf_balance = fnr_balance r,
      dbf_hold = fnr_hold r, dbf_exchange_time_utc = fnr_exchange_time_utc r,
      dbf_external_account = fnr_external_account r\<rparr>"

lemma map_of_map_keys: "map_of (map (\<lambda>k. (k, f k)) ks) k = (if k \<in> set ks then Some (f k) else None)"
  by (induction ks) auto

lemma latest_funds_iff:
  fixes rows account currency
  defines "wanted \<equiv> \<lambda>r. (account = [] \<or> fnr_account r = account) \<and> (currency = [] \<or> fnr_currency r = currency)"
  shows "r \<in> set (latest_funds account currency rows) \<longleftrightarrow> r \<in> set rows \<and> wanted r \<and>
    fnr_exchange_time_utc r = Max (fnr_exchange_time_utc `
      {x \<in> set rows. fnr_account x = fnr_account r \<and> fnr_currency x = fnr_currency r})"
proof (cases "r \<in> set rows")
  case True
  let ?key = "\<lambda>r. (fnr_account r, fnr_currency r)"
  let ?max = "\<lambda>k. Max (set (map fnr_exchange_time_utc (filter (\<lambda>r. ?key r = k) (filter wanted rows))))"
  have "r \<in> set (latest_funds account currency rows) \<longleftrightarrow>
      map_of (map (\<lambda>k. (k, ?max k)) (remdups (map ?key (filter wanted rows)))) (?key r) =
        Some (fnr_exchange_time_utc r)"
    using True by (simp add: latest_funds_def Let_def wanted_def)
  also have "\<dots> \<longleftrightarrow> ?key r \<in> ?key ` set (filter wanted rows) \<and> fnr_exchange_time_utc r = ?max (?key r)"
    unfolding map_of_map_keys by auto
  also have "?key r \<in> ?key ` set (filter wanted rows) \<longleftrightarrow> wanted r"
    using True by (auto simp: wanted_def)
  also have "wanted r \<and> fnr_exchange_time_utc r = ?max (?key r) \<longleftrightarrow> wanted r \<and>
      fnr_exchange_time_utc r = Max (fnr_exchange_time_utc `
        {x \<in> set rows. fnr_account x = fnr_account r \<and> fnr_currency x = fnr_currency r})"
  proof (rule conj_cong [OF refl])
    assume "wanted r"
    then have "set (filter (\<lambda>x. ?key x = ?key r) (filter wanted rows)) =
        {x \<in> set rows. fnr_account x = fnr_account r \<and> fnr_currency x = fnr_currency r}"
      by (auto simp: wanted_def)
    then show "fnr_exchange_time_utc r = ?max (?key r) \<longleftrightarrow> fnr_exchange_time_utc r =
        Max (fnr_exchange_time_utc `
          {x \<in> set rows. fnr_account x = fnr_account r \<and> fnr_currency x = fnr_currency r})"
      by (simp only: set_map)
  qed
  finally show ?thesis using True by simp
qed (simp add: latest_funds_def Let_def)

lemma latest_funds_unique:
  assumes "inj_on funds_key (set rows)"
  shows "inj_on (\<lambda>r. (fnr_account r, fnr_currency r)) (set (latest_funds account currency rows))"
proof (rule inj_onI)
  fix r s
  assume "r \<in> set (latest_funds account currency rows)" "s \<in> set (latest_funds account currency rows)"
    and eq: "(fnr_account r, fnr_currency r) = (fnr_account s, fnr_currency s)"
  then have rs: "r \<in> set rows" "s \<in> set rows" "fnr_exchange_time_utc r = fnr_exchange_time_utc s"
    using latest_funds_iff [of r account currency rows] latest_funds_iff [of s account currency rows] by auto
  with eq have "funds_key r = funds_key s" by (simp add: funds_key_def)
  with rs assms show "r = s" by (auto dest: inj_onD)
qed

lemma latest_funds_exists:
  assumes "r \<in> set rows" "account = [] \<or> fnr_account r = account" "currency = [] \<or> fnr_currency r = currency"
  shows "\<exists>m \<in> set (latest_funds account currency rows). fnr_account m = fnr_account r \<and>
    fnr_currency m = fnr_currency r \<and> fnr_exchange_time_utc r \<le> fnr_exchange_time_utc m"
proof -
  let ?group = "{x \<in> set rows. fnr_account x = fnr_account r \<and> fnr_currency x = fnr_currency r}"
  have "Max (fnr_exchange_time_utc ` ?group) \<in> fnr_exchange_time_utc ` ?group"
    using assms(1) by (intro Max_in) auto
  then obtain m where m: "m \<in> ?group" "fnr_exchange_time_utc m = Max (fnr_exchange_time_utc ` ?group)"
    by (metis (no_types, lifting) imageE)
  have "fnr_exchange_time_utc r \<le> fnr_exchange_time_utc m" unfolding m(2) using assms(1) by (intro Max_ge) auto
  moreover have "m \<in> set (latest_funds account currency rows)"
    using m assms(2,3) latest_funds_iff [of m account currency rows] by simp
  ultimately show ?thesis using m(1) by blast
qed

text \<open>
  C30: The funds query returns, for every account and currency asked for, exactly one record: the
  stored one with the latest time.
\<close>

theorem funds_query_latest:
  assumes "keys_unique t" "plain_text account" "plain_text currency"
    and "ses_funds (sqlite_session api (execute eng)) account currency t = (xs, None)"
    and "wanted = (\<lambda>r. (account = [] \<or> fnr_account r = account) \<and> (currency = [] \<or> fnr_currency r = currency))"
  shows "distinct (map (\<lambda>x. (dbf_account x, dbf_currency x)) xs) \<and>
    (\<forall>x \<in> set xs. \<exists>r \<in> set (funds_of t). wanted r \<and> x = funds_record r) \<and>
    (\<forall>r \<in> set (funds_of t). wanted r \<longrightarrow> (\<exists>x \<in> set xs. dbf_account x = fnr_account r \<and>
       dbf_currency x = fnr_currency r \<and> fnr_exchange_time_utc r \<le> dbf_exchange_time_utc x))"
proof -
  let ?rows = "funds_of t" and ?lat = "latest_funds account currency (funds_of t)"
  let ?cells = "\<lambda>r. [SQL_TEXT (fnr_account r), SQL_TEXT (fnr_currency r), SQL_FLOAT (fnr_balance r),
    SQL_FLOAT (fnr_hold r), SQL_INTEGER (fnr_exchange_time_utc r), SQL_TEXT (fnr_external_account r)]"
  let ?sorted = "sort_key fnr_account (sort_key fnr_currency ?lat)"
  have cells: "decode_funds (?cells r) = Inr (funds_record r)" for r
    by (simp add: decode_funds_def get_defs funds_record_def)
  have "map decode_funds (query_rows eng (SELECT_FUNDS account currency) t) = map Inr xs"
    by (rule select_None) (use assms(2-4) in \<open>simp_all add: sqlite_session_def funds_select_def\<close>)
  then have "map (Inr :: _ \<Rightarrow> error + _) (map funds_record ?sorted) = map Inr xs"
    by (simp add: query_funds_def comp_def cells)
  then have xs: "xs = map funds_record ?sorted" by (simp only: inj_map_eq_map [OF inj_Inr])
  note lat = latest_funds_iff [of _ account currency ?rows]
  have inj: "inj_on funds_key (set ?rows)" and "distinct ?rows"
    using assms(1) by (simp_all add: keys_unique_def distinct_map)
  have "inj_on (\<lambda>r. (fnr_account r, fnr_currency r)) (set ?sorted)"
    using latest_funds_unique [OF inj] by simp
  moreover have "distinct ?sorted" using \<open>distinct ?rows\<close> by (simp add: latest_funds_def Let_def)
  ultimately have 1: "distinct (map (\<lambda>x. (dbf_account x, dbf_currency x)) xs)"
    by (simp add: xs distinct_map comp_def funds_record_def)
  have 2: "\<forall>x \<in> set xs. \<exists>r \<in> set ?rows. wanted r \<and> x = funds_record r"
    using lat by (auto simp: xs assms(5))
  have 3: "\<forall>r \<in> set ?rows. wanted r \<longrightarrow> (\<exists>x \<in> set xs. dbf_account x = fnr_account r \<and>
      dbf_currency x = fnr_currency r \<and> fnr_exchange_time_utc r \<le> dbf_exchange_time_utc x)"
    using latest_funds_exists [of _ ?rows account currency] by (force simp: xs funds_record_def assms(5))
  show ?thesis using 1 2 3 by blast
qed

theorem funds_query_latest_witness:
  "\<exists>xs. ses_funds (sqlite_session sample_api (execute sample_engine)) ''A1'' ''BTC''
      \<lparr>tbl_trades = Some [], tbl_funds = Some
         [\<lparr>fnr_account = ''A1'', fnr_currency = ''BTC'', fnr_balance = grid one_exp 1,
           fnr_hold = zero_double, fnr_exchange_time_utc = 10, fnr_external_account = []\<rparr>,
          \<lparr>fnr_account = ''A1'', fnr_currency = ''BTC'', fnr_balance = grid one_exp 2,
           fnr_hold = zero_double, fnr_exchange_time_utc = 20, fnr_external_account = []\<rparr>]\<rparr> = (xs, None) \<and>
     (\<exists>x \<in> set xs. 20 \<le> dbf_exchange_time_utc x)"
proof -
  let ?ses = "sqlite_session sample_api (execute sample_engine)"
  let ?t = "\<lparr>tbl_trades = Some [], tbl_funds = Some
         [\<lparr>fnr_account = ''A1'', fnr_currency = ''BTC'', fnr_balance = grid one_exp 1,
           fnr_hold = zero_double, fnr_exchange_time_utc = 10, fnr_external_account = []\<rparr>,
          \<lparr>fnr_account = ''A1'', fnr_currency = ''BTC'', fnr_balance = grid one_exp 2,
           fnr_hold = zero_double, fnr_exchange_time_utc = 20, fnr_external_account = []\<rparr>]\<rparr> :: tables"
  have plain: "plain_text ''A1''" "plain_text ''BTC''" by (simp_all add: plain_text_def)
  have keys: "keys_unique ?t" by (simp add: keys_unique_def trades_of_def funds_of_def funds_key_def)
  have "select_rows (execute sample_engine) (SELECT_FUNDS ''A1'' ''BTC'') decode_funds ?t =
      (map (projr \<circ> decode_funds) (query_rows sample_engine (SELECT_FUNDS ''A1'' ''BTC'') ?t), None)"
    by (rule sqlite_select_ok) (use plain in \<open>auto simp: query_funds_def decode_funds_def get_defs\<close>)
  then obtain xs where xs: "ses_funds ?ses ''A1'' ''BTC'' ?t = (xs, None)"
    by (simp add: sqlite_session_def funds_select_def)
  from funds_query_latest [OF keys plain xs refl] xs show ?thesis by (auto simp: funds_of_def)
qed

end
