(* ===== verification/Application.thy ===== *)
theory Application
  imports Controller_Store Database_Queries
begin

text \<open>
  Start-up of the program (\<^verbatim>\<open>application.cpp\<close>): reading the configuration file, opening the database
  and constructing the controller, then the events that the client library delivers. Properties that
  span the configuration, the database and the controller: a start with an empty database and a
  restart with a full one.
\<close>

section \<open>Settings\<close>

text \<open>The values of the command line flags (\<^verbatim>\<open>flags/flags.json\<close>).\<close>

record settings =
  set_config_file :: string
  set_db_type :: string
  set_db_params :: string
  set_control_listen_address :: string
  set_control_url_prefix :: string

text \<open>
  The libraries that start-up relies on: TOML, \<^verbatim>\<open>utils::case_insensitive_compare\<close>, and SQLite. The
  optional database backends are not part of the build.
\<close>

record ('v, 'db) host =
  host_toml :: "'v toml_api"
  host_parse_file :: "string \<Rightarrow> 'v toml option"
  host_compare :: "string \<Rightarrow> string \<Rightarrow> int"
  host_sqlite3_open :: "string \<Rightarrow> result_code \<times> 'db"
  host_sqlite3 :: "(sql, 'db) sqlite_library"

section \<open>Start-up\<close>

definition database_create :: "('v, 'db) host \<Rightarrow> string \<Rightarrow> string \<Rightarrow> error + 'db" where
  "database_create host type params =
     bind_result (factory_create (host_compare host) False False type) (\<lambda>_.
     bind_result (connection_new (host_sqlite3_open host) params) (\<lambda>db.
     session_new (host_sqlite3 host) db))"

definition with_sqlite :: "('v, 'db) host \<Rightarrow> ('cp, 'cf, 'j, 'db) env \<Rightarrow> ('cp, 'cf, 'j, 'db) env" where
  "with_sqlite host env = env\<lparr>env_session := sqlite_session (env_api env) (host_sqlite3 host)\<rparr>"

definition application_start ::
    "('cp, 'cf, 'j, 'db) env \<Rightarrow> ('v, 'db) host \<Rightarrow> settings \<Rightarrow> string list \<Rightarrow>
     error + config \<times> ('cp, 'cf, 'db) controller" where
  "application_start env host settings params =
     (if params = [] then Inl FatalError
      else
        bind_result (config_parse_file (host_toml host) (host_parse_file host) (set_config_file settings)) (\<lambda>config.
        bind_result (database_create host (set_db_type settings) (set_db_params settings)) (\<lambda>db.
        bind_result (controller_new (with_sqlite host env) config (set_control_url_prefix settings)
          (length params) db) (\<lambda>c.
        Inr (config, c)))))"

text \<open>
  \<^verbatim>\<open>client::Bridge\<close> constructs the controller, asks the configuration what to subscribe to, and delivers
  the events.
\<close>

definition application_main ::
    "('cp, 'cf, 'j, 'db) env \<Rightarrow> ('v, 'db) host \<Rightarrow> settings \<Rightarrow> string list \<Rightarrow> event list \<Rightarrow>
     error + subscription list \<times> ('cp, 'cf, 'db) handled" where
  "application_main env host settings params events =
     bind_result (application_start env host settings params) (\<lambda>(config, c).
     Inr (config_dispatch config, controller_run (with_sqlite host env) events c))"

section \<open>Creation of the tables\<close>

lemma exec_ok:
  assumes "plain_sql q" "finite_sql q" "query_rows eng q t = []" "tables_exist q t" "eng_failure eng q t = None"
  shows "connection_exec (execute eng) q t = (None, update_tables eng q t)"
  using step_once_execute [OF assms(1,3)] assms(2,4,5) by (simp add: connection_exec_def)

text \<open>The tables are created if they are missing and left alone otherwise.\<close>

lemma session_new_ok:
  assumes "\<forall>q t. eng_failure eng q t = None"
  shows "session_new (execute eng) t = Inr (t\<lparr>tbl_trades := Some (trades_of t), tbl_funds := Some (funds_of t)\<rparr>)"
proof -
  let ?t1 = "t\<lparr>tbl_trades := Some (trades_of t)\<rparr>" and ?t2 = "t\<lparr>tbl_trades := Some (trades_of t), tbl_funds := Some (funds_of t)\<rparr>"
  have 1: "connection_exec (execute eng) CREATE_TRADES t = (None, ?t1)"
    using assms by (subst exec_ok) (simp_all add: trades_of_def split: option.split)
  have 2: "connection_exec (execute eng) CREATE_FUNDS ?t1 = (None, ?t2)"
    using assms by (subst exec_ok) (simp_all add: funds_of_def split: option.split)
  have ix: "connection_exec (execute eng) (CREATE_INDEX ''trades'' col desc) ?t1 = (None, ?t1)"
    "connection_exec (execute eng) (CREATE_INDEX ''funds'' col desc) ?t2 = (None, ?t2)" for col desc
    using assms by (subst exec_ok; simp)+
  show ?thesis by (simp add: session_new_def trades_create_def funds_create_def 1 2 ix)
qed

lemma query_positions_empty:
  "query_positions eng q t name cols cell [] = [cols SQL_NULL @ [SQL_NULL, SQL_NULL, SQL_NULL, SQL_NULL, SQL_INTEGER 0]]"
  by (simp add: query_positions_def side_groups_def full_outer_join_def bare_row_def coalesce_time_def)

lemma empty_positions:
  assumes "\<forall>q t. eng_failure eng q t = None" "tbl_trades t = Some []"
  obtains ps where "ses_positions (sqlite_session api (execute eng)) t = (ps, None)"
    "\<forall>p \<in> set ps. dbp_user p = [] \<and> dbp_account p = [] \<and> dbp_exchange_time_utc p = 0"
proof -
  obtain ps where ps: "ses_positions (sqlite_session api (execute eng)) t = (ps, None)"
    using ses_positions_total [of eng t api] assms by (auto simp: trades_of_def)
  have rows: "trades_of t = []" by (simp add: trades_of_def assms(2))
  obtain u g a where "ps = [u, g, a]" "map decode_position (select_positions_by_user eng t) = [Inr u]"
    "map decode_position (select_positions_by_strategy eng t) = [Inr g]"
    "map decode_position (select_positions_by_account eng t) = [Inr a]"
    by (rule positions_of_session [OF ps])
  then have "\<forall>p \<in> set ps. dbp_user p = [] \<and> dbp_account p = [] \<and> dbp_exchange_time_utc p = 0"
    by (auto simp: select_positions_by_user_def select_positions_by_strategy_def select_positions_by_account_def
        rows query_positions_empty decode_position_def get_defs)
  with ps show thesis by (rule that)
qed

lemma load_nameless:
  assumes "\<forall>p \<in> set ps. dbp_user p = [] \<and> dbp_account p = [] \<and> dbp_exchange_time_utc p = 0"
  shows "fold (load_position api) ps (0, s) = (0, s)"
  using assms by (induction ps) (simp_all add: load_position_def)

section \<open>Starting\<close>

text \<open>The file is a valid configuration, the database opens with the given tables and does not fail.\<close>

definition host_ok :: "('v, tables) host \<Rightarrow> settings \<Rightarrow> engine \<Rightarrow> config \<Rightarrow> tables \<Rightarrow> bool" where
  "host_ok host settings eng config t \<longleftrightarrow>
     config_parse_file (host_toml host) (host_parse_file host) (set_config_file settings) = Inr config \<and>
     host_compare host (set_db_type settings) ''sqlite'' = 0 \<and>
     host_sqlite3_open host (set_db_params settings) = (SQLITE_OK, t) \<and>
     host_sqlite3 host = execute eng \<and> (\<forall>q t. eng_failure eng q t = None)"

lemma start_eq:
  assumes "host_ok host settings eng config t" "params \<noteq> []"
    and "t' = t\<lparr>tbl_trades := Some (trades_of t), tbl_funds := Some (funds_of t)\<rparr>"
    and "ses_positions (sqlite_session (env_api env) (execute eng)) t' = (ps, None)"
    and "fold (load_position (env_api env)) ps (0, shared_from_config config) = (last_time, s)"
  shows "application_start env host settings params = Inr (config,
    \<lparr>ctl_database = t', ctl_manager = manager_new (set_control_url_prefix settings), ctl_shared = s,
     ctl_last_exchange_time_utc = last_time, ctl_state = replicate (length params) default_state\<rparr>)"
proof -
  have "database_create host (set_db_type settings) (set_db_params settings) = Inr t'"
    using assms(1) session_new_ok [of eng t]
    by (simp add: database_create_def factory_create_def connection_new_def host_ok_def assms(3))
  moreover have "env_api (with_sqlite host env) = env_api env"
    "env_session (with_sqlite host env) = sqlite_session (env_api env) (execute eng)"
    using assms(1) by (simp_all add: with_sqlite_def host_ok_def)
  ultimately show ?thesis
    using assms(1,2,4,5) by (simp add: application_start_def host_ok_def controller_new_def load_positions_def)
qed

text \<open>
  C20: A first start, with a valid configuration file, a database file without tables and at least one
  gateway, succeeds: the tables exist and are empty, every account and user of the file is tracked
  without a position, one state per gateway waits for it to become ready, and no trade is too old.
\<close>

theorem first_start:
  assumes "host_ok host settings eng config \<lparr>tbl_trades = None, tbl_funds = None\<rparr>" "params \<noteq> []"
  shows "application_start env host settings params = Inr (config,
    \<lparr>ctl_database = \<lparr>tbl_trades = Some [], tbl_funds = Some []\<rparr>,
     ctl_manager = manager_new (set_control_url_prefix settings), ctl_shared = shared_from_config config,
     ctl_last_exchange_time_utc = 0, ctl_state = replicate (length params) default_state\<rparr>)"
proof -
  let ?t = "\<lparr>tbl_trades = Some [], tbl_funds = Some []\<rparr>"
  obtain ps where ps: "ses_positions (sqlite_session (env_api env) (execute eng)) ?t = (ps, None)"
    "\<forall>p \<in> set ps. dbp_user p = [] \<and> dbp_account p = [] \<and> dbp_exchange_time_utc p = 0"
    by (rule empty_positions [of eng ?t "env_api env"]) (use assms(1) in \<open>simp_all add: host_ok_def\<close>)
  show ?thesis
    by (rule start_eq [OF assms _ ps(1) load_nameless [OF ps(2)]]) (simp add: trades_of_def funds_of_def)
qed

definition sample_settings :: settings where
  "sample_settings =
     \<lparr>set_config_file = ''config.toml'', set_db_type = ''sqlite'', set_db_params = ''risk.sqlite3'',
      set_control_listen_address = ''8080'', set_control_url_prefix = []\<rparr>"

definition sample_host :: "tables \<Rightarrow> (sample_toml, tables) host" where
  "sample_host t =
     \<lparr>host_toml = sample_toml, host_parse_file = (\<lambda>_. Some sample_document),
      host_compare = (\<lambda>a b. if a = b then 0 else 1), host_sqlite3_open = (\<lambda>_. (SQLITE_OK, t)),
      host_sqlite3 = execute sample_engine\<rparr>"

lemma sample_host_ok: "host_ok (sample_host t) sample_settings sample_engine sample_config_file t"
  by (simp add: host_ok_def sample_host_def sample_settings_def config_parse_file_def sample_document_accepted)

theorem first_start_witness:
  "\<exists>c. application_start (sample_env (sqlite_session sample_api (execute sample_engine)))
       (sample_host \<lparr>tbl_trades = None, tbl_funds = None\<rparr>) sample_settings [''gateway''] = Inr (sample_config_file, c) \<and>
     ctl_database c = \<lparr>tbl_trades = Some [], tbl_funds = Some []\<rparr> \<and> ctl_state c = [default_state]"
  by (subst first_start [OF sample_host_ok]) simp_all

section \<open>Restarting\<close>

lemma apply_row_account:
  assumes "shared_inv s" "unat (next_instrument_id s) < 2 ^ 32 - 1" "dbp_user row = []" "dbp_account row \<noteq> []"
    and "map_of (accounts s) (dbp_account row) \<noteq> None"
    and "p = account_position (apply_row api row s) (dbp_account row) (dbp_exchange row) (dbp_symbol row)"
  shows "pos_long_position p = dbp_long_quantity row" "pos_short_position p = dbp_short_quantity row"
proof -
  obtain g where g: "map_of (accounts s) (dbp_account row) = Some g" using assms(5) by blast
  have eq: "apply_row api row s = snd (get_account (dbp_account row) (account_load (account_handler api) row) s)"
    using assms(3,4) by (simp add: apply_row_def load_position_def Let_def)
  obtain ins where "position_at accounts lookup_instrument (apply_row api row s) (dbp_account row)
      (dbp_exchange row) (dbp_symbol row) = Some (position_load row ins
        (account_position s (dbp_account row) (dbp_exchange row) (dbp_symbol row)))"
    by (rule account_load_position [OF assms(1) room_below [OF assms(2)] g eq])
  then have "p = position_load row ins (account_position s (dbp_account row) (dbp_exchange row) (dbp_symbol row))"
    by (simp add: assms(6) account_position_def)
  then show "pos_long_position p = dbp_long_quantity row" "pos_short_position p = dbp_short_quantity row"
    by (simp_all add: position_load_def)
qed

lemma load_three_rows:
  assumes "shared_inv s0" "next_instrument_id s0 = 0" "fold (load_position api) [u, g, p] (0, s0) = (last_time, s)"
    and "dbp_account u = []" "dbp_user p = []" "dbp_account p \<noteq> []" "map_of (accounts s0) (dbp_account p) \<noteq> None"
    and "q = account_position s (dbp_account p) (dbp_exchange p) (dbp_symbol p)"
  shows "pos_long_position q = dbp_long_quantity p" "pos_short_position q = dbp_short_quantity p"
    "dbp_exchange_time_utc p \<le> last_time"
proof -
  define s1 where "s1 = apply_row api g (apply_row api u s0)"
  have s: "s = apply_row api p s1" using assms(3) by (simp add: load_position_eq s1_def)
  have 1: "evolves 1 s0 (apply_row api u s0)" by (rule apply_row_evolves [OF assms(1)]) (simp add: assms(2))
  have 2: "evolves 1 (apply_row api u s0) s1"
    unfolding s1_def by (rule apply_row_evolves [OF evolvesD(1) [OF 1]]) (use evolvesD(2) [OF 1] assms(2) in simp)
  note s1 = evolvesD [OF evolves_trans [OF 1 2]]
  have below: "unat (next_instrument_id s1) < 2 ^ 32 - 1" using s1(2) assms(2) by simp
  have tracked: "map_of (accounts s1) (dbp_account p) \<noteq> None" using tracked_iff [OF s1(5)] assms(7) by simp
  show "pos_long_position q = dbp_long_quantity p" "pos_short_position q = dbp_short_quantity p"
    by (rule apply_row_account [OF s1(1) below assms(5,6) tracked assms(8) [unfolded s]])+
  show "dbp_exchange_time_utc p \<le> last_time" using load_rows(2) [OF assms(1) _ assms(3)] assms(2) by simp
qed



end
