(* ===== verification/Controller_Types.thy ===== *)
theory Controller_Types
  imports Controller_Publish
begin

text \<open>
  What is sent to the gateways, read from the message back: every risk limit shows a current position
  with the limits in force. The types of its numbers, from the configuration file, the database and the
  gateways through the positions to the messages: limits are doubles, positions are doubles that are
  not negative. The last sections show that a fill after a restart makes the controller forget what it
  loaded, and what it means that fills are told apart by identifier alone.
\<close>

section \<open>Typed values\<close>

text \<open>A double that is not below zero; it may be NaN.\<close>

definition amount :: "double \<Rightarrow> bool" where
  "amount x \<longleftrightarrow> wf_double x \<and> \<not> dless x zero_double"

definition typed_position :: "position \<Rightarrow> bool" where
  "typed_position p \<longleftrightarrow>
     wf_double (pos_quantity p) \<and> amount (pos_long_position p) \<and> amount (pos_short_position p) \<and>
     typed_limit (position_limit p) \<and> distinct (pos_fills p)"

definition typed_row :: "db_position \<Rightarrow> bool" where
  "typed_row row \<longleftrightarrow> amount (dbp_long_quantity row) \<and> amount (dbp_short_quantity row)"

definition typed_risk_limit :: "risk_limit \<Rightarrow> bool" where
  "typed_risk_limit rl \<longleftrightarrow>
     amount (rl_long_position rl) \<and> amount (rl_short_position rl) \<and>
     wf_double (rl_long_position_limit rl) \<and> wf_double (rl_short_position_limit rl) \<and>
     wf_double (rl_long_risk_exposure_limit rl) \<and> wf_double (rl_short_risk_exposure_limit rl)"

lemma amount_zero [simp]: "amount zero_double"
  by (simp add: amount_def)

lemma amount_cut: "wf_double q \<Longrightarrow> amount (dmax q zero_double)"
  by (simp add: amount_def dmax_zero_cases)

lemma typed_position_new: "typed_limit l \<Longrightarrow> typed_position (position_new l)"
  by (simp add: typed_position_def) (simp add: position_new_def)

lemma typed_position_fill:
  assumes "typed_position p"
  shows "typed_position (position_fill api sign ins item p)"
proof -
  let ?q = "dadd (pos_quantity p) (dmul (double_of_int sign) (fill_quantity item))"
  have "wf_double ?q" using assms by (simp add: typed_position_def wf_dadd wf_dmul)
  moreover from this have "amount (dmax ?q zero_double)" "amount (dmax (dneg ?q) zero_double)"
    by (simp_all add: amount_cut wf_dneg)
  ultimately show ?thesis
    using assms unfolding typed_position_def position_limit_fill
    by (auto simp: position_fill_def Let_def emplace_def split: if_splits)
qed

lemma typed_position_trade_update:
  assumes "typed_position p"
  shows "typed_position (position_trade_update api tu ins p)"
proof -
  have "typed_position (position_fills_loop api sign ins items p)" for sign items
    using assms by (induction items arbitrary: p) (simp_all add: typed_position_fill)
  then show ?thesis by (simp add: position_trade_update_def)
qed

lemma typed_position_load: "typed_row row \<Longrightarrow> typed_position p \<Longrightarrow> typed_position (position_load row ins p)"
  unfolding typed_position_def position_limit_load by (simp add: position_load_def typed_row_def)

lemma typed_risk_limit_for: "typed_position p \<Longrightarrow> typed_risk_limit (risk_limit_for e y p)"
  by (simp add: typed_position_def typed_risk_limit_def risk_limit_for_def typed_limit_def position_limit_def)

section \<open>All positions of a state\<close>

definition all_positions :: "(position \<Rightarrow> bool) \<Rightarrow> ('cp, 'cf) shared \<Rightarrow> bool" where
  "all_positions P s \<longleftrightarrow>
     (\<forall>k e y. (map_of (accounts s) k \<noteq> None \<longrightarrow> P (account_position s k e y)) \<and>
        (map_of (users s) k \<noteq> None \<longrightarrow> P (user_position s k e y)))"

lemma all_positions_new:
  assumes "s = shared_from_config config"
    and "\<And>k e y. P (position_new (get_limit_by_account s k e y))" "\<And>k e y. P (position_new (get_limit_by_user s k e y))"
  shows "all_positions P s"
proof -
  have "position_at accounts lookup_instrument s k e y = None" "position_at users lookup_instrument s k e y = None" for k e y
    by (simp_all add: position_at_def lookup_instrument_def lookup_id_def assms(1) shared_from_config_def shared_new_def
        find_or_def split: option.split)
  with assms(2,3) show ?thesis by (simp add: all_positions_def account_position_def user_position_def)
qed

lemma load_keeps_positions:
  assumes "shared_inv s" "room s (dbp_exchange row) (dbp_symbol row)" "all_positions P s"
    and load: "\<And>ins p. P p \<Longrightarrow> P (position_load row ins p)"
  shows "all_positions P (snd (get_user k (user_load (user_handler api) row) s))"
    "all_positions P (snd (get_account k (account_load (account_handler api) row) s))"
proof -
  let ?u = "snd (get_user k (user_load (user_handler api) row) s)"
  let ?a = "snd (get_account k (account_load (account_handler api) row) s)"
  let ?e = "dbp_exchange row" and ?y = "dbp_symbol row"
  note ue = user_load_effect [OF assms(1,2) refl, where k = k and api = api]
    and ae = account_load_effect [OF assms(1,2) refl, where k = k and api = api]
  show "all_positions P ?u"
  proof (cases "map_of (users s) k")
    case None
    with assms(3) show ?thesis by (simp add: get_user_def)
  next
    case (Some g)
    obtain ins where "position_at users lookup_instrument ?u k ?e ?y = Some (position_load row ins (user_position s k ?e ?y))"
      "\<forall>k' e' y'. (k', e', y') \<noteq> (k, ?e, ?y) \<longrightarrow> user_position ?u k' e' y' = user_position s k' e' y'"
      by (rule user_load_position [OF assms(1,2) Some refl])
    then have "P (user_position ?u k' e' y')" if "map_of (users s) k' \<noteq> None" for k' e' y'
      using that assms(3) load Some by (cases "(k', e', y') = (k, ?e, ?y)") (auto simp: all_positions_def user_position_def [of ?u])
    then show ?thesis using assms(3) ue tracked_iff [OF ue(5)] by (simp add: all_positions_def)
  qed
  show "all_positions P ?a"
  proof (cases "map_of (accounts s) k")
    case None
    with assms(3) show ?thesis by (simp add: get_account_def)
  next
    case (Some g)
    obtain ins where "position_at accounts lookup_instrument ?a k ?e ?y = Some (position_load row ins (account_position s k ?e ?y))"
      "\<forall>k' e' y'. (k', e', y') \<noteq> (k, ?e, ?y) \<longrightarrow> account_position ?a k' e' y' = account_position s k' e' y'"
      by (rule account_load_position [OF assms(1,2) Some refl])
    then have "P (account_position ?a k' e' y')" if "map_of (accounts s) k' \<noteq> None" for k' e' y'
      using that assms(3) load Some by (cases "(k', e', y') = (k, ?e, ?y)") (auto simp: all_positions_def account_position_def [of ?a])
    then show ?thesis using assms(3) ae tracked_iff [OF ae(5)] by (simp add: all_positions_def)
  qed
qed

lemma apply_row_keeps:
  assumes "shared_inv s" "unat (next_instrument_id s) < 2 ^ 32 - 1" "all_positions P s"
    and load: "\<And>ins p. P p \<Longrightarrow> P (position_load row ins p)"
  shows "all_positions P (apply_row api row s)"
proof -
  let ?e = "dbp_exchange row" and ?y = "dbp_symbol row"
  let ?s1 = "if dbp_user row \<noteq> [] then snd (get_user (dbp_user row) (user_load (user_handler api) row) s) else s"
  note room = room_below [OF assms(2), of ?e ?y]
  have 1: "shared_inv ?s1" "room ?s1 ?e ?y"
    using user_load_shared(1,2) [OF assms(1) room refl, where k = "dbp_user row" and api = api] assms(1) room by auto
  have "all_positions P ?s1" using load_keeps_positions(1) [OF assms(1) room assms(3) load] assms(3) by simp
  from load_keeps_positions(2) [OF 1 this load] this show ?thesis by (simp add: apply_row_def load_position_def Let_def)
qed

lemma load_rows_keep:
  assumes "shared_inv s" "unat (next_instrument_id s) + length rows < 2 ^ 32" "all_positions P s"
    and "\<And>row ins p. row \<in> set rows \<Longrightarrow> P p \<Longrightarrow> P (position_load row ins p)"
  shows "all_positions P (snd (fold (load_position api) rows (t, s)))"
  using assms
proof (induction rows arbitrary: t s)
  case (Cons row rows)
  have le: "unat (next_instrument_id s) < 2 ^ 32 - 1" using Cons.prems(2) by simp
  note ev = apply_row_evolves [OF Cons.prems(1) le, of api row]
  have "all_positions P (apply_row api row s)"
    using Cons.prems(4) by (intro apply_row_keeps Cons.prems(1,3) le) simp
  with Cons.IH [OF evolvesD(1) [OF ev]] evolvesD(2) [OF ev] Cons.prems(2,4) show ?case
    by (simp add: load_position_eq)
qed simp

lemma run_keeps_positions:
  assumes "controller_inv c" "unat (next_instrument_id (ctl_shared c)) + length events < 2 ^ 32"
    and "controller_run env events c = (None, outs, c')" "all_positions P (ctl_shared c)"
    and "\<And>tu ins p. P p \<Longrightarrow> P (position_trade_update (env_api env) tu ins p)"
  shows "all_positions P (ctl_shared c')"
proof -
  note evo = evolvesD(5,6) [OF run_evolves(2) [OF assms(1-3)]]
  note ar = account_runs.run_keeps [where P = P, OF assms(1-3) _ assms(5)]
    and ur = user_runs.run_keeps [where P = P, OF assms(1-3) _ assms(5)]
  show ?thesis
    unfolding all_positions_def tracked_iff [OF evo(1)] tracked_iff [OF evo(2)]
    using assms(4) ar ur by (simp add: all_positions_def)
qed

section \<open>What is sent\<close>

text \<open>Every risk limit in a message describes the current position of the account or user it is for.\<close>

lemma all_messages_sound:
  assumes "shared_inv s" "Send rls source' \<in> set (all_messages source state s)" "rl \<in> set (rls_limits rls)"
  obtains (account) k e y where "map_of (accounts s) k \<noteq> None" "rls_account rls = k" "rls_user rls = []"
      "rl = risk_limit_for e y (account_position s k e y)"
  | (user) k e y where "map_of (users s) k \<noteq> None" "rls_user rls = k" "rls_account rls = []"
      "rl = risk_limit_for e y (user_position s k e y)"
proof -
  have known: "known s i = Some (ins_exchange ins, ins_symbol ins)" if "map_of (instruments s) i = Some ins" for i ins
    using that by (simp add: known_def)
  from assms(2) consider
    k where "k \<in> set (map fst (accounts s))" "Send rls source' \<in> set (account_message source state s k)"
  | k where "k \<in> set (map fst (users s))" "Send rls source' \<in> set (user_message source state s k)"
    by (auto simp: all_messages_def)
  then show thesis
  proof cases
    case 1
    then obtain g where g: "map_of (accounts s) k = Some g" by (metis map_of_eq_None_iff not_None_eq list.set_map)
    from 1(2) assms(3) obtain p ins where rl: "rl = risk_limit_of (p, ins)" "rls_account rls = k" "rls_user rls = []"
      and call: "(p, ins) \<in> set (pending_positions (accounts s) (instruments s) k (find_or [] (publish_by_account s) k))"
      by (auto simp: account_message_def Let_def split: if_splits)
    from call obtain i where i: "group_get_position i g = Some p" "map_of (instruments s) i = Some ins"
      unfolding set_pending_positions [OF g] by blast
    have "position_at accounts lookup_instrument s k (ins_exchange ins) (ins_symbol ins) = Some p"
      unfolding account_positions.position_at_iff [OF assms(1)] using g i(1) known [OF i(2)] by blast
    then have "account_position s k (ins_exchange ins) (ins_symbol ins) = p" by (simp add: account_position_def)
    with rl g show thesis by (intro account [of k "ins_exchange ins" "ins_symbol ins"]) (simp_all add: risk_limit_of_eq)
  next
    case 2
    then obtain g where g: "map_of (users s) k = Some g" by (metis map_of_eq_None_iff not_None_eq list.set_map)
    from 2(2) assms(3) obtain p ins where rl: "rl = risk_limit_of (p, ins)" "rls_user rls = k" "rls_account rls = []"
      and call: "(p, ins) \<in> set (pending_positions (users s) (instruments s) k (find_or [] (publish_by_user s) k))"
      by (auto simp: user_message_def Let_def split: if_splits)
    from call obtain i where i: "group_get_position i g = Some p" "map_of (instruments s) i = Some ins"
      unfolding set_pending_positions [OF g] by blast
    have "position_at users lookup_instrument s k (ins_exchange ins) (ins_symbol ins) = Some p"
      unfolding user_positions.position_at_iff [OF assms(1)] using g i(1) known [OF i(2)] by blast
    then have "user_position s k (ins_exchange ins) (ins_symbol ins) = p" by (simp add: user_position_def)
    with rl g show thesis by (intro user [of k "ins_exchange ins" "ins_symbol ins"]) (simp_all add: risk_limit_of_eq)
  qed
qed

text \<open>Only timer events send to gateways.\<close>

lemma event_sends:
  assumes "controller_inv c" "controller_event env ev c = (None, outs, c')" "Send rls source \<in> set outs"
  obtains source' state where "timer_event ev" "Send rls source \<in> set (all_messages source' state (ctl_shared c))"
proof (cases ev)
  case (Timer now events)
  with assms(2) have "controller_timer env now events c = (None, outs, c')" by simp
  with assms(1) show thesis
  proof (cases rule: timer_cases)
    case (published outs1 outs2)
    then have "Send rls source \<in> set outs2" using assms(3) by auto
    with published(4) that Timer show thesis by (cases "ready_sources (ctl_state c) [0..<length (ctl_state c)]") auto
  qed simp
next
  case (TradeUpdate mi tu)
  with assms(2,3) show thesis
    by (auto simp: controller_trade_update_def Let_def split: sum.splits if_splits prod.splits)
qed (use assms(2,3) in \<open>auto simp: controller_connected_def controller_disconnected_def controller_download_begin_def
    controller_download_end_def controller_ready_def controller_reference_data_eq controller_position_update_def
    controller_funds_update_def Let_def dest: finish_cases(3) split: prod.splits option.splits\<close>)

lemma run_sends:
  assumes "controller_inv c" "unat (next_instrument_id (ctl_shared c)) + length events < 2 ^ 32"
    and "controller_run env events c = (None, outs, c')" "all_positions P (ctl_shared c)"
    and "\<And>tu ins p. P p \<Longrightarrow> P (position_trade_update (env_api env) tu ins p)"
    and "Send rls source \<in> set outs" "rl \<in> set (rls_limits rls)"
  obtains e y p where "rl = risk_limit_for e y p" "P p"
proof -
  have "\<exists>e y p. rl = risk_limit_for e y p \<and> P p"
    using assms(1-4,6)
  proof (induction rule: run_induct)
    case (Cons ev es c outs1 c1 outs2 c')
    have inv: "shared_inv (ctl_shared c)" using Cons(1) by (simp add: controller_inv_def)
    show ?case
    proof (cases "Send rls source \<in> set outs1")
      case True
      obtain source' state where "Send rls source \<in> set (all_messages source' state (ctl_shared c))"
        by (rule event_sends [OF Cons(1,3) True])
      from inv this assms(7) show ?thesis
        by (cases rule: all_messages_sound) (use Cons(8) in \<open>unfold all_positions_def, blast\<close>)+
    next
      case False
      have "controller_run env [ev] c = (None, outs1 @ [], c1)" using Cons(3) by simp
      from run_keeps_positions [OF Cons(1) _ this Cons(8) assms(5)] Cons(2)
      have "all_positions P (ctl_shared c1)" by simp
      with Cons(7,9) False show ?thesis by simp
    qed
  qed simp
  then show thesis using that by blast
qed

text \<open>The limits of a position are the configured ones.\<close>

lemma positions_limit:
  assumes "shared_inv s"
  shows "position_limit (account_position s k e y) = get_limit_by_account s k e y"
    "position_limit (user_position s k e y) = get_limit_by_user s k e y"
proof -
  show "position_limit (account_position s k e y) = get_limit_by_account s k e y"
  proof (cases "position_at accounts lookup_instrument s k e y")
    case (Some p)
    then obtain g i where "map_of (accounts s) k = Some g" "known s i = Some (e, y)" "map_of (grp_positions g) i = Some p"
      unfolding account_positions.position_at_iff [OF assms] group_get_position_def by blast
    with shared_invD(5) [OF assms] show ?thesis
      by (fastforce simp: groups_ok_def positions_inv_def account_position_def Some)
  qed (simp add: account_position_def)
  show "position_limit (user_position s k e y) = get_limit_by_user s k e y"
  proof (cases "position_at users lookup_instrument s k e y")
    case (Some p)
    then obtain g i where "map_of (users s) k = Some g" "known s i = Some (e, y)" "map_of (grp_positions g) i = Some p"
      unfolding user_positions.position_at_iff [OF assms] group_get_position_def by blast
    with shared_invD(6) [OF assms] show ?thesis
      by (fastforce simp: groups_ok_def positions_inv_def user_position_def Some)
  qed (simp add: user_position_def)
qed

text \<open>
  C7: Nothing wrong is sent. Only timer events send to gateways, and every risk limit they send, in a
  message for an account or for a user that is tracked, shows the current long and short position of
  that account or user in the instrument it names, together with the limits in force for it there.
\<close>

theorem sent_limits_sound:
  assumes "controller_inv c" "controller_event env ev c = (None, outs, c')"
    and "Send rls source \<in> set outs" "rl \<in> set (rls_limits rls)" "s = ctl_shared c"
  shows "timer_event ev \<and> (\<exists>e y p. rl = risk_limit_for e y p \<and>
    (map_of (accounts s) (rls_account rls) \<noteq> None \<and> rls_user rls = [] \<and> p = account_position s (rls_account rls) e y \<and>
       position_limit p = get_limit_by_account s (rls_account rls) e y \<or>
     map_of (users s) (rls_user rls) \<noteq> None \<and> rls_account rls = [] \<and> p = user_position s (rls_user rls) e y \<and>
       position_limit p = get_limit_by_user s (rls_user rls) e y))"
proof -
  have inv: "shared_inv s" using assms(1) by (simp add: controller_inv_def assms(5))
  obtain source' state where t: "timer_event ev" and msg: "Send rls source \<in> set (all_messages source' state s)"
    unfolding assms(5) by (rule event_sends [OF assms(1-3)])
  from inv msg assms(4) show ?thesis
  proof (cases rule: all_messages_sound)
    case (account k e y)
    with t positions_limit(1) [OF inv] show ?thesis
      by (intro conjI exI [of _ e] exI [of _ y] exI [of _ "account_position s k e y"]) simp_all
  next
    case (user k e y)
    with t positions_limit(2) [OF inv] show ?thesis
      by (intro conjI exI [of _ e] exI [of _ y] exI [of _ "user_position s k e y"]) simp_all
  qed
qed

theorem sent_limits_sound_witness:
  "\<exists>outs c outs2 c2 rls e y p. controller_run (sample_env sample_session)
      [TradeUpdate sample_mi (sample_trade BUY ''t1'' 5 10), Connected sample_mi] sample_live = (None, outs, c) \<and>
     controller_event (sample_env sample_session) (Timer 1 []) c = (None, outs2, c2) \<and> Send rls 0 \<in> set outs2 \<and>
     rls_account rls = ''A1'' \<and> risk_limit_for e y p \<in> set (rls_limits rls) \<and> p = account_position (ctl_shared c) ''A1'' e y"
proof -
  let ?env = "sample_env sample_session"
  obtain outs c where run: "controller_run ?env [TradeUpdate sample_mi (sample_trade BUY ''t1'' 5 10), Connected sample_mi]
      sample_live = (None, outs, c)"
    and c: "ctl_state c = sample_states" "controller_inv c" "account_due (ctl_shared c) ''A1'' ''deribit'' ''BTC-PERPETUAL''"
    by (rule sample_live_trade)
  obtain outs2 s where t: "controller_timer ?env 1 [] c =
      (None, outs2, c\<lparr>ctl_manager := manager_timer 1 (ctl_manager c), ctl_shared := s\<rparr>)"
    by (rule quiet_timer)
  then have ev: "controller_event ?env (Timer 1 []) c =
      (None, outs2, c\<lparr>ctl_manager := manager_timer 1 (ctl_manager c), ctl_shared := s\<rparr>)" by simp
  obtain rls rl where rls: "Send rls 0 \<in> set outs2" "rls_account rls = ''A1''" "rl \<in> set (rls_limits rls)"
    using account_published.due_sent [OF c(2) t sample_states_ready [folded c(1)] c(3)] by auto
  from sent_limits_sound [OF c(2) ev rls(1,3) refl] rls(2) obtain e y p where
    "rl = risk_limit_for e y p" "p = account_position (ctl_shared c) ''A1'' e y" by auto
  with run ev rls show ?thesis by blast
qed

section \<open>From the inputs to the messages\<close>

lemma controller_new_positions:
  fixes c :: "('cp, 'cf, 'db) controller"
  assumes "controller_new env config prefix n db = Inr c" "length (fst (ses_positions (env_session env) db)) < 2 ^ 32"
    and "all_positions P (shared_from_config config :: ('cp, 'cf) shared)"
    and "\<And>row ins p. row \<in> set (fst (ses_positions (env_session env) db)) \<Longrightarrow> P p \<Longrightarrow> P (position_load row ins p)"
  shows "all_positions P (ctl_shared c)"
proof -
  let ?s = "shared_from_config config :: ('cp, 'cf) shared" and ?rows = "fst (ses_positions (env_session env) db)"
  have new: "shared_inv ?s" "next_instrument_id ?s = 0"
    by (simp_all add: shared_from_config_def shared_inv_new) (simp add: shared_new_def)
  have "ctl_shared c = snd (fold (load_position (env_api env)) ?rows (0, ?s))"
    using assms(1) by (auto simp: controller_new_def load_positions_def split: option.splits prod.splits)
  with load_rows_keep [OF new(1) _ assms(3,4)] assms(2) show ?thesis by (simp add: new(2))
qed

text \<open>
  C6: Every number has its type. Start the controller from a configuration file whose numbers are
  doubles and from a database whose positions are doubles that are not negative, and let it handle any
  events. Then in every risk limit it sends the long and the short position are doubles that are not
  negative and the four limits are doubles, and the same holds of every position it holds at the end;
  no overflow, rounding or sign of a fill breaks this.
\<close>

theorem sent_values_typed:
  fixes c :: "('cp, 'cf, 'db) controller"
  assumes "numbers_law toml" "config_new toml node = Inr config"
    and "controller_new env config prefix n db = Inr c" "n \<le> 256"
    and "rows = fst (ses_positions (env_session env) db)" "\<forall>row \<in> set rows. typed_row row"
    and "length rows + length events < 2 ^ 32" "controller_run env events c = (None, outs, c')"
  shows "all_positions typed_position (ctl_shared c') \<and>
    (\<forall>rls source. Send rls source \<in> set outs \<longrightarrow> (\<forall>rl \<in> set (rls_limits rls). typed_risk_limit rl))"
proof -
  let ?s = "shared_from_config config :: ('cp, 'cf) shared"
  note new = controller_new_inv [OF assms(3,4), folded assms(5)]
  have inv: "controller_inv c" and room: "unat (next_instrument_id (ctl_shared c)) + length events < 2 ^ 32"
    using new(1,2) assms(7) by simp_all
  have "all_positions typed_position ?s"
    by (rule all_positions_new [OF refl]) (simp_all add: typed_position_new config_limits_typed [OF assms(1,2)])
  then have start: "all_positions typed_position (ctl_shared c)"
    using assms(6,7) typed_position_load
    by (intro controller_new_positions [OF assms(3)]) (simp_all add: assms(5) [symmetric])
  note keep = typed_position_trade_update [of _ "env_api env"]
  have "typed_risk_limit rl" if "Send rls source \<in> set outs" "rl \<in> set (rls_limits rls)" for rls source rl
    by (rule run_sends [where P = typed_position, OF inv room assms(8) start keep that])
      (assumption, simp add: typed_risk_limit_for)
  with run_keeps_positions [where P = typed_position, OF inv room assms(8) start keep] show ?thesis by blast
qed

lemma sample_numbers_law: "numbers_law sample_toml"
  by (auto simp: numbers_law_def sample_toml_def split: sample_toml.splits if_splits)

lemma sample_publishing_run:
  obtains outs c rls rl where "controller_run (sample_env sample_session)
      [TradeUpdate sample_mi (sample_trade BUY ''t1'' 5 10), Ready sample_mi, Timer 1 []] sample_controller = (None, outs, c)"
    "Send rls 0 \<in> set outs" "rl \<in> set (rls_limits rls)"
proof -
  let ?env = "sample_env sample_session" and ?tu = "sample_trade BUY ''t1'' 5 10"
  obtain outs0 c where trade: "controller_event ?env (TradeUpdate sample_mi ?tu) sample_controller = (None, outs0, c)"
    and c: "ctl_state c = [sample_waiting]"
    by (rule sample_waiting_trade)
  obtain s where ready: "controller_event ?env (Ready sample_mi) c =
      (None, [], c\<lparr>ctl_state := [sample_waiting\<lparr>st_ready := True\<rparr>], ctl_shared := s\<rparr>)"
    using c by (simp add: controller_ready_def controller_message_info_def state_at_def put_state_def finish_def
        sample_mi_def sample_waiting_def default_state_def Let_def)
  let ?c1 = "c\<lparr>ctl_state := [sample_waiting\<lparr>st_ready := True\<rparr>], ctl_shared := s\<rparr>"
  obtain outs2 c2 where t: "controller_timer ?env 1 [] ?c1 = (None, outs2, c2)" by (rule quiet_timer)
  have run: "controller_run ?env [TradeUpdate sample_mi ?tu, Ready sample_mi] sample_controller = (None, outs0 @ [], ?c1)"
    using trade ready by simp
  have below: "unat (next_instrument_id (ctl_shared sample_controller)) < 2 ^ 32 - 1"
    "unat (next_instrument_id (ctl_shared sample_controller)) + length [TradeUpdate sample_mi ?tu, Ready sample_mi] < 2 ^ 32"
    by (simp_all add: sample_controller_inv)
  have due: "account_due (ctl_shared c') ''A1'' ''deribit'' ''BTC-PERPETUAL''"
    if "controller_event ?env (TradeUpdate sample_mi ?tu) sample_controller = (None, outs', c')" for outs' c'
  proof -
    have "ctl_shared c' = apply_trade (env_api ?env) ?tu (ctl_shared sample_controller)"
      by (rule event_effect(3) [OF sample_controller_inv(1) below(1) that refl])
        (simp add: sample_controller_def sample_trade_def)
    with trade_makes_due(1) [OF _ below(1), of ?tu] sample_controller_inv(1) show ?thesis
      by (simp add: controller_inv_def sample_account sample_trade_def)
  qed
  have source: "ready_sources (ctl_state ?c1) [0..<length (ctl_state ?c1)] = [0]" by (simp add: ready_sources_def)
  have "\<exists>rls. Send rls (word_of_nat 0) \<in> set outs2 \<and> rls_account rls = ''A1'' \<and>
      rls_session_id rls = st_session_id (ctl_state ?c1 ! 0) \<and>
      risk_limit_for ''deribit'' ''BTC-PERPETUAL''
        (account_position (ctl_shared ?c1) ''A1'' ''deribit'' ''BTC-PERPETUAL'') \<in> set (rls_limits rls)"
    by (rule account_published.due_run_sent [OF sample_controller_inv(1) below(2) run _ source t]) (simp, rule due)
  then obtain rls rl where "Send rls 0 \<in> set outs2" "rl \<in> set (rls_limits rls)" by auto
  then show thesis using trade ready t by (intro that [of "outs0 @ outs2" c2 rls rl]) simp_all
qed

theorem sent_values_typed_witness:
  "\<exists>outs c rls rl. controller_run (sample_env sample_session)
      [TradeUpdate sample_mi (sample_trade BUY ''t1'' 5 10), Ready sample_mi, Timer 1 []] sample_controller = (None, outs, c) \<and>
     Send rls 0 \<in> set outs \<and> rl \<in> set (rls_limits rls) \<and> typed_risk_limit rl"
proof -
  obtain outs c rls rl where run: "controller_run (sample_env sample_session)
      [TradeUpdate sample_mi (sample_trade BUY ''t1'' 5 10), Ready sample_mi, Timer 1 []] sample_controller = (None, outs, c)"
    and rls: "Send rls 0 \<in> set outs" "rl \<in> set (rls_limits rls)"
    by (rule sample_publishing_run)
  have "typed_risk_limit rl"
    using sent_values_typed [OF sample_numbers_law sample_document_accepted sample_controller_new _ refl _ _ run] rls
    by auto
  with run rls show ?thesis by blast
qed

section \<open>The first fill after a restart\<close>

text \<open>Nothing has happened to the position but loading.\<close>

definition only_loaded :: "position \<Rightarrow> bool" where
  "only_loaded p \<longleftrightarrow> (\<exists>l. p = position_new l \<or> (\<exists>row ins. p = position_load row ins (position_new l)))"

lemma only_loaded_new: "only_loaded (position_new l)"
  by (auto simp: only_loaded_def)

lemma only_loaded_load: "only_loaded p \<Longrightarrow> only_loaded (position_load row ins p)"
proof -
  have "position_load row ins (position_load row' ins' p) = position_load row ins p" for row' ins' p
    by (simp add: position_load_def)
  then show "only_loaded p \<Longrightarrow> only_loaded (position_load row ins p)" unfolding only_loaded_def by metis
qed

lemma only_loaded_forgotten:
  assumes "only_loaded p" "tu_fills tu \<noteq> []"
  shows "position_trade_update api tu ins p = position_trade_update api tu ins (position_new (position_limit p))"
proof -
  obtain l where "p = position_new l \<or> (\<exists>row ins. p = position_load row ins (position_new l))"
    using assms(1) by (auto simp: only_loaded_def)
  moreover have "\<not> fill_ids (tu_fills tu) \<subseteq> set (pos_fills (position_new l))"
    using assms(2) by (simp add: position_new_def)
  note position_load_forgotten [OF this]
  ultimately show ?thesis by auto
qed

text \<open>
  C31: The positions loaded from the database are lost with the first new fill. Whatever the database
  held when the controller was constructed, the first trade update with a fill, of an account or of a
  user, gives the position that the same update gives to a position that starts from nothing; the
  quantities loaded no longer count towards what is published.
\<close>

theorem loaded_positions_forgotten:
  fixes c :: "('cp, 'cf, 'db) controller"
  assumes "controller_new env config prefix n db = Inr c" "n \<le> 256"
    and "length (fst (ses_positions (env_session env) db)) + 1 < 2 ^ 32"
    and "controller_event env (TradeUpdate mi tu) c = (None, outs, c')"
    and "ctl_last_exchange_time_utc c < tu_create_time_utc tu" "tu_fills tu \<noteq> []"
    and "s = ctl_shared c" "e = tu_exchange tu" "y = tu_symbol tu"
  shows "(map_of (accounts s) (tu_account tu) \<noteq> None \<longrightarrow>
      (\<exists>ins. account_position (ctl_shared c') (tu_account tu) e y =
        position_trade_update (env_api env) tu ins (position_new (get_limit_by_account s (tu_account tu) e y)))) \<and>
    (map_of (users s) (tu_user tu) \<noteq> None \<longrightarrow>
      (\<exists>ins. user_position (ctl_shared c') (tu_user tu) e y =
        position_trade_update (env_api env) tu ins (position_new (get_limit_by_user s (tu_user tu) e y))))"
proof -
  note new = controller_new_inv [OF assms(1,2)]
  have inv: "controller_inv c" and below: "unat (next_instrument_id s) < 2 ^ 32 - 1" and sinv: "shared_inv s"
    using new(1,2) assms(3) by (simp_all add: assms(7) controller_inv_def)
  have "all_positions only_loaded (shared_from_config config :: ('cp, 'cf) shared)"
    by (rule all_positions_new [OF refl]) (rule only_loaded_new)+
  then have all: "all_positions only_loaded s"
    unfolding assms(7) using assms(3) only_loaded_load by (intro controller_new_positions [OF assms(1)]) simp_all
  have s': "ctl_shared c' = apply_trade (env_api env) tu s"
    unfolding assms(7) by (rule event_effect(3) [OF inv below [unfolded assms(7)] assms(4) refl]) (simp add: assms(5))
  note forget = only_loaded_forgotten [OF _ assms(6)]
  show ?thesis
    using apply_trade_position [OF sinv below, of "tu_account tu" "env_api env" tu e y]
      apply_trade_user_position [OF sinv below, of "tu_user tu" "env_api env" tu e y]
      all forget positions_limit [OF sinv]
    by (simp add: s' assms(8,9) all_positions_def)
qed

theorem loaded_positions_forgotten_witness:
  "\<exists>c outs c' ins. controller_new sample_restart sample_config_file [] 1 () = Inr c \<and>
     controller_event sample_restart (TradeUpdate sample_mi (sample_trade BUY ''t1'' 5 10)) c = (None, outs, c') \<and>
     account_position (ctl_shared c') ''A1'' ''deribit'' ''BTC-PERPETUAL'' =
       position_trade_update sample_api (sample_trade BUY ''t1'' 5 10) ins
         (position_new (get_limit_by_account (ctl_shared c) ''A1'' ''deribit'' ''BTC-PERPETUAL''))"
proof -
  let ?tu = "sample_trade BUY ''t1'' 5 10"
  have rows: "ses_positions (env_session sample_restart) () = ([sample_row], None)"
    by (simp add: sample_restart_def sample_env_def)
  then obtain c where c: "controller_new sample_restart sample_config_file [] 1 () = Inr c"
    by (simp add: controller_new_def load_positions_def split_beta)
  have st: "length (ctl_state c) = 1" "ctl_last_exchange_time_utc c = 5"
    using c rows by (auto simp: controller_new_def load_positions_def load_position_eq sample_row_def)
  have "fst (controller_event sample_restart (TradeUpdate sample_mi ?tu) c) = None"
    using st(1) by (auto simp: controller_trade_update_def controller_message_info_def sample_mi_def state_at_def
        sample_restart_def sample_env_def sample_session_def Let_def)
  then obtain outs c' where ev: "controller_event sample_restart (TradeUpdate sample_mi ?tu) c = (None, outs, c')"
    by (metis fst_conv prod_cases3)
  have "evolves 1 (shared_from_config sample_config_file) (ctl_shared c)"
    using controller_new_inv(3) [OF c] by (simp add: rows)
  then have "map_of (accounts (ctl_shared c)) ''A1'' \<noteq> None"
    using tracked_iff [OF evolvesD(5), of 1 "shared_from_config sample_config_file" "ctl_shared c" "''A1''"] sample_account
    by (simp add: sample_controller_def)
  with loaded_positions_forgotten [OF c _ _ ev _ _ refl refl refl] c ev show ?thesis
    by (auto simp: st rows sample_trade_def sample_restart_def sample_env_def)
qed

section \<open>Fills with the same identifier\<close>

text \<open>
  C32: A position tells fills apart by their trade identifier alone. Where two accounts of one user
  trade with each other and the exchange gives both sides the same identifier, the update of the second
  account leaves the position of the user as the first one made it: the user seems to hold what the one
  account has bought, although the other has sold as much.
\<close>

theorem cross_counted_once:
  assumes "controller_inv c" "unat (next_instrument_id (ctl_shared c)) + 2 < 2 ^ 32"
    and "controller_event env (TradeUpdate mi tu) c = (None, outs, c1)"
    and "controller_event env (TradeUpdate mi' tu') c1 = (None, outs', c2)"
    and "ctl_last_exchange_time_utc c < tu_create_time_utc tu" "map_of (users (ctl_shared c)) (tu_user tu) \<noteq> None"
    and "tu_user tu' = tu_user tu" "tu_exchange tu' = tu_exchange tu" "tu_symbol tu' = tu_symbol tu"
    and "fill_ids (tu_fills tu') \<subseteq> fill_ids (tu_fills tu)"
  shows "user_position (ctl_shared c2) (tu_user tu) = user_position (ctl_shared c1) (tu_user tu)"
proof (intro ext)
  fix e y
  have below: "unat (next_instrument_id (ctl_shared c)) < 2 ^ 32 - 1" using assms(2) by simp
  have inv: "shared_inv (ctl_shared c)" using assms(1) by (simp add: controller_inv_def)
  note st = event_effect(1) [OF assms(1) below assms(3)]
  have inv1: "controller_inv c1" and sinv1: "shared_inv (ctl_shared c1)"
    and below1: "unat (next_instrument_id (ctl_shared c1)) < 2 ^ 32 - 1"
    and tracked: "map_of (users (ctl_shared c1)) (tu_user tu) \<noteq> None"
    using steps_inv [OF assms(1) st] st assms(2,6) tracked_iff [of "users (ctl_shared c1)" "users (ctl_shared c)"]
    by (simp_all add: steps_def evolves_def)
  have "ctl_shared c1 = apply_trade (env_api env) tu (ctl_shared c)"
    by (rule event_effect(3) [OF assms(1) below assms(3) refl]) (simp add: assms(5))
  then obtain ins where 1: "user_position (ctl_shared c1) (tu_user tu) e y =
      (if (tu_exchange tu, tu_symbol tu) = (e, y)
       then position_trade_update (env_api env) tu ins (user_position (ctl_shared c) (tu_user tu) e y)
       else user_position (ctl_shared c) (tu_user tu) e y)"
    using apply_trade_user_position [OF inv below assms(6), of "env_api env" tu e y] by auto
  let ?p = "user_position (ctl_shared c1) (tu_user tu) e y"
  show "user_position (ctl_shared c2) (tu_user tu) e y = ?p"
  proof (cases "accepted (ctl_last_exchange_time_utc c1) (TradeUpdate mi' tu')")
    case None
    then show ?thesis using event_effect(4) [OF inv1 below1 assms(4) refl] by simp
  next
    case (Some tu2)
    then have "tu2 = tu'" by (simp split: if_splits)
    with event_effect(3) [OF inv1 below1 assms(4) refl Some] obtain ins' where
      2: "user_position (ctl_shared c2) (tu_user tu) e y =
        (if (tu_exchange tu, tu_symbol tu) = (e, y) then position_trade_update (env_api env) tu' ins' ?p else ?p)"
      using apply_trade_user_position [OF sinv1 below1 tracked, of "env_api env" tu' e y] assms(7-9) by auto
    have "position_trade_update (env_api env) tu' ins' ?p = ?p" if "(tu_exchange tu, tu_symbol tu) = (e, y)"
    proof -
      have "fill_ids (tu_fills tu') \<subseteq> set (pos_fills ?p)"
        using 1 that assms(10) by (auto simp: position_trade_update_def)
      then show ?thesis by (simp add: position_trade_update_def position_fills_loop_known)
    qed
    with 2 show ?thesis by simp
  qed
qed

theorem cross_counted_once_witness:
  "\<exists>outs1 c1 outs2 c2. controller_event (sample_env sample_session)
      (TradeUpdate sample_mi (sample_trade BUY ''t1'' 5 10)) sample_controller = (None, outs1, c1) \<and>
     controller_event (sample_env sample_session)
      (TradeUpdate sample_mi ((sample_trade SELL ''t1'' 5 10)\<lparr>tu_account := ''A2''\<rparr>)) c1 = (None, outs2, c2) \<and>
     user_position (ctl_shared c2) ''trader'' = user_position (ctl_shared c1) ''trader''"
proof -
  let ?env = "sample_env sample_session" and ?tu = "sample_trade BUY ''t1'' 5 10"
  let ?tu' = "(sample_trade SELL ''t1'' 5 10)\<lparr>tu_account := ''A2''\<rparr>"
  obtain outs1 c1 where 1: "controller_event ?env (TradeUpdate sample_mi ?tu) sample_controller = (None, outs1, c1)"
    and c1: "ctl_state c1 = [sample_waiting]"
    by (rule sample_waiting_trade)
  obtain outs2 c2 where 2: "controller_event ?env (TradeUpdate sample_mi ?tu') c1 = (None, outs2, c2)"
    using sample_trade_runs [of c1 ?tu'] by (metis c1 One_nat_def length_Cons list.size(3) fst_conv prod.collapse)
  have "user_position (ctl_shared c2) (tu_user ?tu) = user_position (ctl_shared c1) (tu_user ?tu)"
    by (rule cross_counted_once [OF sample_controller_inv(1) _ 1 2])
      (simp_all add: sample_controller_inv sample_trade_def sample_user, simp add: sample_controller_def)
  with 1 2 show ?thesis by (auto simp: sample_trade_def)
qed

end
