(* ===== verification/Formatting.thy ===== *)
theory Formatting
  imports Config Decimal
begin

text \<open>
  The printed forms of the program's records (the \<^verbatim>\<open>fmt::formatter\<close> specialisations of the header
  files), which appear in its log. The texts of doubles, sides and decimals come from libraries and are
  parameters. Strings are printed between quotes and without escaping; the last section shows that a
  line is unambiguous nevertheless, as long as the strings have no quote.
\<close>

section \<open>Building blocks\<close>

record fmt_api =
  fmt_double :: "double \<Rightarrow> string"
  fmt_side :: "side \<Rightarrow> string"
  fmt_decimals :: "int \<Rightarrow> string"

definition quoted :: "string \<Rightarrow> string" where
  "quoted s = CHR 0x22 # s @ [CHR 0x22]"

definition show_bool :: "bool \<Rightarrow> string" where
  "show_bool b = (if b then ''true'' else ''false'')"

text \<open>A duration prints with its unit.\<close>

definition show_ns :: "nanoseconds \<Rightarrow> string" where
  "show_ns t = show_int t @ ''ns''"

fun join :: "string list \<Rightarrow> string" where
  "join [] = []"
| "join [x] = x"
| "join (x # xs) = x @ '', '' @ join xs"

definition fields :: "(string \<times> string) list \<Rightarrow> string" where
  "fields kvs = ''{'' @ join (map (\<lambda>(k, v). k @ ''='' @ v) kvs) @ ''}''"

section \<open>Database records\<close>

definition format_trade :: "fmt_api \<Rightarrow> db_trade \<Rightarrow> string" where
  "format_trade fmt value =
     fields
      [(''user'', quoted (dbt_user value)),
       (''strategy_id'', show_nat (unat (dbt_strategy_id value))),
       (''account'', quoted (dbt_account value)),
       (''exchange'', quoted (dbt_exchange value)),
       (''symbol'', quoted (dbt_symbol value)),
       (''side'', fmt_side fmt (dbt_side value)),
       (''quantity'', fmt_double fmt (dbt_quantity value)),
       (''price'', fmt_double fmt (dbt_price value)),
       (''exchange_time_utc'', show_ns (dbt_exchange_time_utc value)),
       (''external_account'', quoted (dbt_external_account value)),
       (''external_order_id'', quoted (dbt_external_order_id value)),
       (''external_trade_id'', quoted (dbt_external_trade_id value))]"

definition format_correction :: "fmt_api \<Rightarrow> db_correction \<Rightarrow> string" where
  "format_correction fmt value =
     fields
      [(''user'', quoted (dbc_user value)),
       (''strategy_id'', show_nat (unat (dbc_strategy_id value))),
       (''account'', quoted (dbc_account value)),
       (''exchange'', quoted (dbc_exchange value)),
       (''symbol'', quoted (dbc_symbol value)),
       (''side'', fmt_side fmt (dbc_side value)),
       (''quantity'', fmt_double fmt (dbc_quantity value)),
       (''price'', fmt_double fmt (dbc_price value)),
       (''exchange_time_utc'', show_ns (dbc_exchange_time_utc value)),
       (''reason'', quoted (dbc_reason value))]"

definition format_db_position :: "fmt_api \<Rightarrow> db_position \<Rightarrow> string" where
  "format_db_position fmt value =
     fields
      [(''user'', quoted (dbp_user value)),
       (''strategy_id'', show_nat (unat (dbp_strategy_id value))),
       (''account'', quoted (dbp_account value)),
       (''exchange'', quoted (dbp_exchange value)),
       (''symbol'', quoted (dbp_symbol value)),
       (''long_quantity'', fmt_double fmt (dbp_long_quantity value)),
       (''short_quantity'', fmt_double fmt (dbp_short_quantity value)),
       (''exchange_time_utc'', show_ns (dbp_exchange_time_utc value))]"

definition format_funds :: "fmt_api \<Rightarrow> db_funds \<Rightarrow> string" where
  "format_funds fmt value =
     fields
      [(''account'', quoted (dbf_account value)),
       (''currency'', quoted (dbf_currency value)),
       (''balance'', fmt_double fmt (dbf_balance value)),
       (''hold'', fmt_double fmt (dbf_hold value)),
       (''exchange_time_utc'', show_ns (dbf_exchange_time_utc value)),
       (''external_account'', quoted (dbf_external_account value))]"

definition format_account :: "db_account \<Rightarrow> string" where
  "format_account value =
     fields
      [(''account'', quoted (dba_name value)),
       (''exchange_time_utc_min'', show_ns (dba_exchange_time_utc_min value)),
       (''exchange_time_utc_max'', show_ns (dba_exchange_time_utc_max value)),
       (''trade_count'', show_nat (unat (dba_trade_count value)))]"

definition format_compress :: "db_compress \<Rightarrow> string" where
  "format_compress value = fields [(''exchange_time_utc'', show_ns (dbx_exchange_time_utc value))]"

section \<open>Risk data and configuration\<close>

definition format_limit :: "fmt_api \<Rightarrow> limit \<Rightarrow> string" where
  "format_limit fmt value =
     fields
      [(''long_position_limit'', fmt_double fmt (lim_long_position_limit value)),
       (''short_position_limit'', fmt_double fmt (lim_short_position_limit value)),
       (''long_risk_exposure_limit'', fmt_double fmt (lim_long_risk_exposure_limit value)),
       (''short_risk_exposure_limit'', fmt_double fmt (lim_short_risk_exposure_limit value)),
       (''allow_netting'', show_bool (lim_allow_netting value))]"

definition format_instrument :: "fmt_api \<Rightarrow> instrument \<Rightarrow> string" where
  "format_instrument fmt value =
     fields
      [(''min_trade_vol'', fmt_double fmt (ins_min_trade_vol value)),
       (''quantity_decimals'', fmt_decimals fmt (ins_quantity_decimals value))]"

definition format_position :: "fmt_api \<Rightarrow> position \<Rightarrow> string" where
  "format_position fmt value =
     fields
      [(''allow_netting'', show_bool (pos_allow_netting value)),
       (''long_position_limit'', fmt_double fmt (pos_long_position_limit value)),
       (''short_position_limit'', fmt_double fmt (pos_short_position_limit value)),
       (''long_risk_exposure_limit'', fmt_double fmt (pos_long_risk_exposure_limit value)),
       (''short_risk_exposure_limit'', fmt_double fmt (pos_short_risk_exposure_limit value)),
       (''long_position'', fmt_double fmt (pos_long_position value)),
       (''short_position'', fmt_double fmt (pos_short_position value)),
       (''fills'', ''['' @ join (pos_fills value) @ '']'')]"

text \<open>The nested maps are not printed.\<close>

definition format_config :: "config \<Rightarrow> string" where
  "format_config value = fields [(''symbols'', ''[]''), (''accounts'', ''[]''), (''users'', ''[]'')]"

section \<open>Unambiguous lines\<close>

text \<open>A text without quote, comma or brace, or a quoted text without inner quotes.\<close>

definition bare_text :: "string \<Rightarrow> bool" where
  "bare_text v \<longleftrightarrow> (\<forall>c \<in> set v. c \<noteq> CHR '','' \<and> c \<noteq> CHR ''}'' \<and> c \<noteq> CHR 0x22)"

definition delimited :: "string \<Rightarrow> bool" where
  "delimited v \<longleftrightarrow> bare_text v \<or> (\<exists>s. v = quoted s \<and> CHR 0x22 \<notin> set s)"

definition ends_field :: "string \<Rightarrow> bool" where
  "ends_field s \<longleftrightarrow> (case s of [] \<Rightarrow> False | c # _ \<Rightarrow> c = CHR '','' \<or> c = CHR ''}'')"

lemma split_first:
  assumes "\<forall>c \<in> set v. P c" "\<forall>c \<in> set v'. P c" "v @ c # s = v' @ c' # s'" "\<not> P c" "\<not> P c'"
  shows "v = v' \<and> s = s'"
  using assms
proof (induction v arbitrary: v')
  case Nil
  then show ?case by (cases v') auto
next
  case (Cons x v)
  then show ?case by (cases v') auto
qed

lemma bare_not_quoted:
  assumes "bare_text v" "ends_field s" "v @ s = quoted x @ s'"
  shows False
proof (cases v)
  case Nil
  with assms(2,3) show ?thesis by (auto simp: ends_field_def quoted_def split: list.splits)
next
  case (Cons c w)
  with assms(3) have "c = CHR 0x22" by (simp add: quoted_def)
  with assms(1) Cons show ?thesis by (simp add: bare_text_def)
qed

lemma bare_split:
  assumes "bare_text v" "bare_text v'" "v @ s = v' @ s'" "ends_field s" "ends_field s'"
  shows "v = v' \<and> s = s'"
proof -
  let ?P = "\<lambda>c. c \<noteq> CHR '','' \<and> c \<noteq> CHR ''}'' \<and> c \<noteq> CHR 0x22"
  obtain c r where s: "s = c # r" "\<not> ?P c"
    using assms(4) by (cases s) (auto simp: ends_field_def)
  obtain c' r' where s': "s' = c' # r'" "\<not> ?P c'"
    using assms(5) by (cases s') (auto simp: ends_field_def)
  from split_first [of v ?P v' c r c' r'] assms(1-3) s s' have "v = v'" by (simp add: bare_text_def)
  with assms(3) show ?thesis by simp
qed

lemma delimited_split:
  assumes "delimited v" "delimited v'" "v @ s = v' @ s'" "ends_field s" "ends_field s'"
  shows "v = v' \<and> s = s'"
proof (cases "bare_text v")
  case True
  then have "bare_text v'"
    using assms(2) bare_not_quoted [OF True assms(4)] assms(3) unfolding delimited_def by metis
  from bare_split [OF True this assms(3-5)] show ?thesis .
next
  case False
  then obtain x where x: "v = quoted x" "CHR 0x22 \<notin> set x" using assms(1) by (auto simp: delimited_def)
  have "\<not> bare_text v'" using bare_not_quoted [OF _ assms(5), of v' x s] assms(3) x(1) by metis
  then obtain x' where x': "v' = quoted x'" "CHR 0x22 \<notin> set x'" using assms(2) by (auto simp: delimited_def)
  have "x @ CHR 0x22 # s = x' @ CHR 0x22 # s'" using assms(3) by (simp add: x(1) x'(1) quoted_def)
  from split_first [OF _ _ this, of "\<lambda>c. c \<noteq> CHR 0x22"] x(2) x'(2) have "x = x' \<and> s = s'" by metis
  then show ?thesis by (simp add: x(1) x'(1))
qed

lemma join_Cons: "xs \<noteq> [] \<Longrightarrow> join (x # xs) = x @ '', '' @ join xs"
  by (cases xs) auto

lemma fields_unambiguous:
  assumes "map fst kvs = map fst kvs'" "\<forall>(k, v) \<in> set (kvs @ kvs'). delimited v" "fields kvs = fields kvs'"
  shows "kvs = kvs'"
proof -
  let ?text = "\<lambda>kvs. join (map (\<lambda>(k, v). k @ ''='' @ v) kvs) @ ''}''"
  have "kvs = kvs'" if "?text kvs = ?text kvs'"
    using that assms(1,2)
  proof (induction kvs arbitrary: kvs')
    case Nil
    then show ?case by simp
  next
    case (Cons kv kvs)
    obtain k v where kv: "kv = (k, v)" by fastforce
    obtain v' rest where rest: "kvs' = (k, v') # rest" "map fst rest = map fst kvs"
      using Cons.prems(2) kv by (cases kvs') auto
    let ?tail = "\<lambda>kvs. if kvs = [] then ''}'' else '', '' @ ?text kvs"
    have step: "?text ((k, w) # xs) = k @ ''='' @ w @ ?tail xs" for w xs
      by (simp add: join_Cons)
    have "v @ ?tail kvs = v' @ ?tail rest"
      using Cons.prems(1) unfolding kv rest(1) step by simp
    moreover have "ends_field (?tail xs)" for xs by (simp add: ends_field_def)
    moreover have "delimited v" "delimited v'" using Cons.prems(3) by (auto simp: kv rest(1))
    ultimately have eq: "v = v'" "?tail kvs = ?tail rest" using delimited_split by blast+
    have "kvs = rest"
    proof (cases "kvs = []")
      case True
      with rest(2) show ?thesis by simp
    next
      case False
      then have "rest \<noteq> []" using rest(2) by auto
      with False eq(2) have "?text kvs = ?text rest" by simp
      with Cons.IH [of rest] Cons.prems(3) rest show ?thesis by auto
    qed
    with kv rest(1) eq(1) show ?case by simp
  qed
  with assms(3) show ?thesis by (simp add: fields_def)
qed

lemma delimited_quoted: "CHR 0x22 \<notin> set s \<Longrightarrow> delimited (quoted s)"
  by (auto simp: delimited_def)

lemma bare_digits: "\<forall>c \<in> set v. is_digit c \<Longrightarrow> bare_text v"
  by (auto simp: bare_text_def is_digit_def)

lemma delimited_show_nat: "delimited (show_nat n)"
  by (simp add: delimited_def bare_digits [OF show_nat_digits])

lemma delimited_show_ns: "delimited (show_ns t)"
  using bare_digits [OF show_nat_digits, of "nat t"] bare_digits [OF show_nat_digits, of "nat (- t)"]
  by (auto simp: delimited_def bare_text_def show_ns_def show_int_def)

lemma show_nat_inject: "show_nat m = show_nat n \<Longrightarrow> m = n"
  by (metis digits_value_show_nat)

lemma show_int_inject:
  assumes "show_int i = show_int j"
  shows "i = j"
proof -
  have "hd (show_nat n) \<noteq> CHR ''-''" for n
    using show_nat_digits [of n] show_nat_nonempty [of n] by (metis hd_in_set minus_not_digit)
  then have ne: "show_nat n \<noteq> CHR ''-'' # x" for n x by (metis list.sel(1))
  show ?thesis
    using assms ne by (auto simp: show_int_def dest!: show_nat_inject split: if_splits) (metis ne)+
qed

lemma printed_iff:
  "show_nat m = show_nat n \<longleftrightarrow> m = n" "show_ns i = show_ns j \<longleftrightarrow> i = j" "quoted s = quoted s' \<longleftrightarrow> s = s'"
  by (auto simp: show_ns_def quoted_def dest: show_nat_inject show_int_inject)

definition quote_free :: "db_trade \<Rightarrow> bool" where
  "quote_free t \<longleftrightarrow> CHR 0x22 \<notin> set (dbt_user t @ dbt_account t @ dbt_exchange t @ dbt_symbol t @
     dbt_external_account t @ dbt_external_order_id t @ dbt_external_trade_id t)"

lemma format_trade_unambiguous:
  assumes "inj (fmt_double fmt)" "inj (fmt_side fmt)" "\<forall>x. bare_text (fmt_double fmt x)" "\<forall>x. bare_text (fmt_side fmt x)"
    and "quote_free t" "quote_free u" "format_trade fmt t = format_trade fmt u"
  shows "t = u"
proof -
  have "delimited (fmt_double fmt x)" "delimited (fmt_side fmt y)" for x y
    using assms(3,4) by (simp_all add: delimited_def)
  note del = this delimited_show_nat delimited_show_ns delimited_quoted
  have "unat (dbt_strategy_id t) = unat (dbt_strategy_id u) \<and> dbt_exchange_time_utc t = dbt_exchange_time_utc u \<and>
    dbt_user t = dbt_user u \<and> dbt_account t = dbt_account u \<and> dbt_exchange t = dbt_exchange u \<and>
    dbt_symbol t = dbt_symbol u \<and> dbt_side t = dbt_side u \<and> dbt_quantity t = dbt_quantity u \<and>
    dbt_price t = dbt_price u \<and> dbt_external_account t = dbt_external_account u \<and>
    dbt_external_order_id t = dbt_external_order_id u \<and> dbt_external_trade_id t = dbt_external_trade_id u"
    using fields_unambiguous [OF _ _ assms(7) [unfolded format_trade_def]] assms(5,6)
    by (simp add: del quote_free_def printed_iff inj_eq [OF assms(1)] inj_eq [OF assms(2)])
  then show ?thesis by (cases t; cases u) (simp add: word_unat_eq_iff)
qed

end
