(* ===== verification/Spec2Isabelle.thy ===== *)
theory Spec2Isabelle
  imports Application Controller_Types Formatting
begin

text \<open>
  A verification development of the risk manager, a program that keeps the positions of accounts and
  users from the trade updates of gateways, stores the trades in a database, sends risk limits back to
  the gateways and serves a small web interface. The sources are under
  \<^verbatim>\<open>src/src/roq/risk_manager/\<close> and \<^verbatim>\<open>src/src/roq/third_party/sqlite/\<close>; paths below are relative to the
  former.

  \<^bold>\<open>The parts and how they interact.\<close> The controller (\<^verbatim>\<open>controller.cpp\<close>) owns all others. At construction
  it reads the configuration into the shared state (\<^verbatim>\<open>shared.cpp\<close>) and loads positions from the database.
  A trade update is passed to the account and the user it names (\<^verbatim>\<open>risk/account.cpp\<close>, \<^verbatim>\<open>risk/user.cpp\<close>),
  which find or create the instrument in the shared state, update their position in it
  (\<^verbatim>\<open>risk/position.cpp\<close>) and mark the instrument for publishing; then every fill is sent to the web
  sessions (\<^verbatim>\<open>control/manager.cpp\<close>) and all fills are inserted into the database
  (\<^verbatim>\<open>database/sqlite/trades.cpp\<close>). A timer event runs the pending web requests
  (\<^verbatim>\<open>control/session.cpp\<close>), removes dead sessions and sends the limits of the marked instruments to the
  ready gateways. The application (\<^verbatim>\<open>application.cpp\<close>) reads the configuration file, opens the database and
  hands both to the controller.

  \<^bold>\<open>Theories.\<close> State is a record passed along; a hash map or set is an association list or a list
  without repetitions in order of insertion; an exception is a value of the type \<open>error\<close>; integers are
  words of their width.
  \<^item> \<open>Prelude\<close>, \<open>Doubles\<close>, \<open>Messages\<close>, \<open>Decimal\<close>: errors and hash containers; IEEE doubles with rounding,
    and the exactness of sums of whole lots; the records of the gateway messages and of
    \<^verbatim>\<open>database/*.hpp\<close>; printing and reading of decimal numbers (\<^verbatim>\<open>std::from_chars\<close>).
  \<^item> \<open>Risk\<close>: \<^verbatim>\<open>risk/limit.hpp\<close>, \<^verbatim>\<open>risk/instrument.cpp\<close>, \<^verbatim>\<open>risk/position.cpp\<close>. Shown: a position is the
    ledger of the distinct fills, replays change nothing, positions are netted; how NaN spreads.
  \<^item> \<open>Risk_Groups\<close>: \<^verbatim>\<open>risk/account.cpp\<close>, \<^verbatim>\<open>risk/user.cpp\<close>, \<^verbatim>\<open>risk/strategy.cpp\<close>. The locales \<open>risk_handler\<close>
    (what a group needs from the shared state), \<open>group_table\<close> (a table of groups and its visits) and
    \<open>position_table\<close> (the same with instruments looked up by name) carry the effect of a visit.
  \<^item> \<open>Shared\<close>, \<open>Visits\<close>: \<^verbatim>\<open>shared.cpp\<close>, \<^verbatim>\<open>shared.hpp\<close>. The three tables interpret the locales. Shown: the
    invariant of the shared state, instrument ids are unique, limits are copied from the configuration,
    draining a publish set reports each marked position once.
  \<^item> \<open>Sqlite\<close>: \<^verbatim>\<open>statement.cpp\<close>, \<^verbatim>\<open>connection.cpp\<close> of the SQLite wrapper. Shown: select loops end with a prefix
    of the rows; the accessors do not wrap.
  \<^item> \<open>Database\<close>, \<open>Database_Session\<close>: \<^verbatim>\<open>database/\<close>. The statements are a datatype with their meaning on
    tables; the session interface of \<^verbatim>\<open>database/session.hpp\<close> is a record of functions. \<open>Database_Facts\<close>
    refines the table of trades to a map, states the contract of a session as the locale \<open>trade_store\<close>
    and interprets it on the SQLite session; \<open>Database_Queries\<close> says what the queries return.
  \<^item> \<open>Control\<close>, \<open>Control_Manager\<close>, \<open>Control_Facts\<close>: \<^verbatim>\<open>control/\<close>. Requests, routes and answers; the life of
    sessions as a step relation with an invariant on reachable states. Shown: which sessions receive a
    trade, which requests are answered, round trips of timestamps and corrections.
  \<^item> \<open>Config\<close>: \<^verbatim>\<open>config.cpp\<close>. Shown: reading inverts writing, unknown keys are refused, the limits in force
    are those of the file, and their numbers are doubles.
  \<^item> \<open>Controller\<close>: \<^verbatim>\<open>controller.cpp\<close>, one handler per event, and runs as lists of events.
    \<open>Controller_Shared\<close> has the effect of each handler on the shared state and the locale \<open>publisher\<close>, the
    contract of a publishing loop. \<open>Controller_Facts\<close> has the invariant over runs, the fate of old trades
    and the exactness of positions end to end, proved once in the locale \<open>tracked_positions\<close> and
    interpreted for accounts and for users. \<open>Controller_Publish\<close> says what is sent to gateways after
    fills, downloads and gateways becoming ready, over the locales \<open>marked_table\<close> and \<open>published_table\<close> of
    a table with its publish set, again interpreted for both. \<open>Controller_Types\<close> shows that nothing wrong
    is sent: every risk limit shows a current position and the limits in force, and its numbers are
    doubles of the right sign whatever the inputs. It also shows what is lost: loaded positions with the
    first fill, and one of two fills with the same identifier. \<open>Controller_Store\<close> says what is stored.
  \<^item> \<open>Application\<close>: \<^verbatim>\<open>application.cpp\<close>. Shown: a first start with an empty database, and what a restart
    restores from a full one.
  \<^item> \<open>Formatting\<close>: the printed forms of the records in the header files, used in log lines. Shown: the line
    of a trade determines the trade if its texts have no quotes.

  \<^bold>\<open>Parameters.\<close> Code that is not in the repository is an argument of the definitions: the functions of
  the trading library (\<open>roq_api\<close>, with the laws \<open>sign_law\<close> and \<open>format_side_law\<close>), its two cache classes,
  the TOML reader (with the law \<open>numbers_law\<close>, that its numbers are doubles), the JSON reader, the web server's exceptions, and what SQLite leaves open (\<open>engine\<close>: failures,
  reading of printed numbers, order of floating point sums, the row that supplies a bare column). Time is
  an argument of the operations that read a clock.

  \<^bold>\<open>Bounds.\<close> There are no fuel arguments: all loops are structural. The theorems about runs assume fewer
  than $2^{32}$ loaded rows and events, so that the 32-bit instrument ids do not wrap, and at most 256
  sources, because a source is an 8-bit number. Exactness of positions assumes whole lots of a dyadic
  size that add up to at most $2^{53}$ lots, the range in which doubles add without rounding.

  \<^bold>\<open>Not modelled.\<close> \<^verbatim>\<open>main.cpp\<close> and \<^verbatim>\<open>settings.cpp\<close>: they hand the command line to the trading library. The
  event loop and the sockets: input and output. Log statements and the texts of error messages. The
  optional database backends, whose sources are not in the repository. The test and benchmark programs.
\<close>

end
